(* ===== verification/Bind_Prelude.thy ===== *)
theory Bind_Prelude
  imports Main "HOL-Library.Word" "HOL-Library.AList"
begin

text \<open>
  The vocabulary every component of the driver-binding development shares: Rust's machine
  integers and their byte encodings, Rust strings as UTF-8 byte sequences, \<open>Result\<close> with
  panics as values, the vector operations that can panic, and hash maps whose entries the
  code walks over. The generic lemmas here are declared for the simplifier or into the
  collections below, so that the proofs of the components stay short.
\<close>

unbundle bit_operations_syntax

named_theorems result_simps \<open>inversion rules for the result type\<close>
named_theorems byte_simps \<open>evaluation of byte encodings\<close>

section \<open>Machine integers and bytes\<close>

type_synonym u8 = "8 word"
type_synonym u32 = "32 word"
type_synonym u64 = "64 word"

text \<open>\<open>u32::to_le_bytes\<close> and \<open>u32::to_be_bytes\<close>: least, respectively most,
  significant byte first.\<close>

definition to_le_bytes :: "u32 \<Rightarrow> u8 list" where
  "to_le_bytes w = [ucast w, ucast (drop_bit 8 w), ucast (drop_bit 16 w), ucast (drop_bit 24 w)]"

definition to_be_bytes :: "u32 \<Rightarrow> u8 list" where
  "to_be_bytes w = rev (to_le_bytes w)"

text \<open>\<open>u32::from_le_bytes\<close> (and \<open>byteorder::LittleEndian::read_u32\<close>) and
  \<open>u32::from_be_bytes\<close>.\<close>

fun from_le_bytes :: "u8 list \<Rightarrow> u32" where
  "from_le_bytes [] = 0"
| "from_le_bytes (b # bs) = ucast b OR push_bit 8 (from_le_bytes bs)"

definition from_be_bytes :: "u8 list \<Rightarrow> u32" where
  "from_be_bytes bs = from_le_bytes (rev bs)"

lemma length_to_le_bytes [simp]: "length (to_le_bytes w) = 4"
  by (simp add: to_le_bytes_def)

lemma length_to_be_bytes [simp]: "length (to_be_bytes w) = 4"
  by (simp add: to_be_bytes_def)

lemma to_le_bytes_neq_Nil [simp]: "to_le_bytes w \<noteq> []"
  by (simp add: to_le_bytes_def)

lemma from_to_le_bytes [simp]: "from_le_bytes (to_le_bytes w) = w"
proof (rule bit_word_eqI)
  fix n
  assume "n < LENGTH(32)"
  then consider "n < 8" | "8 \<le> n \<and> n < 16" | "16 \<le> n \<and> n < 24" | "24 \<le> n \<and> n < 32"
    by fastforce
  then show "bit (from_le_bytes (to_le_bytes w)) n = bit w n"
    by cases (auto simp: to_le_bytes_def bit_simps)
qed

lemma from_to_be_bytes [simp]: "from_be_bytes (to_be_bytes w) = w"
  by (simp add: to_be_bytes_def from_be_bytes_def)

lemma to_le_bytes_inject [simp]: "to_le_bytes v = to_le_bytes w \<longleftrightarrow> v = w"
  by (metis from_to_le_bytes)

lemma to_le_bytes_split:
  obtains a b c d where "to_le_bytes w = [a, b, c, d]"
  by (simp add: to_le_bytes_def)

text \<open>\<open>n as u32\<close> for a \<open>usize\<close>: the low 32 bits.\<close>

abbreviation as_u32 :: "nat \<Rightarrow> u32" where
  "as_u32 n \<equiv> word_of_nat n"

lemma unat_as_u32 [simp]: "n < 2 ^ 32 \<Longrightarrow> unat (as_u32 n) = n"
  by (simp add: unat_of_nat)

section \<open>Rust strings\<close>

text \<open>
  A Rust \<open>String\<close> is a sequence of bytes that is valid UTF-8. It is modelled by a HOL
  \<^typ>\<open>string\<close>, whose characters are bytes, so \<open>len()\<close> is \<^const>\<open>length\<close>.
\<close>

definition byte_of_char :: "char \<Rightarrow> u8" where
  "byte_of_char c = of_char c"

definition char_of_byte :: "u8 \<Rightarrow> char" where
  "char_of_byte b = char_of (unat b)"

definition into_bytes :: "string \<Rightarrow> u8 list" where
  "into_bytes s = map byte_of_char s"

definition string_of_bytes :: "u8 list \<Rightarrow> string" where
  "string_of_bytes bs = map char_of_byte bs"

lemma unat_of_char [simp]: "unat (of_char c :: u8) = of_char c"
proof -
  have "unat (of_char c :: u8) = unat (word_of_nat (of_char c) :: u8)"
    by (simp only: of_nat_of_char)
  also have "\<dots> = of_char c mod 2 ^ 8"
    by (simp only: unat_of_nat) simp
  also have "\<dots> = of_char c"
    by (simp add: of_char_mod_256)
  finally show ?thesis .
qed

lemma char_of_byte_of_char [simp]: "char_of_byte (byte_of_char c) = c"
  by (simp add: byte_of_char_def char_of_byte_def)

lemma byte_of_char_of_byte [simp]: "byte_of_char (char_of_byte b) = b"
proof -
  have "(of_char (char_of (unat b)) :: u8) = word_of_nat (of_char (char_of (unat b)))"
    by (simp only: of_nat_of_char)
  also have "\<dots> = word_of_nat (unat b mod 256)"
    by simp
  also have "\<dots> = b"
    using unsigned_less [of b, where ?'a = nat] by simp
  finally show ?thesis
    by (simp add: byte_of_char_def char_of_byte_def)
qed

lemma string_of_into_bytes [simp]: "string_of_bytes (into_bytes s) = s"
  by (simp add: string_of_bytes_def into_bytes_def o_def)

lemma into_bytes_string_of [simp]: "into_bytes (string_of_bytes bs) = bs"
  by (simp add: string_of_bytes_def into_bytes_def o_def)

lemma length_into_bytes [simp]: "length (into_bytes s) = length s"
  by (simp add: into_bytes_def)

lemma into_bytes_Nil [simp]: "into_bytes s = [] \<longleftrightarrow> s = []"
  by (simp add: into_bytes_def)

text \<open>
  The validation of \<open>String::from_utf8\<close>: the well-formed byte sequences of the Unicode
  standard (no overlong forms, no surrogates, nothing above U+10FFFF).
\<close>

definition utf8_cont :: "u8 \<Rightarrow> bool" where
  "utf8_cont b \<longleftrightarrow> 0x80 \<le> b \<and> b \<le> 0xBF"

fun utf8_valid :: "u8 list \<Rightarrow> bool" where
  "utf8_valid [] = True"
| "utf8_valid (a # bs) =
     (if a < 0x80 then utf8_valid bs
      else if 0xC2 \<le> a \<and> a \<le> 0xDF then
        (case bs of b # r \<Rightarrow> utf8_cont b \<and> utf8_valid r | _ \<Rightarrow> False)
      else if 0xE0 \<le> a \<and> a \<le> 0xEF then
        (case bs of b # c # r \<Rightarrow>
             (if a = 0xE0 then 0xA0 \<le> b \<and> b \<le> 0xBF
              else if a = 0xED then 0x80 \<le> b \<and> b \<le> 0x9F else utf8_cont b)
             \<and> utf8_cont c \<and> utf8_valid r
         | _ \<Rightarrow> False)
      else if 0xF0 \<le> a \<and> a \<le> 0xF4 then
        (case bs of b # c # d # r \<Rightarrow>
             (if a = 0xF0 then 0x90 \<le> b \<and> b \<le> 0xBF
              else if a = 0xF4 then 0x80 \<le> b \<and> b \<le> 0x8F else utf8_cont b)
             \<and> utf8_cont c \<and> utf8_cont d \<and> utf8_valid r
         | _ \<Rightarrow> False)
      else False)"

definition rust_string :: "string \<Rightarrow> bool" where
  "rust_string s \<longleftrightarrow> utf8_valid (into_bytes s)"

definition from_utf8 :: "u8 list \<Rightarrow> string option" where
  "from_utf8 bs = (if utf8_valid bs then Some (string_of_bytes bs) else None)"

lemma from_utf8_into_bytes [simp]: "rust_string s \<Longrightarrow> from_utf8 (into_bytes s) = Some s"
  by (simp add: from_utf8_def rust_string_def)

lemma from_utf8_rust_string: "from_utf8 bs = Some s \<Longrightarrow> rust_string s"
  by (auto simp: from_utf8_def rust_string_def split: if_splits)

section \<open>Results and panics\<close>

text \<open>
  \<open>Result<T, E>\<close> with a third outcome for a panic (an out-of-range index, an
  \<open>unwrap\<close>, an arithmetic overflow: the build passes \<open>-Cdebug-assertions=yes\<close>).
\<close>

datatype ('a, 'e) result = Ok 'a | Err 'e | Panic

text \<open>The \<open>?\<close> operator followed by the rest of the function.\<close>

definition and_then :: "('a, 'e) result \<Rightarrow> ('a \<Rightarrow> ('b, 'e) result) \<Rightarrow> ('b, 'e) result" where
  "and_then r f = (case r of Ok x \<Rightarrow> f x | Err e \<Rightarrow> Err e | Panic \<Rightarrow> Panic)"

definition map_err :: "('e \<Rightarrow> 'f) \<Rightarrow> ('a, 'e) result \<Rightarrow> ('a, 'f) result" where
  "map_err g r = (case r of Ok x \<Rightarrow> Ok x | Err e \<Rightarrow> Err (g e) | Panic \<Rightarrow> Panic)"

text \<open>\<open>Option::ok_or\<close>, and \<open>unwrap\<close>/\<open>expect\<close> on an option.\<close>

definition ok_or :: "'a option \<Rightarrow> 'e \<Rightarrow> ('a, 'e) result" where
  "ok_or x e = (case x of Some v \<Rightarrow> Ok v | None \<Rightarrow> Err e)"

definition unwrap :: "'a option \<Rightarrow> ('a, 'e) result" where
  "unwrap x = (case x of Some v \<Rightarrow> Ok v | None \<Rightarrow> Panic)"

lemma and_then_simps [simp]:
  "and_then (Ok x) f = f x"
  "and_then (Err e) f = Err e"
  "and_then Panic f = Panic"
  by (simp_all add: and_then_def)

lemma map_err_simps [simp]:
  "map_err g (Ok x) = Ok x"
  "map_err g (Err e) = Err (g e)"
  "map_err g Panic = Panic"
  by (simp_all add: map_err_def)

lemma ok_or_simps [simp]:
  "ok_or (Some v) e = Ok v"
  "ok_or None e = Err e"
  by (simp_all add: ok_or_def)

lemma unwrap_simps [simp]:
  "unwrap (Some v) = Ok v"
  "unwrap None = Panic"
  by (simp_all add: unwrap_def)

lemma and_then_cong [fundef_cong]:
  "r = r' \<Longrightarrow> (\<And>x. r' = Ok x \<Longrightarrow> f x = g x) \<Longrightarrow> and_then r f = and_then r' g"
  by (simp add: and_then_def split: result.splits)

lemma and_then_Ok_iff [result_simps]:
  "and_then r f = Ok y \<longleftrightarrow> (\<exists>x. r = Ok x \<and> f x = Ok y)"
  by (cases r) auto

lemma and_then_Err_iff [result_simps]:
  "and_then r f = Err e \<longleftrightarrow> r = Err e \<or> (\<exists>x. r = Ok x \<and> f x = Err e)"
  by (cases r) auto

lemma and_then_Panic_iff [result_simps]:
  "and_then r f = Panic \<longleftrightarrow> r = Panic \<or> (\<exists>x. r = Ok x \<and> f x = Panic)"
  by (cases r) auto

lemma map_err_Ok_iff [result_simps]: "map_err g r = Ok y \<longleftrightarrow> r = Ok y"
  by (cases r) auto

lemma map_err_Err_iff [result_simps]: "map_err g r = Err e \<longleftrightarrow> (\<exists>e'. r = Err e' \<and> e = g e')"
  by (cases r) auto

lemma map_err_Panic_iff [result_simps]: "map_err g r = Panic \<longleftrightarrow> r = Panic"
  by (cases r) auto

lemma ok_or_Ok_iff [result_simps]: "ok_or x e = Ok v \<longleftrightarrow> x = Some v"
  by (cases x) auto

lemma ok_or_Err_iff [result_simps]: "ok_or x e = Err e' \<longleftrightarrow> x = None \<and> e' = e"
  by (cases x) auto

lemma ok_or_not_Panic [simp]: "ok_or x e \<noteq> Panic"
  by (cases x) auto

lemma unwrap_Ok_iff [result_simps]: "unwrap x = Ok v \<longleftrightarrow> x = Some v"
  by (cases x) auto

lemma unwrap_not_Err [simp]: "unwrap x \<noteq> Err e"
  by (cases x) auto

lemma and_then_assoc: "and_then (and_then r f) g = and_then r (\<lambda>x. and_then (f x) g)"
  by (cases r) auto

text \<open>\<open>iter().map(f).collect::<Result<Vec<_>, _>>()\<close>: the first error wins.\<close>

fun collect_results :: "('a \<Rightarrow> ('b, 'e) result) \<Rightarrow> 'a list \<Rightarrow> ('b list, 'e) result" where
  "collect_results f [] = Ok []"
| "collect_results f (x # xs) =
     and_then (f x) (\<lambda>y. and_then (collect_results f xs) (\<lambda>ys. Ok (y # ys)))"

lemma collect_results_Ok:
  "collect_results f xs = Ok ys \<longleftrightarrow> list_all2 (\<lambda>x y. f x = Ok y) xs ys"
  by (induction xs arbitrary: ys) (auto simp: result_simps list_all2_Cons1)

section \<open>Vectors\<close>

text \<open>\<open>v[i]\<close> and \<open>v.split_off(n)\<close> panic out of range.\<close>

definition vec_index :: "'a list \<Rightarrow> nat \<Rightarrow> ('a, 'e) result" where
  "vec_index xs i = (if i < length xs then Ok (xs ! i) else Panic)"

definition split_off :: "'a list \<Rightarrow> nat \<Rightarrow> ('a list \<times> 'a list, 'e) result" where
  "split_off xs n = (if n \<le> length xs then Ok (take n xs, drop n xs) else Panic)"

lemma vec_index_Ok_iff [result_simps]:
  "vec_index xs i = Ok x \<longleftrightarrow> i < length xs \<and> x = xs ! i"
  by (auto simp: vec_index_def)

lemma vec_index_not_Err [simp]: "vec_index xs i \<noteq> Err e"
  by (simp add: vec_index_def)

lemma split_off_Ok_iff [result_simps]:
  "split_off xs n = Ok p \<longleftrightarrow> n \<le> length xs \<and> p = (take n xs, drop n xs)"
  by (auto simp: split_off_def)

lemma split_off_not_Err [simp]: "split_off xs n \<noteq> Err e"
  by (simp add: split_off_def)

lemma split_off_Panic_iff [result_simps]: "split_off xs n = Panic \<longleftrightarrow> length xs < n"
  by (auto simp: split_off_def)

lemma split_off_append [simp]: "n = length xs \<Longrightarrow> split_off (xs @ ys) n = Ok (xs, ys)"
  by (simp add: split_off_def)

text \<open>\<open>x += 1\<close> on a \<open>u32\<close> counter panics on overflow.\<close>

definition checked_inc :: "u32 \<Rightarrow> (u32, 'e) result" where
  "checked_inc x = (if x = - 1 then Panic else Ok (x + 1))"

lemma checked_inc_Ok_iff [result_simps]: "checked_inc x = Ok y \<longleftrightarrow> x \<noteq> - 1 \<and> y = x + 1"
  by (auto simp: checked_inc_def)

lemma checked_inc_not_Err [simp]: "checked_inc x \<noteq> Err e"
  by (simp add: checked_inc_def)

lemma checked_inc_Panic_iff [result_simps]: "checked_inc x = Panic \<longleftrightarrow> x = - 1"
  by (auto simp: checked_inc_def)

lemma unat_checked_inc: "checked_inc x = Ok y \<Longrightarrow> unat y = Suc (unat x)"
  using unatSuc [of x] by (auto simp: result_simps add.commute add_eq_0_iff)

lemma unat_u32_less: "unat (x :: u32) < 2 ^ 32"
  using unsigned_less [of x, where ?'a = nat] by simp

text \<open>Addition of \<open>u32\<close> values, a panic on overflow.\<close>

definition checked_add :: "u32 \<Rightarrow> u32 \<Rightarrow> (u32, 'e) result" where
  "checked_add x y = (if x + y < x then Panic else Ok (x + y))"

lemma checked_add_ok:
  assumes "unat x + unat y < 2 ^ 32"
  shows "checked_add x y = Ok (x + y)"
proof -
  have "unat (x + y) = unat x + unat y"
    using assms by (simp add: unat_word_ariths)
  then have "\<not> x + y < x"
    by (simp add: word_less_nat_alt)
  then show ?thesis by (simp add: checked_add_def)
qed

lemma checked_add_not_Err [simp]: "checked_add x y \<noteq> Err e"
  by (simp add: checked_add_def)

text \<open>Evaluation compares with this bound as an integer, not as a natural number in unary.\<close>

lemma less_u32_code [code_unfold]: "(n :: nat) < 2 ^ 32 \<longleftrightarrow> int n < 2 ^ 32"
  by simp

end
