(* ===== verification/Bind_Ast.thy ===== *)
theory Bind_Ast
  imports Bind_Prelude
begin

text \<open>
  The syntax trees of the bind language: the data types of \<open>parser/common.rs\<close>,
  \<open>parser/bind_rules.rs\<close>, \<open>parser/bind_library.rs\<close> and \<open>parser/bind_composite.rs\<close>,
  with the operations on compound identifiers, and the symbols of
  \<open>compiler/symbol_table.rs\<close> that the later stages exchange.
\<close>

section \<open>Identifiers and values (\<open>parser/common.rs\<close>)\<close>

record Span =
  sp_offset :: nat
  sp_line :: u32
  sp_fragment :: string

record CompoundIdentifier =
  ci_namespace :: "string list"
  ci_name :: string

text \<open>\<open>Vec<String>::join(sep)\<close>.\<close>

fun join :: "string list \<Rightarrow> string \<Rightarrow> string" where
  "join [] sep = []"
| "join [x] sep = x"
| "join (x # y # ys) sep = x @ sep @ join (y # ys) sep"

text \<open>\<open>impl Display for CompoundIdentifier\<close>.\<close>

definition ci_to_string :: "CompoundIdentifier \<Rightarrow> string" where
  "ci_to_string i =
     (if ci_namespace i = [] then ci_name i
      else join (ci_namespace i) ''.'' @ ''.'' @ ci_name i)"

definition nest :: "CompoundIdentifier \<Rightarrow> string \<Rightarrow> CompoundIdentifier" where
  "nest i n = \<lparr>ci_namespace = ci_namespace i @ [ci_name i], ci_name = n\<rparr>"

definition parent :: "CompoundIdentifier \<Rightarrow> CompoundIdentifier option" where
  "parent i =
     (if ci_namespace i = [] then None
      else Some \<lparr>ci_namespace = butlast (ci_namespace i), ci_name = last (ci_namespace i)\<rparr>)"

text \<open>The macro \<open>make_identifier!\<close>: the segments of an identifier, the last one its name.\<close>

fun make_identifier :: "string list \<Rightarrow> CompoundIdentifier" where
  "make_identifier [] = \<lparr>ci_namespace = [], ci_name = []\<rparr>"
| "make_identifier [n] = \<lparr>ci_namespace = [], ci_name = n\<rparr>"
| "make_identifier (n # ns) =
     (let i = make_identifier ns in i\<lparr>ci_namespace := n # ci_namespace i\<rparr>)"

record Include =
  inc_name :: CompoundIdentifier
  inc_alias :: "string option"

datatype Value =
    NumericLiteral u64
  | StringLiteral string
  | BoolLiteral bool
  | Identifier CompoundIdentifier

text \<open>The kinds of \<open>nom::error::ErrorKind\<close> that the combinators used by the parsers report.\<close>

datatype ErrorKind =
    EkTag | EkMapRes | EkAlt | EkIsNot | EkSeparatedList | EkMany0 | EkMany1 | EkTakeUntil
  | EkDigit | EkHexDigit | EkMultiSpace | EkOneOf | EkChar | EkCrLf | EkEscaped

datatype BindParserError =
    PeType string
  | PeStringLiteral string
  | PeNumericLiteral string
  | PeBoolLiteral string
  | PeIdentifier string
  | PeSemicolon string
  | PeAssignment string
  | PeListStart string
  | PeListEnd string
  | PeListSeparator string
  | PeLibraryKeyword string
  | PeUsingKeyword string
  | PeAsKeyword string
  | PeIfBlockStart string
  | PeIfBlockEnd string
  | PeIfKeyword string
  | PeElseKeyword string
  | PeConditionOp string
  | PeConditionValue string
  | PeAcceptKeyword string
  | PeTrueKeyword string
  | PeFalseKeyword string
  | PeNoStatements string
  | PeNoNodes string
  | PeEof string
  | PeCompositeKeyword string
  | PeNodeKeyword string
  | PePrimaryKeyword string
  | PeOnePrimaryNode string
  | PeInvalidNodeName string
  | PeDuplicateNodeName string
  | PeUnterminatedComment
  | PeUnknown string ErrorKind

lemma parent_nest [simp]: "parent (nest i n) = Some i"
  by (cases i) (simp add: parent_def nest_def)

lemma nest_inject [simp]: "nest i m = nest j n \<longleftrightarrow> i = j \<and> m = n"
  by (cases i; cases j) (auto simp: nest_def)

lemma ci_name_nest [simp]: "ci_name (nest i n) = n"
  by (simp add: nest_def)

lemma nest_parent: "parent i = Some p \<Longrightarrow> nest p (ci_name i) = i"
  by (cases i) (auto simp: parent_def nest_def split: if_splits)

section \<open>Bind rules (\<open>parser/bind_rules.rs\<close>)\<close>

datatype ConditionOp = Equals | NotEquals

record Condition =
  cond_span :: Span
  cond_lhs :: CompoundIdentifier
  cond_op :: ConditionOp
  cond_rhs :: Value

datatype Statement =
    ConditionStatement Span Condition
  | Accept Span CompoundIdentifier "Value list"
  | IfStatement Span "(Condition \<times> Statement list) list" "Statement list"
  | FalseStatement Span
  | TrueStatement Span

fun get_span :: "Statement \<Rightarrow> Span" where
  "get_span (ConditionStatement sp _) = sp"
| "get_span (Accept sp _ _) = sp"
| "get_span (IfStatement sp _ _) = sp"
| "get_span (FalseStatement sp) = sp"
| "get_span (TrueStatement sp) = sp"

record Ast =
  ast_using :: "Include list"
  ast_statements :: "Statement list"

section \<open>Libraries (\<open>parser/bind_library.rs\<close>)\<close>

datatype ValueType = VtNumber | VtStr | VtBool | VtEnum

datatype LibraryValue =
    LvNumber string u64
  | LvStr string string
  | LvBool string bool
  | LvEnum string

fun identifier_of :: "LibraryValue \<Rightarrow> string" where
  "identifier_of (LvNumber i _) = i"
| "identifier_of (LvStr i _) = i"
| "identifier_of (LvBool i _) = i"
| "identifier_of (LvEnum i) = i"

record Declaration =
  dc_identifier :: CompoundIdentifier
  dc_value_type :: ValueType
  dc_extends :: bool
  dc_values :: "LibraryValue list"

record LibraryAst =
  lib_name :: CompoundIdentifier
  lib_using :: "Include list"
  lib_declarations :: "Declaration list"

section \<open>Composite rules (\<open>parser/bind_composite.rs\<close>)\<close>

record CompositeAstNode =
  can_name :: string
  can_statements :: "Statement list"

record CompositeAst =
  cast_name :: CompoundIdentifier
  cast_using :: "Include list"
  cast_primary_node :: CompositeAstNode
  cast_nodes :: "CompositeAstNode list"

section \<open>Symbols (\<open>compiler/symbol_table.rs\<close>)\<close>

datatype Symbol =
    DeprecatedKey u32
  | Key string ValueType
  | NumberValue u64
  | StringValue string
  | BoolValue bool
  | EnumValue string

type_synonym SymbolTable = "CompoundIdentifier \<rightharpoonup> Symbol"

end
