(* ===== verification/Nom.thy ===== *)
theory Nom
  imports Bind_Ast
begin

text \<open>
  The parser combinators that the bind parsers are built from: the crates \<open>nom\<close> and
  \<open>nom_locate\<close> under \<open>third_party/rust_crates/vendor\<close>. A parser takes a span of the source and
  returns the span that remains with a value, or one of nom's three kinds of error. The
  combinators are generic in the error type: the argument \<open>mk\<close> is its \<open>from_error_kind\<close>.
  All delimiters of the bind language are ASCII, so scanning bytes and scanning characters stop
  at the same places.
\<close>

section \<open>Located spans (\<open>nom_locate\<close>)\<close>

record NomSpan =
  ns_offset :: nat
  ns_line :: u32
  ns_fragment :: string

definition new_span :: "string \<Rightarrow> NomSpan" where
  "new_span input = \<lparr>ns_offset = 0, ns_line = 1, ns_fragment = input\<rparr>"

definition newlines :: "string \<Rightarrow> nat" where
  "newlines s = length (filter (\<lambda>c. c = CHR 0x0A) s)"

definition slice_from :: "nat \<Rightarrow> NomSpan \<Rightarrow> (NomSpan, 'e) result" where
  "slice_from n i =
     (if n = 0 then Ok i
      else if length (ns_fragment i) < n then Panic
      else
        let number_of_lines = as_u32 (newlines (take n (ns_fragment i))) in
        and_then (checked_add (ns_line i) number_of_lines) (\<lambda>next_line.
          Ok \<lparr>ns_offset = ns_offset i + n, ns_line = next_line, ns_fragment = drop n (ns_fragment i)\<rparr>))"

definition slice_to :: "nat \<Rightarrow> NomSpan \<Rightarrow> (NomSpan, 'e) result" where
  "slice_to n i =
     (if length (ns_fragment i) < n then Panic else Ok (i\<lparr>ns_fragment := take n (ns_fragment i)\<rparr>))"

definition take_split :: "nat \<Rightarrow> NomSpan \<Rightarrow> (NomSpan \<times> NomSpan, 'e) result" where
  "take_split n i = and_then (slice_from n i) (\<lambda>r. and_then (slice_to n i) (\<lambda>t. Ok (r, t)))"

section \<open>Parsers and their errors\<close>

datatype 'e NomErr = NomError 'e | NomFailure 'e | NomIncomplete

type_synonym ('a, 'e) parser = "NomSpan \<Rightarrow> (NomSpan \<times> 'a, 'e NomErr) result"
type_synonym 'e make_error = "NomSpan \<Rightarrow> ErrorKind \<Rightarrow> 'e"

abbreviation fails :: "'e \<Rightarrow> (NomSpan \<times> 'a, 'e NomErr) result" where
  "fails e \<equiv> Err (NomError e)"

section \<open>Basic parsers\<close>

definition starts_with :: "string \<Rightarrow> string \<Rightarrow> bool" where
  "starts_with t s \<longleftrightarrow> take (length t) s = t"

definition tag :: "'e make_error \<Rightarrow> string \<Rightarrow> (NomSpan, 'e) parser" where
  "tag mk t i = (if starts_with t (ns_fragment i) then take_split (length t) i else fails (mk i EkTag))"

definition position :: "(char \<Rightarrow> bool) \<Rightarrow> string \<Rightarrow> nat option" where
  "position P s = (if list_ex P s then Some (length (takeWhile (\<lambda>c. \<not> P c) s)) else None)"

definition split_at_position1_complete ::
    "'e make_error \<Rightarrow> (char \<Rightarrow> bool) \<Rightarrow> ErrorKind \<Rightarrow> (NomSpan, 'e) parser" where
  "split_at_position1_complete mk P e i =
     (case position P (ns_fragment i) of
        Some n \<Rightarrow> if n = 0 then fails (mk i e) else take_split n i
      | None \<Rightarrow>
          if ns_fragment i = [] then fails (mk i e)
          else take_split (length (ns_fragment i)) i)"

definition is_not :: "'e make_error \<Rightarrow> string \<Rightarrow> (NomSpan, 'e) parser" where
  "is_not mk arr = split_at_position1_complete mk (\<lambda>c. c \<in> set arr) EkIsNot"

definition is_dec_digit :: "char \<Rightarrow> bool" where
  "is_dec_digit c \<longleftrightarrow> c \<in> set ''0123456789''"

definition is_hex_digit :: "char \<Rightarrow> bool" where
  "is_hex_digit c \<longleftrightarrow> c \<in> set ''0123456789ABCDEFabcdef''"

definition digit1 :: "'e make_error \<Rightarrow> (NomSpan, 'e) parser" where
  "digit1 mk = split_at_position1_complete mk (\<lambda>c. \<not> is_dec_digit c) EkDigit"

definition hex_digit1 :: "'e make_error \<Rightarrow> (NomSpan, 'e) parser" where
  "hex_digit1 mk = split_at_position1_complete mk (\<lambda>c. \<not> is_hex_digit c) EkHexDigit"

definition is_multispace :: "char \<Rightarrow> bool" where
  "is_multispace c \<longleftrightarrow> c = CHR '' '' \<or> c = CHR 0x09 \<or> c = CHR 0x0D \<or> c = CHR 0x0A"

definition multispace1 :: "'e make_error \<Rightarrow> (NomSpan, 'e) parser" where
  "multispace1 mk = split_at_position1_complete mk (\<lambda>c. \<not> is_multispace c) EkMultiSpace"

definition line_ending :: "'e make_error \<Rightarrow> (NomSpan, 'e) parser" where
  "line_ending mk i =
     (if starts_with [CHR 0x0A] (ns_fragment i) then take_split 1 i
      else if starts_with [CHR 0x0D, CHR 0x0A] (ns_fragment i) then take_split 2 i
      else fails (mk i EkCrLf))"

definition not_line_ending :: "'e make_error \<Rightarrow> (NomSpan, 'e) parser" where
  "not_line_ending mk i =
     (case position (\<lambda>c. c = CHR 0x0D \<or> c = CHR 0x0A) (ns_fragment i) of
        None \<Rightarrow> and_then (slice_from (length (ns_fragment i)) i) (\<lambda>r. Ok (r, i))
      | Some index \<Rightarrow>
          if ns_fragment i ! index = CHR 0x0D \<and> \<not> starts_with [CHR 0x0D, CHR 0x0A] (drop index (ns_fragment i))
          then fails (mk i EkTag)
          else take_split index i)"

definition nom_char :: "'e make_error \<Rightarrow> char \<Rightarrow> (char, 'e) parser" where
  "nom_char mk c i =
     (case ns_fragment i of
        d # _ \<Rightarrow> if d = c then and_then (slice_from 1 i) (\<lambda>r. Ok (r, d)) else fails (mk i EkChar)
      | [] \<Rightarrow> fails (mk i EkChar))"

definition one_of :: "'e make_error \<Rightarrow> string \<Rightarrow> (char, 'e) parser" where
  "one_of mk list i =
     (case ns_fragment i of
        c # _ \<Rightarrow> if c \<in> set list then and_then (slice_from 1 i) (\<lambda>r. Ok (r, c)) else fails (mk i EkOneOf)
      | [] \<Rightarrow> fails (mk i EkOneOf))"

fun find_substring :: "string \<Rightarrow> string \<Rightarrow> nat option" where
  "find_substring t [] = (if t = [] then Some 0 else None)"
| "find_substring t (c # cs) =
     (if starts_with t (c # cs) then Some 0 else map_option Suc (find_substring t cs))"

definition take_until :: "'e make_error \<Rightarrow> string \<Rightarrow> (NomSpan, 'e) parser" where
  "take_until mk t i =
     (case find_substring t (ns_fragment i) of
        None \<Rightarrow> fails (mk i EkTakeUntil)
      | Some index \<Rightarrow> take_split index i)"

section \<open>Combinators\<close>

definition map_p :: "('a, 'e) parser \<Rightarrow> ('a \<Rightarrow> 'b) \<Rightarrow> ('b, 'e) parser" where
  "map_p first second i = and_then (first i) (\<lambda>(i, o1). Ok (i, second o1))"

definition map_res :: "'e make_error \<Rightarrow> ('a, 'e) parser \<Rightarrow> ('a \<Rightarrow> 'b option) \<Rightarrow> ('b, 'e) parser" where
  "map_res mk first second i =
     and_then (first i) (\<lambda>(r, o1).
       case second o1 of Some o2 \<Rightarrow> Ok (r, o2) | None \<Rightarrow> fails (mk i EkMapRes))"

definition opt :: "('a, 'e) parser \<Rightarrow> ('a option, 'e) parser" where
  "opt f i =
     (case f i of
        Ok (r, x) \<Rightarrow> Ok (r, Some x)
      | Err (NomError _) \<Rightarrow> Ok (i, None)
      | Err e \<Rightarrow> Err e
      | Panic \<Rightarrow> Panic)"

definition value_p :: "'b \<Rightarrow> ('a, 'e) parser \<Rightarrow> ('b, 'e) parser" where
  "value_p val parser i = and_then (parser i) (\<lambda>(i, _). Ok (i, val))"

text \<open>A tuple of alternatives as a list, with the error of the last alternative that was tried.\<close>

fun alt_from :: "'e option \<Rightarrow> ('a, 'e) parser list \<Rightarrow> ('a, 'e) parser" where
  "alt_from None [] i = Panic"
| "alt_from (Some e) [] i = fails e"
| "alt_from err (p # ps) i =
     (case p i of Err (NomError e) \<Rightarrow> alt_from (Some e) ps i | r \<Rightarrow> r)"

definition alt :: "('a, 'e) parser list \<Rightarrow> ('a, 'e) parser" where
  "alt ps = alt_from None ps"

definition pair :: "('a, 'e) parser \<Rightarrow> ('b, 'e) parser \<Rightarrow> ('a \<times> 'b, 'e) parser" where
  "pair first second i =
     and_then (first i) (\<lambda>(i, o1). and_then (second i) (\<lambda>(i, o2). Ok (i, (o1, o2))))"

definition preceded :: "('a, 'e) parser \<Rightarrow> ('b, 'e) parser \<Rightarrow> ('b, 'e) parser" where
  "preceded first second i = and_then (first i) (\<lambda>(i, _). second i)"

definition terminated :: "('a, 'e) parser \<Rightarrow> ('b, 'e) parser \<Rightarrow> ('a, 'e) parser" where
  "terminated first second i =
     and_then (first i) (\<lambda>(i, o1). and_then (second i) (\<lambda>(i, _). Ok (i, o1)))"

definition delimited :: "('a, 'e) parser \<Rightarrow> ('b, 'e) parser \<Rightarrow> ('c, 'e) parser \<Rightarrow> ('b, 'e) parser" where
  "delimited first sep second i =
     and_then (first i) (\<lambda>(i, _). and_then (sep i) (\<lambda>(i, o2). and_then (second i) (\<lambda>(i, _). Ok (i, o2))))"

definition separated_pair ::
    "('a, 'e) parser \<Rightarrow> ('b, 'e) parser \<Rightarrow> ('c, 'e) parser \<Rightarrow> ('a \<times> 'c, 'e) parser" where
  "separated_pair first sep second i =
     and_then (first i) (\<lambda>(i, o1). and_then (sep i) (\<lambda>(i, _). and_then (second i) (\<lambda>(i, o2). Ok (i, (o1, o2)))))"

section \<open>Loops\<close>

text \<open>
  The loops run on fuel, one more than the bytes that are left: every round that goes on consumes
  at least one. Running out of fuel would be a panic; that it never happens is part of the
  lemma that the parsers do not panic.
\<close>

fun many_loop :: "'e make_error \<Rightarrow> ErrorKind \<Rightarrow> ('a, 'e) parser \<Rightarrow> nat \<Rightarrow> 'a list \<Rightarrow> ('a list, 'e) parser" where
  "many_loop mk kind f 0 acc i = Panic"
| "many_loop mk kind f (Suc n) acc i =
     (case f i of
        Err (NomError _) \<Rightarrow> Ok (i, acc)
      | Err e \<Rightarrow> Err e
      | Ok (i1, x) \<Rightarrow> if i1 = i then fails (mk i kind) else many_loop mk kind f n (acc @ [x]) i1
      | Panic \<Rightarrow> Panic)"

definition many0 :: "'e make_error \<Rightarrow> ('a, 'e) parser \<Rightarrow> ('a list, 'e) parser" where
  "many0 mk f i = many_loop mk EkMany0 f (Suc (length (ns_fragment i))) [] i"

definition many1 :: "'e make_error \<Rightarrow> ('a, 'e) parser \<Rightarrow> ('a list, 'e) parser" where
  "many1 mk f i =
     and_then (f i) (\<lambda>(i1, x). many_loop mk EkMany1 f (Suc (length (ns_fragment i1))) [x] i1)"

fun separated_loop ::
    "'e make_error \<Rightarrow> ('b, 'e) parser \<Rightarrow> ('a, 'e) parser \<Rightarrow> nat \<Rightarrow> 'a list \<Rightarrow> ('a list, 'e) parser" where
  "separated_loop mk sep f 0 res i = Panic"
| "separated_loop mk sep f (Suc n) res i =
     (case sep i of
        Err (NomError _) \<Rightarrow> Ok (i, res)
      | Err e \<Rightarrow> Err e
      | Panic \<Rightarrow> Panic
      | Ok (i1, _) \<Rightarrow>
          if i1 = i then fails (mk i1 EkSeparatedList)
          else
            (case f i1 of
               Err (NomError _) \<Rightarrow> Ok (i, res)
             | Err e \<Rightarrow> Err e
             | Panic \<Rightarrow> Panic
             | Ok (i2, x) \<Rightarrow>
                 if i2 = i then fails (mk i2 EkSeparatedList)
                 else separated_loop mk sep f n (res @ [x]) i2))"

definition separated_nonempty_list ::
    "'e make_error \<Rightarrow> ('b, 'e) parser \<Rightarrow> ('a, 'e) parser \<Rightarrow> ('a list, 'e) parser" where
  "separated_nonempty_list mk sep f i =
     and_then (f i) (\<lambda>(i1, x).
       if i1 = i then fails (mk i1 EkSeparatedList)
       else separated_loop mk sep f (Suc (length (ns_fragment i1))) [x] i1)"

fun escaped_loop ::
    "'e make_error \<Rightarrow> (NomSpan, 'e) parser \<Rightarrow> char \<Rightarrow> (char, 'e) parser \<Rightarrow> NomSpan \<Rightarrow> nat \<Rightarrow> (NomSpan, 'e) parser" where
  "escaped_loop mk normal control_char escapable input 0 i = Panic"
| "escaped_loop mk normal control_char escapable input (Suc n) i =
     (if ns_fragment i = []
      then and_then (slice_from (length (ns_fragment input)) input) (\<lambda>r. Ok (r, input))
      else
        (case normal i of
           Ok (i2, _) \<Rightarrow>
             if ns_fragment i2 = []
             then and_then (slice_from (length (ns_fragment input)) input) (\<lambda>r. Ok (r, input))
             else escaped_loop mk normal control_char escapable input n i2
         | Err (NomError _) \<Rightarrow>
             if hd (ns_fragment i) = control_char then
               if length (ns_fragment i) \<le> 1 then fails (mk input EkEscaped)
               else
                 and_then (slice_from 1 i) (\<lambda>j.
                 and_then (escapable j) (\<lambda>(i2, _).
                   if ns_fragment i2 = []
                   then and_then (slice_from (length (ns_fragment input)) input) (\<lambda>r. Ok (r, input))
                   else escaped_loop mk normal control_char escapable input n i2))
             else if ns_offset i < ns_offset input then Panic
             else if ns_offset i = ns_offset input then fails (mk input EkEscaped)
             else take_split (ns_offset i - ns_offset input) input
         | Err e \<Rightarrow> Err e
         | Panic \<Rightarrow> Panic))"

text \<open>\<open>escaped\<close> for a control character of one byte.\<close>

definition escaped :: "'e make_error \<Rightarrow> (NomSpan, 'e) parser \<Rightarrow> char \<Rightarrow> (char, 'e) parser \<Rightarrow> (NomSpan, 'e) parser" where
  "escaped mk normal control_char escapable input =
     escaped_loop mk normal control_char escapable input (Suc (length (ns_fragment input))) input"

end
