(* ===== verification/Rust_Format.thy ===== *)
theory Rust_Format
  imports Bind_Prelude
begin

text \<open>The formats of unsigned integers that the sources use in \<open>format!\<close> and \<open>write!\<close>.\<close>

definition digit_char :: "int \<Rightarrow> char" where
  "digit_char d = ''0123456789abcdef'' ! nat d"

function digits :: "int \<Rightarrow> int \<Rightarrow> string" where
  "digits base n =
     (if n < base \<or> base < 2 then [digit_char n] else digits base (n div base) @ [digit_char (n mod base)])"
  by auto
termination
proof (relation "measure (\<lambda>(base, n). nat n)")
  fix base n :: int
  assume "\<not> (n < base \<or> base < 2)"
  then have "n div base < n" "0 \<le> n div base" by (auto intro: int_div_less_self simp: pos_imp_zdiv_nonneg_iff)
  then show "((base, n div base), base, n) \<in> measure (\<lambda>(base, n). nat n)" by simp
qed simp

declare digits.simps [simp del]

text \<open>\<open>{}\<close>, \<open>{:#x}\<close>, and \<open>{:#0wx}\<close> for a width \<open>w\<close> that counts the prefix.\<close>

definition fmt_dec :: "'a::len word \<Rightarrow> string" where
  "fmt_dec w = digits 10 (uint w)"

definition fmt_hex :: "'a::len word \<Rightarrow> string" where
  "fmt_hex w = ''0x'' @ digits 16 (uint w)"

definition fmt_hex_width :: "nat \<Rightarrow> 'a::len word \<Rightarrow> string" where
  "fmt_hex_width k w =
     (let ds = digits 16 (uint w) in ''0x'' @ replicate (k - 2 - length ds) (CHR ''0'') @ ds)"

lemma digits_not_Nil [simp]: "digits base n \<noteq> []"
  by (subst digits.simps) simp

text \<open>Reading the digits back gives the number.\<close>

definition digit_val :: "char \<Rightarrow> int" where
  "digit_val c =
     (let n = of_char c in if n < 58 then n - 48 else if n < 97 then n - 55 else n - 87)"

lemma digit_val_char:
  assumes "0 \<le> d" and "d < 16"
  shows "digit_val (digit_char d) = d"
proof -
  from assms have "d \<in> set [0..15]" by simp
  then show ?thesis
    by (auto simp: upto.simps digit_char_def digit_val_def)
qed

lemma digits_value:
  assumes "0 \<le> n" and "2 \<le> base" and "base \<le> 16"
  shows "foldl (\<lambda>a c. a * base + digit_val c) 0 (digits base n) = n"
  using assms
proof (induction base n rule: digits.induct)
  case (1 base n)
  show ?case
  proof (cases "n < base")
    case True
    with 1(2-4) show ?thesis
      by (subst digits.simps) (simp add: digit_val_char)
  next
    case False
    have "0 \<le> n div base" using 1(2,3) by (simp add: pos_imp_zdiv_nonneg_iff)
    with 1 False have "foldl (\<lambda>a c. a * base + digit_val c) 0 (digits base (n div base)) = n div base"
      by simp
    moreover have "0 \<le> n mod base" "n mod base < 16"
      using 1(3,4) by (simp_all add: order_less_le_trans [OF pos_mod_bound])
    ultimately show ?thesis
      using False 1(3) by (subst digits.simps) (simp add: digit_val_char)
  qed
qed

end
