(* ===== verification/Bind_Parser.thy ===== *)
theory Bind_Parser
  imports Nom Rust_Format
begin

text \<open>
  The parsers of the bind language: \<open>parser/common.rs\<close>, \<open>parser/bind_rules.rs\<close>,
  \<open>parser/bind_library.rs\<close> and \<open>parser/bind_composite.rs\<close>. Statements nest, so the parser of
  statements takes fuel for the nesting depth; the entry points give one more than the length of
  the source, and a nested block is always shorter than the block around it.
\<close>

section \<open>Errors and spans (\<open>parser/common.rs\<close>)\<close>

definition from_error_kind :: "BindParserError make_error" where
  "from_error_kind i kind = PeUnknown (ns_fragment i) kind"

type_synonym raw_error = "NomSpan \<times> ErrorKind"
type_synonym 'a bind_parser = "('a, BindParserError) parser"

definition map_err_p :: "('a, raw_error) parser \<Rightarrow> (string \<Rightarrow> BindParserError) \<Rightarrow> 'a bind_parser" where
  "map_err_p parser f i =
     (case parser i of
        Ok x \<Rightarrow> Ok x
      | Err (NomError (j, _)) \<Rightarrow> Err (NomError (f (ns_fragment j)))
      | Err (NomFailure (j, _)) \<Rightarrow> Err (NomFailure (f (ns_fragment j)))
      | Err NomIncomplete \<Rightarrow> Panic
      | Panic \<Rightarrow> Panic)"

abbreviation keyword_tag :: "string \<Rightarrow> (string \<Rightarrow> BindParserError) \<Rightarrow> NomSpan bind_parser" where
  "keyword_tag t f \<equiv> map_err_p (tag Pair t) f"

definition from_to :: "NomSpan \<Rightarrow> NomSpan \<Rightarrow> (Span, 'e) result" where
  "from_to frm to =
     (if ns_offset to < ns_offset frm \<or> length (ns_fragment frm) < ns_offset to - ns_offset frm then Panic
      else
        Ok \<lparr>sp_offset = ns_offset frm, sp_line = ns_line frm,
            sp_fragment = take (ns_offset to - ns_offset frm) (ns_fragment frm)\<rparr>)"

section \<open>Whitespace and comments\<close>

text \<open>The depth of nesting is an \<open>i32\<close> that never goes below zero.\<close>

fun comment_loop :: "u32 \<Rightarrow> string \<Rightarrow> (u32 \<times> string, 'e) result" where
  "comment_loop stack (first # second # rest) =
     (if first = CHR ''/'' \<and> second = CHR ''*'' then
        if stack = 0x7FFFFFFF then Panic else comment_loop (stack + 1) rest
      else if first = CHR ''*'' \<and> second = CHR ''/'' then
        if stack - 1 = 0 then Ok (stack - 1, rest) else comment_loop (stack - 1) rest
      else comment_loop stack (second # rest))"
| "comment_loop stack _ = Ok (stack, [])"

definition multiline_comment :: "unit bind_parser" where
  "multiline_comment i =
     and_then (tag from_error_kind ''/*'' i) (\<lambda>(i, _).
     and_then (comment_loop 1 (ns_fragment i)) (\<lambda>(stack, rest).
       if stack \<noteq> 0 then Err (NomFailure PeUnterminatedComment)
       else
         and_then (slice_from (length (ns_fragment i) - length rest) i) (\<lambda>r. Ok (r, ()))))"

definition singleline_comment :: "unit bind_parser" where
  "singleline_comment =
     value_p ()
       (pair (tag from_error_kind ''//'') (pair (not_line_ending from_error_kind) (line_ending from_error_kind)))"

definition comment_or_whitespace :: "unit bind_parser" where
  "comment_or_whitespace =
     value_p ()
       (many0 from_error_kind
         (alt [value_p () (multispace1 from_error_kind), multiline_comment, singleline_comment]))"

definition skip_ws :: "NomSpan \<Rightarrow> (NomSpan, BindParserError NomErr) result" where
  "skip_ws i = and_then (comment_or_whitespace i) (\<lambda>(i, _). Ok i)"

definition ws :: "'a bind_parser \<Rightarrow> 'a bind_parser" where
  "ws f = preceded comment_or_whitespace f"

fun until_eof_loop :: "'a bind_parser \<Rightarrow> nat \<Rightarrow> 'a list \<Rightarrow> 'a list bind_parser" where
  "until_eof_loop f 0 result i = Panic"
| "until_eof_loop f (Suc n) result i =
     and_then (skip_ws i) (\<lambda>r.
       if ns_fragment r = [] then Ok (r, result)
       else
         and_then (f i) (\<lambda>(i1, res).
           if length (ns_fragment i) = length (ns_fragment i1) then Panic
           else until_eof_loop f n (result @ [res]) i1))"

definition many_until_eof :: "'a bind_parser \<Rightarrow> 'a list bind_parser" where
  "many_until_eof f i = until_eof_loop f (Suc (length (ns_fragment i))) [] i"

section \<open>Literals and identifiers\<close>

definition quoted :: "(NomSpan, raw_error) parser" where
  "quoted =
     delimited (nom_char Pair CHR ''\"'')
       (escaped Pair (is_not Pair [CHR 0x5C, CHR ''\"'']) CHR 0x5C (one_of Pair [CHR 0x5C, CHR ''\"'']))
       (nom_char Pair CHR ''\"'')"

definition string_literal :: "string bind_parser" where
  "string_literal = map_err_p (map_p quoted ns_fragment) PeStringLiteral"

definition from_str_radix :: "int \<Rightarrow> string \<Rightarrow> u64 option" where
  "from_str_radix radix s =
     (let n = foldl (\<lambda>a c. a * radix + digit_val c) 0 s in
      if s = [] \<or> 2 ^ 64 \<le> n then None else Some (word_of_int n))"

definition numeric_literal :: "u64 bind_parser" where
  "numeric_literal =
     map_err_p
       (alt
         [map_res Pair (preceded (tag Pair ''0x'') (hex_digit1 Pair)) (\<lambda>s. from_str_radix 16 (ns_fragment s)),
          map_res Pair (digit1 Pair) (\<lambda>s. from_str_radix 10 (ns_fragment s))])
       PeNumericLiteral"

definition bool_literal :: "bool bind_parser" where
  "bool_literal =
     map_err_p (alt [value_p True (tag Pair ''true''), value_p False (tag Pair ''false'')]) PeBoolLiteral"

definition is_letter :: "char \<Rightarrow> bool" where
  "is_letter c \<longleftrightarrow> c \<in> set ''abcdefghijklmnopqrstuvwxyzABCDEFGHIJKLMNOPQRSTUVWXYZ''"

definition is_word :: "char \<Rightarrow> bool" where
  "is_word c \<longleftrightarrow> is_letter c \<or> is_dec_digit c \<or> c = CHR ''_''"

text \<open>
  The match of the regular expression of identifiers: a letter, and the longest run of letters,
  digits and underscores after it that does not end in an underscore.
\<close>

fun identifier_match :: "string \<Rightarrow> string option" where
  "identifier_match [] = None"
| "identifier_match (c # cs) =
     (if is_letter c then Some (c # rev (dropWhile (\<lambda>d. d = CHR ''_'') (rev (takeWhile is_word cs)))) else None)"

definition identifier_p :: "string bind_parser" where
  "identifier_p i =
     (case identifier_match (ns_fragment i) of
        Some mat \<Rightarrow> and_then (slice_from (length mat) i) (\<lambda>r. Ok (r, mat))
      | None \<Rightarrow> fails (PeIdentifier (ns_fragment i)))"

definition compound_identifier :: "CompoundIdentifier bind_parser" where
  "compound_identifier i =
     and_then (separated_nonempty_list from_error_kind (tag from_error_kind ''.'') identifier_p i) (\<lambda>(i, segments).
       if segments = [] then Panic
       else Ok (i, \<lparr>ci_namespace = butlast segments, ci_name = last segments\<rparr>))"

definition condition_value :: "Value bind_parser" where
  "condition_value i =
     (case alt
             [map_p (ws string_literal) StringLiteral, map_p (ws numeric_literal) NumericLiteral,
              map_p (ws bool_literal) BoolLiteral, map_p (ws compound_identifier) Identifier] i of
        Err _ \<Rightarrow> fails (PeConditionValue (ns_fragment i))
      | r \<Rightarrow> r)"

section \<open>Includes\<close>

definition using_p :: "Include bind_parser" where
  "using_p i =
     and_then (ws compound_identifier i) (\<lambda>(i, name).
     and_then (opt (preceded (ws (keyword_tag ''as'' PeAsKeyword)) (ws identifier_p)) i) (\<lambda>(i, alias).
       Ok (i, \<lparr>inc_name = name, inc_alias = alias\<rparr>)))"

definition using_list :: "Include list bind_parser" where
  "using_list =
     many0 from_error_kind
       (ws (delimited (ws (keyword_tag ''using'' PeUsingKeyword)) (ws using_p) (ws (keyword_tag '';'' PeSemicolon))))"

end
