(* ===== verification/Bind_Grammar.thy ===== *)
theory Bind_Grammar
  imports Bind_Parser
begin

text \<open>
  The grammars of the three kinds of source file: rules (\<open>parser/bind_rules.rs\<close>), libraries
  (\<open>parser/bind_library.rs\<close>) and composite rules (\<open>parser/bind_composite.rs\<close>).
\<close>

section \<open>Rules\<close>

abbreviation terminator :: "NomSpan bind_parser" where
  "terminator \<equiv> ws (keyword_tag '';'' PeSemicolon)"

definition condition_op :: "ConditionOp bind_parser" where
  "condition_op =
     map_err_p (alt [value_p Equals (tag Pair ''==''), value_p NotEquals (tag Pair ''!='')]) PeConditionOp"

definition condition_p :: "Condition bind_parser" where
  "condition_p i =
     and_then (skip_ws i) (\<lambda>frm.
     and_then (ws compound_identifier frm) (\<lambda>(i, lhs).
     and_then (ws condition_op i) (\<lambda>(i, op).
     and_then (ws condition_value i) (\<lambda>(to, rhs).
     and_then (from_to frm to) (\<lambda>span.
       Ok (to, \<lparr>cond_span = span, cond_lhs = lhs, cond_op = op, cond_rhs = rhs\<rparr>))))))"

definition condition_statement :: "Statement bind_parser" where
  "condition_statement i =
     and_then (skip_ws i) (\<lambda>frm.
     and_then (terminated condition_p terminator frm) (\<lambda>(to, condition).
     and_then (from_to frm to) (\<lambda>span. Ok (to, ConditionStatement span condition))))"

definition keyword_if :: "NomSpan bind_parser" where
  "keyword_if = ws (keyword_tag ''if'' PeIfKeyword)"

definition keyword_else :: "NomSpan bind_parser" where
  "keyword_else = ws (keyword_tag ''else'' PeElseKeyword)"

definition statement_block :: "Statement bind_parser \<Rightarrow> Statement list bind_parser" where
  "statement_block statement =
     delimited (ws (keyword_tag ''{'' PeIfBlockStart)) (many1 from_error_kind (ws statement))
       (ws (keyword_tag ''}'' PeIfBlockEnd))"

definition if_statement :: "Statement bind_parser \<Rightarrow> Statement bind_parser" where
  "if_statement statement i =
     and_then (skip_ws i) (\<lambda>frm.
     and_then
       (separated_nonempty_list from_error_kind keyword_else
         (pair (preceded keyword_if condition_p) (statement_block statement)) frm) (\<lambda>(i, blocks).
     and_then (preceded keyword_else (statement_block statement) i) (\<lambda>(to, else_block).
     and_then (from_to frm to) (\<lambda>span. Ok (to, IfStatement span blocks else_block)))))"

definition keyword_accept :: "NomSpan bind_parser" where
  "keyword_accept = ws (keyword_tag ''accept'' PeAcceptKeyword)"

definition list_separator :: "NomSpan bind_parser" where
  "list_separator = ws (keyword_tag '','' PeListSeparator)"

definition accept_values :: "Value list bind_parser" where
  "accept_values =
     delimited (ws (keyword_tag ''{'' PeListStart))
       (terminated (separated_nonempty_list from_error_kind list_separator (ws condition_value)) (opt list_separator))
       (ws (keyword_tag ''}'' PeListEnd))"

definition accept :: "Statement bind_parser" where
  "accept i =
     and_then (skip_ws i) (\<lambda>frm.
     and_then (preceded keyword_accept (pair (ws compound_identifier) accept_values) frm) (\<lambda>(to, identifier, vs).
     and_then (from_to frm to) (\<lambda>span. Ok (to, Accept span identifier vs))))"

definition keyword_false :: "Statement bind_parser" where
  "keyword_false i =
     and_then (skip_ws i) (\<lambda>frm.
     and_then (terminated (ws (keyword_tag ''false'' PeFalseKeyword)) terminator frm) (\<lambda>(to, _).
     and_then (from_to frm to) (\<lambda>span. Ok (to, FalseStatement span))))"

definition keyword_true :: "Statement bind_parser" where
  "keyword_true i =
     and_then (skip_ws i) (\<lambda>frm.
     and_then (terminated (ws (keyword_tag ''true'' PeTrueKeyword)) terminator frm) (\<lambda>(to, _).
     and_then (from_to frm to) (\<lambda>span. Ok (to, TrueStatement span))))"

fun statement :: "nat \<Rightarrow> Statement bind_parser" where
  "statement 0 i = Panic"
| "statement (Suc n) i =
     alt [condition_statement, if_statement (statement n), accept, keyword_false, keyword_true] i"

definition rules :: "Ast bind_parser" where
  "rules i =
     (let fuel = Suc (length (ns_fragment i)) in
      and_then (ws using_list i) (\<lambda>(i, includes).
      and_then (many_until_eof (ws (statement fuel)) i) (\<lambda>(i, statements).
        if statements = [] then fails (PeNoStatements (ns_fragment i))
        else Ok (i, \<lparr>ast_using = includes, ast_statements = statements\<rparr>))))"

text \<open>The match on the outcome that the three \<open>TryFrom<&str>\<close> share.\<close>

definition parse_outcome :: "(NomSpan \<times> 'a, BindParserError NomErr) result \<Rightarrow> ('a, BindParserError) result" where
  "parse_outcome r =
     (case r of
        Ok (_, ast) \<Rightarrow> Ok ast
      | Err (NomError e) \<Rightarrow> Err e
      | Err (NomFailure e) \<Rightarrow> Err e
      | Err NomIncomplete \<Rightarrow> Panic
      | Panic \<Rightarrow> Panic)"

definition rules_try_from :: "string \<Rightarrow> (Ast, BindParserError) result" where
  "rules_try_from input = parse_outcome (rules (new_span input))"

section \<open>Libraries\<close>

definition keyword_extend :: "NomSpan bind_parser" where
  "keyword_extend = ws (tag from_error_kind ''extend'')"

definition keyword_uint :: "ValueType bind_parser" where
  "keyword_uint = value_p VtNumber (ws (keyword_tag ''uint'' PeType))"

definition keyword_string :: "ValueType bind_parser" where
  "keyword_string = value_p VtStr (ws (keyword_tag ''string'' PeType))"

definition keyword_bool :: "ValueType bind_parser" where
  "keyword_bool = value_p VtBool (ws (keyword_tag ''bool'' PeType))"

definition keyword_enum :: "ValueType bind_parser" where
  "keyword_enum = value_p VtEnum (ws (keyword_tag ''enum'' PeType))"

definition value_list :: "'a bind_parser \<Rightarrow> 'a list bind_parser" where
  "value_list f i =
     and_then (map_err_p (terminated (take_until Pair '';'') (tag Pair '';'')) PeSemicolon i) (\<lambda>(i, vals_input).
       if ns_fragment vals_input = [] then Ok (i, [])
       else
         and_then
           (delimited (ws (keyword_tag ''{'' PeListStart))
             (ws (terminated (separated_nonempty_list from_error_kind list_separator f) (opt list_separator)))
             (ws (keyword_tag ''}'' PeListEnd)) vals_input)
           (\<lambda>(_, result). Ok (i, result)))"

definition assigned :: "'a bind_parser \<Rightarrow> (string \<times> 'a) bind_parser" where
  "assigned literal = separated_pair (ws identifier_p) (ws (keyword_tag ''='' PeAssignment)) (ws literal)"

definition number_value_list :: "LibraryValue list bind_parser" where
  "number_value_list = value_list (map_p (assigned numeric_literal) (\<lambda>(ident, val). LvNumber ident val))"

definition string_value_list :: "LibraryValue list bind_parser" where
  "string_value_list = value_list (map_p (assigned string_literal) (\<lambda>(ident, val). LvStr ident val))"

definition bool_value_list :: "LibraryValue list bind_parser" where
  "bool_value_list = value_list (map_p (assigned bool_literal) (\<lambda>(ident, val). LvBool ident val))"

definition enum_value_list :: "LibraryValue list bind_parser" where
  "enum_value_list = value_list (map_p (ws identifier_p) LvEnum)"

fun value_parser :: "ValueType \<Rightarrow> LibraryValue list bind_parser" where
  "value_parser VtNumber = number_value_list"
| "value_parser VtStr = string_value_list"
| "value_parser VtBool = bool_value_list"
| "value_parser VtEnum = enum_value_list"

definition declaration_p :: "Declaration bind_parser" where
  "declaration_p i =
     and_then (opt keyword_extend i) (\<lambda>(i, extends).
     and_then (alt [keyword_uint, keyword_string, keyword_bool, keyword_enum] i) (\<lambda>(i, value_type).
     and_then (ws compound_identifier i) (\<lambda>(i, identifier).
     and_then (value_parser value_type i) (\<lambda>(i, vals).
       Ok (i, \<lparr>dc_identifier = identifier, dc_value_type = value_type, dc_extends = (extends \<noteq> None),
               dc_values = vals\<rparr>)))))"

definition library_name :: "CompoundIdentifier bind_parser" where
  "library_name =
     delimited (ws (keyword_tag ''library'' PeLibraryKeyword)) (ws compound_identifier) terminator"

definition library :: "LibraryAst bind_parser" where
  "library =
     map_p (pair (ws library_name) (pair (ws using_list) (many_until_eof (ws declaration_p))))
       (\<lambda>(name, includes, declarations).
          \<lparr>lib_name = name, lib_using = includes, lib_declarations = declarations\<rparr>)"

definition library_try_from :: "string \<Rightarrow> (LibraryAst, BindParserError) result" where
  "library_try_from input = parse_outcome (library (new_span input))"

section \<open>Composite rules\<close>

definition keyword_composite :: "NomSpan bind_parser" where
  "keyword_composite = ws (keyword_tag ''composite'' PeCompositeKeyword)"

definition keyword_node :: "NomSpan bind_parser" where
  "keyword_node = ws (keyword_tag ''node'' PeNodeKeyword)"

definition keyword_primary :: "NomSpan bind_parser" where
  "keyword_primary = ws (keyword_tag ''primary'' PePrimaryKeyword)"

definition composite_name :: "CompoundIdentifier bind_parser" where
  "composite_name = delimited keyword_composite (ws compound_identifier) terminator"

definition node_name :: "string bind_parser" where
  "node_name = map_err_p (map_p quoted ns_fragment) PeInvalidNodeName"

definition node_p :: "nat \<Rightarrow> (bool \<times> string \<times> Statement list) bind_parser" where
  "node_p fuel i =
     and_then (pair (opt keyword_primary) keyword_node i) (\<lambda>(i, keywords).
     and_then (ws node_name i) (\<lambda>(i, name).
     and_then (statement_block (statement fuel) i) (\<lambda>(i, statements).
       Ok (i, (fst keywords \<noteq> None, name, statements)))))"

fun sort_nodes ::
    "string \<Rightarrow> (bool \<times> string \<times> Statement list) list \<Rightarrow> string set \<Rightarrow> CompositeAstNode option
     \<Rightarrow> CompositeAstNode list \<Rightarrow> (CompositeAstNode \<times> CompositeAstNode list, BindParserError NomErr) result" where
  "sort_nodes input [] node_names primary_node other_nodes =
     (case primary_node of
        Some p \<Rightarrow> Ok (p, other_nodes)
      | None \<Rightarrow> Err (NomError (PeOnePrimaryNode input)))"
| "sort_nodes input ((is_primary, name, statements) # nodes) node_names primary_node other_nodes =
     (if name \<in> node_names then Err (NomError (PeDuplicateNodeName input))
      else
        let node = \<lparr>can_name = name, can_statements = statements\<rparr> in
        if is_primary then
          if primary_node \<noteq> None then Err (NomError (PeOnePrimaryNode input))
          else sort_nodes input nodes (insert name node_names) (Some node) other_nodes
        else sort_nodes input nodes (insert name node_names) primary_node (other_nodes @ [node]))"

definition composite_nodes :: "nat \<Rightarrow> (CompositeAstNode \<times> CompositeAstNode list) bind_parser" where
  "composite_nodes fuel i =
     and_then (many_until_eof (ws (node_p fuel)) i) (\<lambda>(i, nodes).
       if nodes = [] then fails (PeNoNodes (ns_fragment i))
       else and_then (sort_nodes (ns_fragment i) nodes {} None []) (\<lambda>r. Ok (i, r)))"

definition composite :: "CompositeAst bind_parser" where
  "composite i =
     map_p
       (pair (ws composite_name)
         (pair (ws using_list) (composite_nodes (Suc (length (ns_fragment i))))))
       (\<lambda>(name, includes, primary_node, nodes).
          \<lparr>cast_name = name, cast_using = includes, cast_primary_node = primary_node, cast_nodes = nodes\<rparr>) i"

definition composite_try_from :: "string \<Rightarrow> (CompositeAst, BindParserError) result" where
  "composite_try_from input = parse_outcome (composite (new_span input))"

end
