(* ===== verification/Bind_Instr.thy ===== *)
theory Bind_Instr
  imports Bind_Ast
begin

text \<open>
  The instructions of the bind compiler: \<open>compiler/instruction.rs\<close>, the symbolic
  instructions of \<open>compiler/compiler.rs\<close>, the debug locations attached to them
  (\<open>AstLocation\<close> of \<open>debugger/offline_debugger.rs\<close>) and the errors of the encoders.
\<close>

section \<open>Encoder errors (\<open>bytecode_encoder/error.rs\<close>)\<close>

datatype BindRulesEncodeError =
    EeInvalidStringLength string
  | EeUnsupportedSymbol
  | EeIntegerOutOfRange
  | EeMismatchValueTypes ValueType ValueType
  | EeIncorrectTypesInValueComparison
  | EeDuplicateLabel u32
  | EeMissingLabel u32
  | EeInvalidGotoLocation u32
  | EeJumpOffsetOutOfRange u32
  | EeMatchNotSupported
  | EeMissingCompositeDeviceName
  | EeMissingCompositeNodeName
  | EeDuplicateCompositeNodeName string

text \<open>\<open>encode_v1::encode_symbol\<close>: the old bytecode format only has numeric values.\<close>

definition try_from_u64 :: "u64 \<Rightarrow> u32 option" where
  "try_from_u64 n = (if unat n < 2 ^ 32 then Some (ucast n) else None)"

fun encode_symbol :: "Symbol \<Rightarrow> (u32, BindRulesEncodeError) result" where
  "encode_symbol (DeprecatedKey v) = Ok v"
| "encode_symbol (NumberValue n) =
     (case try_from_u64 n of Some v \<Rightarrow> Ok v | None \<Rightarrow> Err EeIntegerOutOfRange)"
| "encode_symbol _ = Err EeUnsupportedSymbol"

section \<open>Instructions (\<open>compiler/instruction.rs\<close>)\<close>

datatype InstCondition =
    Always
  | Equal Symbol Symbol
  | NotEqual Symbol Symbol

datatype Instruction =
    Abort InstCondition
  | Match InstCondition
  | Goto InstCondition u32
  | Label u32

datatype RawAstLocation =
    AlInvalid | AlConditionStatement | AlAcceptStatementValue | AlAcceptStatementFailure
  | AlIfCondition | AlFalseStatement

record InstructionDebug =
  dbg_line :: u32
  dbg_ast_location :: RawAstLocation
  dbg_extra :: u32

definition debug_none :: InstructionDebug where
  "debug_none = \<lparr>dbg_line = 0, dbg_ast_location = AlInvalid, dbg_extra = 0\<rparr>"

record InstructionInfo =
  ii_instruction :: Instruction
  ii_debug :: InstructionDebug

section \<open>Symbolic instructions (\<open>compiler/compiler.rs\<close>)\<close>

datatype AstLocation =
    LocConditionStatement Statement
  | LocAcceptStatementValue CompoundIdentifier Value Span
  | LocAcceptStatementFailure CompoundIdentifier Symbol Span
  | LocIfCondition Condition
  | LocFalseStatement Statement

definition result_unwrap_or :: "('a, 'e) result \<Rightarrow> 'a \<Rightarrow> 'a" where
  "result_unwrap_or r d = (case r of Ok x \<Rightarrow> x | _ \<Rightarrow> d)"

fun to_instruction_debug :: "AstLocation \<Rightarrow> InstructionDebug" where
  "to_instruction_debug (LocConditionStatement s) =
     \<lparr>dbg_line = sp_line (get_span s), dbg_ast_location = AlConditionStatement, dbg_extra = 0\<rparr>"
| "to_instruction_debug (LocAcceptStatementValue _ _ sp) =
     \<lparr>dbg_line = sp_line sp, dbg_ast_location = AlAcceptStatementValue, dbg_extra = 0\<rparr>"
| "to_instruction_debug (LocAcceptStatementFailure _ symb sp) =
     \<lparr>dbg_line = sp_line sp, dbg_ast_location = AlAcceptStatementFailure,
      dbg_extra = result_unwrap_or (encode_symbol symb) 0\<rparr>"
| "to_instruction_debug (LocIfCondition c) =
     \<lparr>dbg_line = sp_line (cond_span c), dbg_ast_location = AlIfCondition, dbg_extra = 0\<rparr>"
| "to_instruction_debug (LocFalseStatement s) =
     \<lparr>dbg_line = sp_line (get_span s), dbg_ast_location = AlFalseStatement, dbg_extra = 0\<rparr>"

datatype SymbolicInstruction =
    AbortIfEqual Symbol Symbol
  | AbortIfNotEqual Symbol Symbol
  | SymLabel u32
  | UnconditionalJump u32
  | JumpIfEqual Symbol Symbol u32
  | JumpIfNotEqual Symbol Symbol u32
  | UnconditionalAbort
  | UnconditionalBind

fun to_instruction :: "SymbolicInstruction \<Rightarrow> Instruction" where
  "to_instruction (AbortIfEqual lhs rhs) = Abort (Equal lhs rhs)"
| "to_instruction (AbortIfNotEqual lhs rhs) = Abort (NotEqual lhs rhs)"
| "to_instruction (SymLabel l) = Label l"
| "to_instruction (UnconditionalJump l) = Goto Always l"
| "to_instruction (JumpIfEqual lhs rhs l) = Goto (Equal lhs rhs) l"
| "to_instruction (JumpIfNotEqual lhs rhs l) = Goto (NotEqual lhs rhs) l"
| "to_instruction UnconditionalAbort = Abort Always"
| "to_instruction UnconditionalBind = Match Always"

record SymbolicInstructionInfo =
  si_location :: "AstLocation option"
  si_instruction :: SymbolicInstruction

definition to_instruction_info :: "SymbolicInstructionInfo \<Rightarrow> InstructionInfo" where
  "to_instruction_info s =
     \<lparr>ii_instruction = to_instruction (si_instruction s),
      ii_debug = (case si_location s of Some l \<Rightarrow> to_instruction_debug l | None \<Rightarrow> debug_none)\<rparr>"

text \<open>\<open>ddk_bind_constants.rs\<close>.\<close>

definition BIND_FLAGS :: u32 where "BIND_FLAGS = 0"
definition BIND_PROTOCOL :: u32 where "BIND_PROTOCOL = 1"
definition BIND_AUTOBIND :: u32 where "BIND_AUTOBIND = 2"

definition disable_autobind_inst :: SymbolicInstructionInfo where
  "disable_autobind_inst =
     \<lparr>si_location = None,
      si_instruction = AbortIfNotEqual (DeprecatedKey BIND_AUTOBIND) (NumberValue 0)\<rparr>"

lemma ii_instruction_to_info [simp]:
  "ii_instruction (to_instruction_info s) = to_instruction (si_instruction s)"
  by (simp add: to_instruction_info_def)

lemma to_instruction_inject [simp]: "to_instruction a = to_instruction b \<longleftrightarrow> a = b"
  by (cases a; cases b) auto

section \<open>Compiled rules\<close>

record BindRules =
  br_symbol_table :: SymbolTable
  br_instructions :: "SymbolicInstructionInfo list"
  br_use_new_bytecode :: bool

record CompositeNode =
  cn_name :: string
  cn_instructions :: "SymbolicInstructionInfo list"

record CompositeBindRules =
  cbr_device_name :: string
  cbr_symbol_table :: SymbolTable
  cbr_primary_node :: CompositeNode
  cbr_additional_nodes :: "CompositeNode list"

datatype CompiledBindRules =
    Bind BindRules
  | CompositeBind CompositeBindRules

end
