(* ===== verification/Bind_Compiler.thy ===== *)
theory Bind_Compiler
  imports Bind_Instr
begin

text \<open>
  The code generator of \<open>compiler/compiler.rs\<close>: \<open>struct Compiler\<close> and its methods, from
  the statements of a bind rule to symbolic instructions.
\<close>

section \<open>Errors\<close>

datatype 'k DependencyError =
    MissingDependency 'k
  | CircularDependency

datatype LinterError = LibraryNameMustNotContainUnderscores CompoundIdentifier

datatype CompilerError =
    CeBindParserError BindParserError
  | CeDependencyError "CompoundIdentifier DependencyError"
  | CeLinterError LinterError
  | CeDuplicateIdentifier CompoundIdentifier
  | CeTypeMismatch CompoundIdentifier
  | CeUnresolvedQualification CompoundIdentifier
  | CeUndeclaredKey CompoundIdentifier
  | CeMissingExtendsKeyword CompoundIdentifier
  | CeInvalidExtendsKeyword CompoundIdentifier
  | CeUnknownKey CompoundIdentifier
  | CeIfStatementMustBeTerminal
  | CeTrueStatementMustBeIsolated
  | CeFalseStatementMustBeIsolated

section \<open>The compiler\<close>

record Compiler =
  instructions :: "SymbolicInstructionInfo list"
  next_label_id :: u32

definition new_compiler :: Compiler where
  "new_compiler = \<lparr>instructions = [], next_label_id = 0\<rparr>"

definition push_inst :: "AstLocation option \<Rightarrow> SymbolicInstruction \<Rightarrow> Compiler \<Rightarrow> Compiler" where
  "push_inst loc i c =
     c\<lparr>instructions := instructions c @ [\<lparr>si_location = loc, si_instruction = i\<rparr>]\<rparr>"

definition lookup_identifier ::
    "SymbolTable \<Rightarrow> CompoundIdentifier \<Rightarrow> (Symbol, CompilerError) result" where
  "lookup_identifier st i = ok_or (st i) (CeUnknownKey i)"

fun lookup_value :: "SymbolTable \<Rightarrow> Value \<Rightarrow> (Symbol, CompilerError) result" where
  "lookup_value st (NumericLiteral n) = Ok (NumberValue n)"
| "lookup_value st (StringLiteral s) = Ok (StringValue s)"
| "lookup_value st (BoolLiteral b) = Ok (BoolValue b)"
| "lookup_value st (Identifier i) = ok_or (st i) (CeUnknownKey i)"

definition get_unique_label :: "Compiler \<Rightarrow> (u32 \<times> Compiler, CompilerError) result" where
  "get_unique_label c =
     and_then (checked_inc (next_label_id c)) (\<lambda>n. Ok (next_label_id c, c\<lparr>next_label_id := n\<rparr>))"

fun compile_accept_values ::
    "SymbolTable \<Rightarrow> CompoundIdentifier \<Rightarrow> Span \<Rightarrow> Symbol \<Rightarrow> u32 \<Rightarrow> Value list \<Rightarrow> Compiler
     \<Rightarrow> (Compiler, CompilerError) result" where
  "compile_accept_values st ident sp lhs label [] c = Ok c"
| "compile_accept_values st ident sp lhs label (v # vs) c =
     and_then (lookup_value st v) (\<lambda>rhs.
       compile_accept_values st ident sp lhs label vs
         (push_inst (Some (LocAcceptStatementValue ident v sp)) (JumpIfEqual lhs rhs label) c))"

text \<open>
  \<open>Compiler::compile_block\<close>. The loop over the statements keeps the number of statements of
  the whole block (\<open>num_statements\<close>); \<open>iter.peek().is_none()\<close> is that no statement is left.
  The blocks of an \<open>if\<close> statement recurse.
\<close>

fun compile_block_loop ::
    "SymbolTable \<Rightarrow> nat \<Rightarrow> Statement list \<Rightarrow> Compiler \<Rightarrow> (Compiler, CompilerError) result"
and compile_if_blocks ::
    "SymbolTable \<Rightarrow> u32 \<Rightarrow> (Condition \<times> Statement list) list \<Rightarrow> Compiler
     \<Rightarrow> (Compiler, CompilerError) result" where
  "compile_block_loop st num_statements [] c = Ok c"
| "compile_block_loop st num_statements (s # rest) c =
     and_then
       (case s of
          ConditionStatement sp condition \<Rightarrow>
            and_then (lookup_identifier st (cond_lhs condition)) (\<lambda>lhs_symbol.
            and_then (lookup_value st (cond_rhs condition)) (\<lambda>rhs_symbol.
              Ok (push_inst (Some (LocConditionStatement s))
                   (case cond_op condition of
                      Equals \<Rightarrow> AbortIfNotEqual lhs_symbol rhs_symbol
                    | NotEquals \<Rightarrow> AbortIfEqual lhs_symbol rhs_symbol) c)))
        | Accept sp ident vs \<Rightarrow>
            and_then (lookup_identifier st ident) (\<lambda>lhs_symbol.
            and_then (get_unique_label c) (\<lambda>(label_id, c).
            and_then (compile_accept_values st ident sp lhs_symbol label_id vs c) (\<lambda>c.
              Ok (push_inst None (SymLabel label_id)
                   (push_inst (Some (LocAcceptStatementFailure ident lhs_symbol sp))
                      UnconditionalAbort c)))))
        | IfStatement sp blocks else_block \<Rightarrow>
            if rest \<noteq> [] then Err CeIfStatementMustBeTerminal
            else
              and_then (get_unique_label c) (\<lambda>(final_label_id, c).
              and_then (compile_if_blocks st final_label_id blocks c) (\<lambda>c.
              and_then (compile_block_loop st (length else_block) else_block c) (\<lambda>c.
                Ok (push_inst None (SymLabel final_label_id) c))))
        | FalseStatement sp \<Rightarrow>
            if num_statements \<noteq> 1 then Err CeFalseStatementMustBeIsolated
            else Ok (push_inst (Some (LocFalseStatement s)) UnconditionalAbort c)
        | TrueStatement sp \<Rightarrow>
            if num_statements \<noteq> 1 then Err CeTrueStatementMustBeIsolated else Ok c)
       (compile_block_loop st num_statements rest)"
| "compile_if_blocks st final_label_id [] c = Ok c"
| "compile_if_blocks st final_label_id ((condition, block_statements) # blocks) c =
     and_then (lookup_identifier st (cond_lhs condition)) (\<lambda>lhs_symbol.
     and_then (lookup_value st (cond_rhs condition)) (\<lambda>rhs_symbol.
     and_then (get_unique_label c) (\<lambda>(label_id, c).
     and_then
       (compile_block_loop st (length block_statements) block_statements
         (push_inst (Some (LocIfCondition condition))
           (case cond_op condition of
              Equals \<Rightarrow> JumpIfNotEqual lhs_symbol rhs_symbol label_id
            | NotEquals \<Rightarrow> JumpIfEqual lhs_symbol rhs_symbol label_id) c)) (\<lambda>c.
       compile_if_blocks st final_label_id blocks
         (push_inst None (SymLabel label_id)
           (push_inst None (UnconditionalJump final_label_id) c))))))"

definition compile_block ::
    "SymbolTable \<Rightarrow> Statement list \<Rightarrow> Compiler \<Rightarrow> (Compiler, CompilerError) result" where
  "compile_block st statements c = compile_block_loop st (length statements) statements c"

text \<open>\<open>Compiler::compile_statements\<close> and the free function of the same name.\<close>

definition compile_statements_in ::
    "SymbolTable \<Rightarrow> Statement list \<Rightarrow> bool \<Rightarrow> Compiler \<Rightarrow> (Compiler, CompilerError) result" where
  "compile_statements_in st statements use_new_bytecode c =
     and_then (compile_block st statements c) (\<lambda>c.
       Ok (if \<not> use_new_bytecode then push_inst None UnconditionalBind c else c))"

definition compile_statements ::
    "Statement list \<Rightarrow> SymbolTable \<Rightarrow> bool \<Rightarrow> (SymbolicInstructionInfo list, CompilerError) result" where
  "compile_statements statements st use_new_bytecode =
     and_then (compile_statements_in st statements use_new_bytecode new_compiler)
       (\<lambda>c. Ok (instructions c))"


section \<open>The meaning of bind rules\<close>

text \<open>
  The reference semantics of the bind language, by recursion on the syntax tree and without
  labels, jumps or bytes. It is a function of \<open>eq\<close>, the outcome of comparing a key of the
  device with a value, so that one definition serves the bytecode interpreter and the two
  debuggers, which compare differently.
\<close>

type_synonym 'e comparison = "Symbol \<Rightarrow> Symbol \<Rightarrow> (bool, 'e) result"

definition value_symbol :: "SymbolTable \<Rightarrow> Value \<Rightarrow> Symbol option" where
  "value_symbol st v = (case lookup_value st v of Ok s \<Rightarrow> Some s | _ \<Rightarrow> None)"

definition sem_equal ::
    "'e comparison \<Rightarrow> SymbolTable \<Rightarrow> CompoundIdentifier \<Rightarrow> Value \<Rightarrow> (bool, 'e) result" where
  "sem_equal eq st i v =
     (case (st i, value_symbol st v) of (Some l, Some r) \<Rightarrow> eq l r | _ \<Rightarrow> Ok False)"

definition sem_condition :: "'e comparison \<Rightarrow> SymbolTable \<Rightarrow> Condition \<Rightarrow> (bool, 'e) result" where
  "sem_condition eq st c =
     and_then (sem_equal eq st (cond_lhs c) (cond_rhs c))
       (\<lambda>b. Ok (case cond_op c of Equals \<Rightarrow> b | NotEquals \<Rightarrow> \<not> b))"

fun sem_accept ::
    "'e comparison \<Rightarrow> SymbolTable \<Rightarrow> CompoundIdentifier \<Rightarrow> Value list \<Rightarrow> (bool, 'e) result" where
  "sem_accept eq st i [] = Ok False"
| "sem_accept eq st i (v # vs) =
     and_then (sem_equal eq st i v) (\<lambda>b. if b then Ok True else sem_accept eq st i vs)"

definition and_also :: "(bool, 'e) result \<Rightarrow> (bool, 'e) result \<Rightarrow> (bool, 'e) result" where
  "and_also r s = and_then r (\<lambda>b. if b then s else Ok False)"

fun sem_block :: "'e comparison \<Rightarrow> SymbolTable \<Rightarrow> Statement list \<Rightarrow> (bool, 'e) result"
and sem_statement :: "'e comparison \<Rightarrow> SymbolTable \<Rightarrow> Statement \<Rightarrow> (bool, 'e) result"
and sem_if ::
    "'e comparison \<Rightarrow> SymbolTable \<Rightarrow> (Condition \<times> Statement list) list \<Rightarrow> (bool, 'e) result
     \<Rightarrow> (bool, 'e) result" where
  "sem_block eq st [] = Ok True"
| "sem_block eq st (s # rest) = and_also (sem_statement eq st s) (sem_block eq st rest)"
| "sem_statement eq st (ConditionStatement sp c) = sem_condition eq st c"
| "sem_statement eq st (Accept sp i vs) = sem_accept eq st i vs"
| "sem_statement eq st (IfStatement sp blocks els) = sem_if eq st blocks (sem_block eq st els)"
| "sem_statement eq st (FalseStatement sp) = Ok False"
| "sem_statement eq st (TrueStatement sp) = Ok True"
| "sem_if eq st [] otherwise = otherwise"
| "sem_if eq st ((c, b) # blocks) otherwise =
     and_then (sem_condition eq st c)
       (\<lambda>v. if v then sem_block eq st b else sem_if eq st blocks otherwise)"

lemma and_also_simps [simp]:
  "and_also (Ok True) s = s"
  "and_also (Ok False) s = Ok False"
  "and_also (Err e) s = Err e"
  "and_also Panic s = Panic"
  by (simp_all add: and_also_def)

lemma and_also_assoc: "and_also (and_also r s) t = and_also r (and_also s t)"
  by (cases r) (auto simp: and_also_def)

lemma and_also_Ok_True [simp]: "and_also r (Ok True) = r"
  by (cases r) (auto simp: and_also_def)

section \<open>The symbolic machine\<close>

text \<open>
  The machine that symbolic instructions run on: jumps go forward to the next instruction
  \<open>SymLabel l\<close>, and falling off the end binds. \<open>Panic\<close> is a jump to a missing label.
\<close>

fun skip_to :: "u32 \<Rightarrow> SymbolicInstruction list \<Rightarrow> SymbolicInstruction list option" where
  "skip_to l [] = None"
| "skip_to l (i # is) = (if i = SymLabel l then Some is else skip_to l is)"

lemma length_skip_to [termination_simp]: "skip_to l is = Some js \<Longrightarrow> length js < length is"
  by (induction "is") (auto split: if_splits)

fun run_symbolic :: "'e comparison \<Rightarrow> SymbolicInstruction list \<Rightarrow> (bool, 'e) result" where
  "run_symbolic eq [] = Ok True"
| "run_symbolic eq (AbortIfEqual l r # is) =
     and_then (eq l r) (\<lambda>b. if b then Ok False else run_symbolic eq is)"
| "run_symbolic eq (AbortIfNotEqual l r # is) =
     and_then (eq l r) (\<lambda>b. if b then run_symbolic eq is else Ok False)"
| "run_symbolic eq (SymLabel _ # is) = run_symbolic eq is"
| "run_symbolic eq (UnconditionalJump l # is) =
     (case skip_to l is of None \<Rightarrow> Panic | Some js \<Rightarrow> run_symbolic eq js)"
| "run_symbolic eq (JumpIfEqual lhs rhs l # is) =
     and_then (eq lhs rhs) (\<lambda>b.
       if b then (case skip_to l is of None \<Rightarrow> Panic | Some js \<Rightarrow> run_symbolic eq js)
       else run_symbolic eq is)"
| "run_symbolic eq (JumpIfNotEqual lhs rhs l # is) =
     and_then (eq lhs rhs) (\<lambda>b.
       if b then run_symbolic eq is
       else (case skip_to l is of None \<Rightarrow> Panic | Some js \<Rightarrow> run_symbolic eq js))"
| "run_symbolic eq (UnconditionalAbort # is) = Ok False"
| "run_symbolic eq (UnconditionalBind # is) = Ok True"

fun labels_of :: "SymbolicInstruction list \<Rightarrow> u32 list" where
  "labels_of [] = []"
| "labels_of (SymLabel l # is) = l # labels_of is"
| "labels_of (_ # is) = labels_of is"

lemma labels_of_append [simp]: "labels_of (xs @ ys) = labels_of xs @ labels_of ys"
  by (induction xs rule: labels_of.induct) auto

lemma skip_to_append:
  "l \<notin> set (labels_of xs) \<Longrightarrow> skip_to l (xs @ ys) = skip_to l ys"
  by (induction xs rule: labels_of.induct) auto

end
