(* ===== verification/Compiler_Sim.thy ===== *)
theory Compiler_Sim
  imports Bind_Compiler
begin

text \<open>
  Correctness of the code generator: what \<open>compile_block\<close> emits has fresh, pairwise
  distinct labels, only jumps forward to labels it emits itself, carries the debug locations
  the debuggers expect, and runs like the reference semantics of the statements.
\<close>

section \<open>Emitted code\<close>

abbreviation sym_code :: "SymbolicInstructionInfo list \<Rightarrow> SymbolicInstruction list" where
  "sym_code code \<equiv> map si_instruction code"

fun jumps_forward :: "SymbolicInstruction list \<Rightarrow> bool" where
  "jumps_forward [] = True"
| "jumps_forward (UnconditionalJump l # is) = (l \<in> set (labels_of is) \<and> jumps_forward is)"
| "jumps_forward (JumpIfEqual _ _ l # is) = (l \<in> set (labels_of is) \<and> jumps_forward is)"
| "jumps_forward (JumpIfNotEqual _ _ l # is) = (l \<in> set (labels_of is) \<and> jumps_forward is)"
| "jumps_forward (_ # is) = jumps_forward is"

text \<open>The instructions of a block, and the location each kind carries.\<close>

fun well_located :: "SymbolicInstructionInfo \<Rightarrow> bool" where
  "well_located i =
     (case si_instruction i of
        AbortIfEqual _ _ \<Rightarrow>
          (\<exists>sp c. si_location i = Some (LocConditionStatement (ConditionStatement sp c)))
      | AbortIfNotEqual _ _ \<Rightarrow>
          (\<exists>sp c. si_location i = Some (LocConditionStatement (ConditionStatement sp c)))
      | JumpIfEqual _ _ _ \<Rightarrow>
          (\<exists>x v sp. si_location i = Some (LocAcceptStatementValue x v sp))
          \<or> (\<exists>c. si_location i = Some (LocIfCondition c))
      | JumpIfNotEqual _ _ _ \<Rightarrow> (\<exists>c. si_location i = Some (LocIfCondition c))
      | UnconditionalAbort \<Rightarrow>
          (\<exists>sp. si_location i = Some (LocFalseStatement (FalseStatement sp)))
          \<or> (\<exists>x s sp. si_location i = Some (LocAcceptStatementFailure x s sp))
      | UnconditionalBind \<Rightarrow> False
      | _ \<Rightarrow> si_location i = None)"

definition emits :: "Compiler \<Rightarrow> Compiler \<Rightarrow> SymbolicInstructionInfo list \<Rightarrow> bool" where
  "emits c c' code \<longleftrightarrow>
     instructions c' = instructions c @ code \<and> next_label_id c \<le> next_label_id c'
     \<and> (\<forall>l \<in> set (labels_of (sym_code code)). next_label_id c \<le> l \<and> l < next_label_id c')
     \<and> distinct (labels_of (sym_code code)) \<and> list_all well_located code"

text \<open>Code that closes its own jumps, and code that may also jump to \<open>ls\<close> behind it.\<close>

definition closed_upto :: "u32 set \<Rightarrow> SymbolicInstructionInfo list \<Rightarrow> bool" where
  "closed_upto ls code \<longleftrightarrow>
     (\<forall>tail. jumps_forward tail \<longrightarrow> ls \<subseteq> set (labels_of tail) \<longrightarrow> jumps_forward (sym_code code @ tail))"

definition block_sim :: "'e comparison \<Rightarrow> (bool, 'e) result \<Rightarrow> SymbolicInstructionInfo list \<Rightarrow> bool" where
  "block_sim eq r code \<longleftrightarrow>
     (\<forall>tail. run_symbolic eq (sym_code code @ tail) = and_also r (run_symbolic eq tail))"

definition if_sim ::
    "'e comparison \<Rightarrow> SymbolTable \<Rightarrow> u32 \<Rightarrow> (Condition \<times> Statement list) list
     \<Rightarrow> SymbolicInstructionInfo list \<Rightarrow> bool" where
  "if_sim eq st fl bs code \<longleftrightarrow>
     (\<forall>tail els rest. skip_to fl tail = Some rest \<longrightarrow>
        run_symbolic eq tail = and_also els (run_symbolic eq rest) \<longrightarrow>
        run_symbolic eq (sym_code code @ tail) = and_also (sem_if eq st bs els) (run_symbolic eq rest))"

lemma word_less_inc: "(x :: u32) \<noteq> - 1 \<Longrightarrow> x < x + 1"
  using unat_checked_inc [of x "x + 1"] by (simp add: result_simps word_less_nat_alt)

lemma emits_refl [simp]: "emits c c []"
  by (simp add: emits_def)

lemma emits_trans:
  "emits c c1 code1 \<Longrightarrow> emits c1 c2 code2 \<Longrightarrow> emits c c2 (code1 @ code2)"
  unfolding emits_def by (fastforce dest: order_trans less_le_trans)

lemma emits_push:
  "labels_of [i] = [] \<Longrightarrow> well_located \<lparr>si_location = loc, si_instruction = i\<rparr> \<Longrightarrow>
   emits c (push_inst loc i c) [\<lparr>si_location = loc, si_instruction = i\<rparr>]"
  by (simp add: emits_def push_inst_def)

text \<open>A label drawn before some code and placed behind it.\<close>

lemma emits_label:
  assumes "get_unique_label c = Ok (l, c1)" and "emits c1 c2 code"
  shows "emits c (push_inst None (SymLabel l) c2)
           (code @ [\<lparr>si_location = None, si_instruction = SymLabel l\<rparr>])"
  using assms word_less_inc [of "next_label_id c"]
  by (fastforce simp: emits_def push_inst_def get_unique_label_def result_simps
      dest: order_trans less_le_trans)

lemma get_unique_label_next:
  "get_unique_label c = Ok (l, c1) \<Longrightarrow> l = next_label_id c \<and> l < next_label_id c1"
  using word_less_inc [of "next_label_id c"] by (auto simp: get_unique_label_def result_simps)

lemma labels_fresh:
  "emits c c' code \<Longrightarrow> l < next_label_id c \<Longrightarrow> l \<notin> set (labels_of (sym_code code))"
  unfolding emits_def by (meson leD)

lemma closed_upto_append:
  "closed_upto ls code1 \<Longrightarrow> closed_upto {} code2 \<Longrightarrow> ls \<subseteq> set (labels_of (sym_code code2)) \<Longrightarrow>
   closed_upto {} (code1 @ code2)"
  by (fastforce simp: closed_upto_def)

lemma closed_upto_Nil [simp]: "closed_upto ls []"
  by (simp add: closed_upto_def)

section \<open>Simulation\<close>

lemma accept_values_sim:
  assumes "compile_accept_values st x sp lhs l vs c = Ok c'" and "st x = Some lhs"
  shows "\<exists>code. emits c c' code \<and> labels_of (sym_code code) = [] \<and> closed_upto {l} code
    \<and> next_label_id c' = next_label_id c
    \<and> (\<forall>tail rest. skip_to l tail = Some rest \<longrightarrow>
        run_symbolic eq (sym_code code @ tail)
        = and_then (sem_accept eq st x vs)
            (\<lambda>b. if b then run_symbolic eq rest else run_symbolic eq tail))"
  using assms(1)
proof (induction vs arbitrary: c)
  case Nil
  then show ?case by (intro exI [of _ "[]"]) auto
next
  case (Cons v vs)
  from Cons.prems obtain rhs where rhs: "lookup_value st v = Ok rhs"
    and rest: "compile_accept_values st x sp lhs l vs
        (push_inst (Some (LocAcceptStatementValue x v sp)) (JumpIfEqual lhs rhs l) c) = Ok c'"
    by (auto simp: result_simps)
  let ?i = "\<lparr>si_location = Some (LocAcceptStatementValue x v sp),
             si_instruction = JumpIfEqual lhs rhs l\<rparr>"
  from Cons.IH [OF rest] obtain code where code: "emits (push_inst (si_location ?i) (si_instruction ?i) c) c' code"
      "labels_of (sym_code code) = []" "closed_upto {l} code" "next_label_id c' = next_label_id c"
    and run: "\<And>tail rest. skip_to l tail = Some rest \<Longrightarrow>
        run_symbolic eq (sym_code code @ tail)
        = and_then (sem_accept eq st x vs)
            (\<lambda>b. if b then run_symbolic eq rest else run_symbolic eq tail)"
    by (auto simp: push_inst_def)
  have "emits c c' (?i # code)"
    using emits_trans [OF emits_push code(1)] by simp
  moreover have "sem_equal eq st x v = eq lhs rhs"
    using rhs assms(2) by (simp add: sem_equal_def value_symbol_def)
  ultimately show ?case
    using code run
    by (intro exI [of _ "?i # code"])
       (auto simp: skip_to_append closed_upto_def and_then_assoc intro!: and_then_cong)
qed

text \<open>
  The relation every statement establishes: from state \<open>c\<close> the generator reaches \<open>c'\<close> by
  appending \<open>code\<close>, which behaves like the outcome \<open>r\<close>.
\<close>

definition compiles_to ::
    "'e comparison \<Rightarrow> Compiler \<Rightarrow> Compiler \<Rightarrow> SymbolicInstructionInfo list \<Rightarrow> (bool, 'e) result \<Rightarrow> bool" where
  "compiles_to eq c c' code r \<longleftrightarrow> emits c c' code \<and> closed_upto {} code \<and> block_sim eq r code"

lemma next_push_inst [simp]: "next_label_id (push_inst loc i c) = next_label_id c"
  by (simp add: push_inst_def)

lemma emits_next: "emits c c' code \<Longrightarrow> next_label_id c \<le> next_label_id c'"
  by (simp add: emits_def)

lemma compiles_to_Nil: "compiles_to eq c c [] (Ok True)"
  by (simp add: compiles_to_def block_sim_def)

lemma compiles_to_seq:
  "compiles_to eq c c1 code1 r1 \<Longrightarrow> compiles_to eq c1 c2 code2 r2 \<Longrightarrow>
   compiles_to eq c c2 (code1 @ code2) (and_also r1 r2)"
  by (auto simp: compiles_to_def block_sim_def and_also_assoc intro: emits_trans closed_upto_append)

lemma compiles_to_abort:
  assumes "well_located \<lparr>si_location = loc, si_instruction = UnconditionalAbort\<rparr>"
  shows "compiles_to eq c (push_inst loc UnconditionalAbort c)
    [\<lparr>si_location = loc, si_instruction = UnconditionalAbort\<rparr>] (Ok False)"
  using assms emits_push [of UnconditionalAbort loc c]
  by (simp add: compiles_to_def block_sim_def closed_upto_def)

lemma sem_condition_symbols:
  "lookup_identifier st (cond_lhs c) = Ok l \<Longrightarrow> lookup_value st (cond_rhs c) = Ok r \<Longrightarrow>
   sem_condition eq st c
   = and_then (eq l r) (\<lambda>b. Ok (case cond_op c of Equals \<Rightarrow> b | NotEquals \<Rightarrow> \<not> b))"
  by (simp add: sem_condition_def sem_equal_def value_symbol_def lookup_identifier_def result_simps)

lemma compiles_to_condition:
  assumes "lookup_identifier st (cond_lhs cond) = Ok l" and "lookup_value st (cond_rhs cond) = Ok r"
    and "i = (case cond_op cond of Equals \<Rightarrow> AbortIfNotEqual l r | NotEquals \<Rightarrow> AbortIfEqual l r)"
  shows "compiles_to eq c (push_inst (Some (LocConditionStatement (ConditionStatement sp cond))) i c)
    [\<lparr>si_location = Some (LocConditionStatement (ConditionStatement sp cond)), si_instruction = i\<rparr>]
    (sem_condition eq st cond)"
  using assms(3) emits_push [of i]
  by (cases "cond_op cond"; cases "eq l r")
     (simp_all add: compiles_to_def block_sim_def closed_upto_def sem_condition_symbols [OF assms(1,2)])

lemma compiles_to_accept:
  assumes "lookup_identifier st x = Ok l" and "get_unique_label c = Ok (label_id, c1)"
    and "compile_accept_values st x sp l label_id vs c1 = Ok c2"
  shows "\<exists>code. compiles_to eq c
      (push_inst None (SymLabel label_id)
         (push_inst (Some (LocAcceptStatementFailure x l sp)) UnconditionalAbort c2))
      code (sem_accept eq st x vs)"
proof -
  have "st x = Some l"
    using assms(1) by (simp add: lookup_identifier_def result_simps)
  from accept_values_sim [OF assms(3) this, of eq] obtain code where
    code: "emits c1 c2 code" "labels_of (sym_code code) = []" "closed_upto {label_id} code"
    and run: "\<And>tail rest. skip_to label_id tail = Some rest \<Longrightarrow>
      run_symbolic eq (sym_code code @ tail)
      = and_then (sem_accept eq st x vs)
          (\<lambda>b. if b then run_symbolic eq rest else run_symbolic eq tail)"
    by blast
  let ?abort = "\<lparr>si_location = Some (LocAcceptStatementFailure x l sp),
                 si_instruction = UnconditionalAbort\<rparr>"
  have "emits c1 (push_inst (si_location ?abort) (si_instruction ?abort) c2) (code @ [?abort])"
    by (rule emits_trans [OF code(1)]) (simp add: emits_push)
  from emits_label [OF assms(2) this]
  show ?thesis
    using code run
    by (intro exI [of _ "code @ [?abort, \<lparr>si_location = None, si_instruction = SymLabel label_id\<rparr>]"])
       (auto simp: compiles_to_def closed_upto_def block_sim_def and_also_def if_distrib
          intro!: and_then_cong)
qed

lemma compiles_to_if:
  assumes "get_unique_label c = Ok (fl, c1)"
    and "emits c1 c2 code1" and "closed_upto {fl} code1" and "if_sim eq st fl blocks code1"
    and "compiles_to eq c2 c3 code2 r"
  shows "compiles_to eq c (push_inst None (SymLabel fl) c3)
     ((code1 @ code2) @ [\<lparr>si_location = None, si_instruction = SymLabel fl\<rparr>]) (sem_if eq st blocks r)"
proof -
  have e: "emits c2 c3 code2" "closed_upto {} code2" "block_sim eq r code2"
    using assms(5) by (auto simp: compiles_to_def)
  have "fl < next_label_id c2"
    using get_unique_label_next [OF assms(1)] assms(2) by (auto simp: emits_def)
  then have "fl \<notin> set (labels_of (sym_code code2))"
    by (rule labels_fresh [OF e(1)])
  then show ?thesis
    using emits_label [OF assms(1) emits_trans [OF assms(2) e(1)]] assms(3,4) e(2,3)
    by (auto simp: compiles_to_def closed_upto_def block_sim_def if_sim_def skip_to_append)
qed

lemma if_sim_Cons:
  assumes "lookup_identifier st (cond_lhs cond) = Ok l" and "lookup_value st (cond_rhs cond) = Ok r"
    and "get_unique_label c = Ok (label_id, c1)" and "fl < next_label_id c"
    and i: "i = (case cond_op cond of Equals \<Rightarrow> JumpIfNotEqual l r label_id | NotEquals \<Rightarrow> JumpIfEqual l r label_id)"
    and "compiles_to eq (push_inst (Some (LocIfCondition cond)) i c1) c2 code1 (sem_block eq st b)"
    and "emits (push_inst None (SymLabel label_id) (push_inst None (UnconditionalJump fl) c2)) c3 code2"
    and "closed_upto {fl} code2" and "if_sim eq st fl blocks code2"
  shows "\<exists>code. emits c c3 code \<and> closed_upto {fl} code \<and> if_sim eq st fl ((cond, b) # blocks) code"
proof -
  let ?i = "\<lparr>si_location = Some (LocIfCondition cond), si_instruction = i\<rparr>"
  let ?j = "\<lparr>si_location = None, si_instruction = UnconditionalJump fl\<rparr>"
  let ?l = "\<lparr>si_location = None, si_instruction = SymLabel label_id\<rparr>"
  have e1: "emits (push_inst (Some (LocIfCondition cond)) i c1) c2 code1" "closed_upto {} code1"
      "block_sim eq (sem_block eq st b) code1"
    using assms(6) by (auto simp: compiles_to_def)
  have "labels_of [i] = []"
    using i by (simp split: ConditionOp.splits)
  moreover have "well_located ?i"
    using i by (simp split: ConditionOp.splits)
  ultimately have "emits c1 c2 ([?i] @ code1)"
    using emits_trans [OF emits_push e1(1)] by simp
  then have e12: "emits c1 (push_inst None (UnconditionalJump fl) c2) (([?i] @ code1) @ [?j])"
    by (rule emits_trans) (simp add: emits_push)
  have lab: "label_id < next_label_id c1" "fl < label_id" "fl < next_label_id c1"
    using get_unique_label_next [OF assms(3)] assms(4) by auto
  have fresh: "label_id \<notin> set (labels_of (sym_code code1))" "fl \<notin> set (labels_of (sym_code code1))"
    using labels_fresh [OF e1(1)] lab by (auto simp: push_inst_def)
  have "fl < next_label_id c2"
    using emits_next [OF e12] lab(3) by simp
  then have "fl \<notin> set (labels_of (sym_code code2))"
    by (intro labels_fresh [OF assms(7)]) simp
  with fresh lab have run: "if_sim eq st fl ((cond, b) # blocks) ((([?i] @ code1) @ [?j]) @ [?l] @ code2)"
    using e1(3) assms(9) i unfolding if_sim_def block_sim_def
    by (cases "cond_op cond"; cases "eq l r")
       (auto simp: skip_to_append sem_condition_symbols [OF assms(1,2)])
  show ?thesis
    using emits_trans [OF emits_label [OF assms(3) e12] assms(7)] run e1(2) assms(8) i
    by (intro exI [of _ "(([?i] @ code1) @ [?j]) @ [?l] @ code2"])
       (auto simp: closed_upto_def split: ConditionOp.splits)
qed

lemma compile_sim:
  shows "compile_block_loop st n ss c = Ok c' \<Longrightarrow> \<exists>code. compiles_to eq c c' code (sem_block eq st ss)"
    and "compile_if_blocks st fl bs c = Ok c' \<Longrightarrow> fl < next_label_id c \<Longrightarrow>
     \<exists>code. emits c c' code \<and> closed_upto {fl} code \<and> if_sim eq st fl bs code"
proof (induction st n ss c and st fl bs c arbitrary: c' and c'
       rule: compile_block_loop_compile_if_blocks.induct)
  case (1 st n c)
  then show ?case by (auto intro: compiles_to_Nil)
next
  case (2 st n s rest c)
  have "\<exists>c1 code. compiles_to eq c c1 code (sem_statement eq st s) \<and>
      (\<exists>code'. compiles_to eq c1 c' code' (sem_block eq st rest))"
  proof (cases s)
    case (ConditionStatement sp cond)
    with "2.prems" obtain l r where
      ok: "lookup_identifier st (cond_lhs cond) = Ok l" "lookup_value st (cond_rhs cond) = Ok r"
      by (auto simp: result_simps)
    with 2 ConditionStatement compiles_to_condition [OF ok refl] show ?thesis
      by fastforce
  next
    case (Accept sp x vs)
    with "2.prems" obtain l label_id c1 c2 where
      ok: "lookup_identifier st x = Ok l" "get_unique_label c = Ok (label_id, c1)"
        "compile_accept_values st x sp l label_id vs c1 = Ok c2"
      by (auto simp: result_simps)
    with 2 Accept compiles_to_accept [OF ok, of eq] show ?thesis
      by fastforce
  next
    case (IfStatement sp blocks els)
    with "2.prems" obtain fl c1 c2 c3 where
      ok: "rest = []" "get_unique_label c = Ok (fl, c1)" "compile_if_blocks st fl blocks c1 = Ok c2"
        "compile_block_loop st (length els) els c2 = Ok c3" "c' = push_inst None (SymLabel fl) c3"
      by (auto simp: result_simps split: if_splits)
    have "fl < next_label_id c1"
      using get_unique_label_next [OF ok(2)] by auto
    with "2.IH"(1) [OF IfStatement _ ok(2) refl ok(3)] ok(1) obtain code1 where
      code1: "emits c1 c2 code1" "closed_upto {fl} code1" "if_sim eq st fl blocks code1"
      by auto
    from "2.IH"(2) [OF IfStatement _ ok(2) refl ok(3,4)] ok(1) obtain code2 where
      "compiles_to eq c2 c3 code2 (sem_block eq st els)"
      by auto
    from compiles_to_if [OF ok(2) code1 this] show ?thesis
      using ok(1,5) IfStatement compiles_to_Nil by fastforce
  next
    case (FalseStatement sp)
    with "2.prems" have n: "n = 1"
      by (auto split: if_splits)
    with 2 FalseStatement compiles_to_abort [of "Some (LocFalseStatement s)" eq c] show ?thesis
      by fastforce
  next
    case (TrueStatement sp)
    with 2 show ?thesis
      using compiles_to_Nil [of eq c] by (fastforce split: if_splits)
  qed
  then show ?case
    using compiles_to_seq by (fastforce simp del: compile_block_loop.simps)
next
  case (3 st fl c)
  then show ?case by (intro exI [of _ "[]"]) (auto simp: if_sim_def)
next
  case (4 st fl cond b blocks c)
  from "4.prems"(1) obtain l r label_id c1 c2 where
    ok: "lookup_identifier st (cond_lhs cond) = Ok l" "lookup_value st (cond_rhs cond) = Ok r"
      "get_unique_label c = Ok (label_id, c1)"
      "compile_block_loop st (length b) b (push_inst (Some (LocIfCondition cond))
         (case cond_op cond of Equals \<Rightarrow> JumpIfNotEqual l r label_id
          | NotEquals \<Rightarrow> JumpIfEqual l r label_id) c1) = Ok c2"
      "compile_if_blocks st fl blocks (push_inst None (SymLabel label_id)
         (push_inst None (UnconditionalJump fl) c2)) = Ok c'"
    by (auto simp: result_simps)
  from "4.IH"(1) [OF ok(1-3) refl ok(4)] obtain code1 where
    code1: "compiles_to eq (push_inst (Some (LocIfCondition cond))
         (case cond_op cond of Equals \<Rightarrow> JumpIfNotEqual l r label_id
          | NotEquals \<Rightarrow> JumpIfEqual l r label_id) c1) c2 code1 (sem_block eq st b)" by blast
  have "fl < next_label_id (push_inst None (SymLabel label_id) (push_inst None (UnconditionalJump fl) c2))"
    using "4.prems"(2) get_unique_label_next [OF ok(3)] code1
    by (auto simp: compiles_to_def dest!: emits_next)
  from "4.IH"(2) [OF ok(1-3) refl ok(4,5) this] if_sim_Cons [OF ok(1-3) "4.prems"(2) refl code1]
  show ?case by blast
qed

section \<open>Correctness of \<open>compile_statements\<close>\<close>

lemma block_sim_run: "block_sim eq r code \<Longrightarrow> run_symbolic eq (sym_code code) = r"
  by (metis and_also_Ok_True append_Nil2 block_sim_def run_symbolic.simps(1))

text \<open>What holds of the code of a block: fresh labels, forward jumps, known debug locations.\<close>

definition block_code :: "SymbolicInstructionInfo list \<Rightarrow> bool" where
  "block_code code \<longleftrightarrow>
     distinct (labels_of (sym_code code)) \<and> jumps_forward (sym_code code) \<and> list_all well_located code"

lemma compile_block_sim:
  assumes "compile_block st ss new_compiler = Ok c"
  shows "block_code (instructions c) \<and> block_sim eq (sem_block eq st ss) (instructions c)"
proof -
  from compile_sim(1) [of st "length ss" ss new_compiler c eq] assms obtain code where
    "compiles_to eq new_compiler c code (sem_block eq st ss)"
    by (auto simp: compile_block_def)
  then show ?thesis
    by (auto simp: compiles_to_def emits_def new_compiler_def block_code_def closed_upto_def
          dest!: spec [of _ "[]"])
qed

lemma compile_statements_instructions:
  "compile_statements ss st new = Ok is \<longleftrightarrow>
     (\<exists>c. compile_block st ss new_compiler = Ok c \<and>
          is = instructions c @ (if new then [] else [\<lparr>si_location = None, si_instruction = UnconditionalBind\<rparr>]))"
  by (auto simp: compile_statements_def compile_statements_in_def push_inst_def result_simps)

lemma compile_statements_run:
  assumes "compile_statements ss st new = Ok is"
  shows "run_symbolic eq (sym_code is) = sem_block eq st ss"
proof -
  from assms obtain c where "compile_block st ss new_compiler = Ok c"
    and "is = instructions c @ (if new then [] else [\<lparr>si_location = None, si_instruction = UnconditionalBind\<rparr>])"
    by (auto simp: compile_statements_instructions)
  with compile_block_sim [of st ss c eq] show ?thesis
    by (auto simp: block_sim_run) (simp add: block_sim_def)
qed

text \<open>Compiling for the new bytecode yields block code and nothing else.\<close>

lemma compile_statements_block_code:
  "compile_statements ss st True = Ok is \<Longrightarrow> block_code is"
  using compile_block_sim [of st ss] by (auto simp: compile_statements_instructions)

end
