(* ===== verification/Compiler_Total.thy ===== *)
theory Compiler_Total
  imports Compiler_Sim
begin

text \<open>
  When compilation succeeds: \<open>compile_statements\<close> returns code exactly for blocks whose names all
  resolve, whose \<open>if\<close> statements are terminal, whose \<open>true\<close> and \<open>false\<close> statements are isolated,
  and which need fewer labels than the 32-bit label counter can count.
\<close>

section \<open>Well-formed blocks\<close>

definition declared :: "SymbolTable \<Rightarrow> CompoundIdentifier \<Rightarrow> bool" where
  "declared st i \<longleftrightarrow> st i \<noteq> None"

definition resolves :: "SymbolTable \<Rightarrow> Value \<Rightarrow> bool" where
  "resolves st v \<longleftrightarrow> value_symbol st v \<noteq> None"

definition condition_ok :: "SymbolTable \<Rightarrow> Condition \<Rightarrow> bool" where
  "condition_ok st c \<longleftrightarrow> declared st (cond_lhs c) \<and> resolves st (cond_rhs c)"

fun block_ok :: "SymbolTable \<Rightarrow> nat \<Rightarrow> Statement list \<Rightarrow> bool"
and blocks_ok :: "SymbolTable \<Rightarrow> (Condition \<times> Statement list) list \<Rightarrow> bool" where
  "block_ok st n [] = True"
| "block_ok st n (s # rest) =
     ((case s of
         ConditionStatement sp c \<Rightarrow> condition_ok st c
       | Accept sp i vs \<Rightarrow> declared st i \<and> list_all (resolves st) vs
       | IfStatement sp blocks els \<Rightarrow> rest = [] \<and> blocks_ok st blocks \<and> block_ok st (length els) els
       | FalseStatement sp \<Rightarrow> n = 1
       | TrueStatement sp \<Rightarrow> n = 1)
      \<and> block_ok st n rest)"
| "blocks_ok st [] = True"
| "blocks_ok st ((c, b) # blocks) = (condition_ok st c \<and> block_ok st (length b) b \<and> blocks_ok st blocks)"

fun labels_needed :: "Statement list \<Rightarrow> nat"
and blocks_labels_needed :: "(Condition \<times> Statement list) list \<Rightarrow> nat" where
  "labels_needed [] = 0"
| "labels_needed (s # rest) =
     (case s of
        Accept sp i vs \<Rightarrow> 1
      | IfStatement sp blocks els \<Rightarrow> 1 + blocks_labels_needed blocks + labels_needed els
      | _ \<Rightarrow> 0) + labels_needed rest"
| "blocks_labels_needed [] = 0"
| "blocks_labels_needed ((c, b) # blocks) = 1 + labels_needed b + blocks_labels_needed blocks"

section \<open>Success and label consumption\<close>

text \<open>
  \<open>returns r b n c\<close>: from state \<open>c\<close> the computation \<open>r\<close> fails only where \<open>b\<close> does not hold, panics
  only when the label counter has no room for \<open>n\<close> more labels, and otherwise draws exactly \<open>n\<close>
  labels.
\<close>

definition returns :: "(Compiler, CompilerError) result \<Rightarrow> bool \<Rightarrow> nat \<Rightarrow> Compiler \<Rightarrow> bool" where
  "returns r b n c \<longleftrightarrow>
     (case r of
        Ok c' \<Rightarrow> b \<and> unat (next_label_id c') = unat (next_label_id c) + n
      | Err _ \<Rightarrow> \<not> b
      | Panic \<Rightarrow> 2 ^ 32 \<le> unat (next_label_id c) + n)"

lemma returns_Ok: "next_label_id c' = next_label_id c \<Longrightarrow> returns (Ok c') True 0 c"
  by (simp add: returns_def)

lemma returns_Err: "returns (Err e) False n c"
  by (simp add: returns_def)

lemma returns_and_then:
  "returns r b n c \<Longrightarrow> (\<And>c'. r = Ok c' \<Longrightarrow> returns (f c') b' n' c') \<Longrightarrow>
   returns (and_then r f) (b \<and> b') (n + n') c"
  by (cases r) (fastforce simp: returns_def split: result.splits)+

lemma returns_label:
  assumes "\<And>l c1. get_unique_label c = Ok (l, c1) \<Longrightarrow> returns (f (l, c1)) b n c1"
  shows "returns (and_then (get_unique_label c) f) b (Suc n) c"
proof (cases "next_label_id c = - 1")
  case True
  then show ?thesis
    by (simp add: returns_def get_unique_label_def checked_inc_def unsigned_minus_1_eq_mask mask_eq_exp_minus_1)
next
  case False
  then have ok: "get_unique_label c = Ok (next_label_id c, c\<lparr>next_label_id := next_label_id c + 1\<rparr>)"
    by (simp add: get_unique_label_def checked_inc_def)
  have "unat (next_label_id c + 1) = Suc (unat (next_label_id c))"
    using unat_checked_inc [of "next_label_id c"] False by (simp add: checked_inc_def)
  then show ?thesis
    using assms [OF ok] by (simp add: ok returns_def split: result.splits)
qed

lemma returns_lookup_identifier:
  "(\<And>s. lookup_identifier st i = Ok s \<Longrightarrow> returns (f s) b n c) \<Longrightarrow>
   returns (and_then (lookup_identifier st i) f) (declared st i \<and> b) n c"
  by (cases "st i") (auto simp: lookup_identifier_def ok_or_def returns_def declared_def)

lemma lookup_value_no_panic [simp]: "lookup_value st v \<noteq> Panic"
  by (cases v) simp_all

lemma returns_lookup_value:
  "(\<And>s. lookup_value st v = Ok s \<Longrightarrow> returns (f s) b n c) \<Longrightarrow>
   returns (and_then (lookup_value st v) f) (resolves st v \<and> b) n c"
  by (cases "lookup_value st v") (auto simp: value_symbol_def returns_def resolves_def)

lemma returns_cong: "returns r b n c \<Longrightarrow> b = b' \<Longrightarrow> n = n' \<Longrightarrow> returns r b' n' c"
  by simp

lemma returns_push [simp]: "returns r b n (push_inst loc i c) \<longleftrightarrow> returns r b n c"
  by (simp add: returns_def split: result.splits)

lemma accept_values_returns:
  "returns (compile_accept_values st x sp l lab vs c) (list_all (resolves st) vs) 0 c"
proof (induction vs arbitrary: c)
  case Nil
  then show ?case by (simp add: returns_def)
next
  case (Cons v vs)
  have "returns (compile_accept_values st x sp l lab vs (push_inst loc i c))
      (list_all (resolves st) vs) 0 c" for loc i
    using Cons [of "push_inst loc i c"] by (simp add: returns_push)
  then show ?case
    by (auto intro!: returns_lookup_value)
qed

lemma returns_condition:
  "(\<And>l r. lookup_identifier st (cond_lhs cond) = Ok l \<Longrightarrow> lookup_value st (cond_rhs cond) = Ok r \<Longrightarrow>
     returns (f l r) b n c) \<Longrightarrow>
   returns (and_then (lookup_identifier st (cond_lhs cond)) (\<lambda>l.
      and_then (lookup_value st (cond_rhs cond)) (f l))) (condition_ok st cond \<and> b) n c"
  unfolding condition_ok_def conj_assoc by (intro returns_lookup_identifier returns_lookup_value)

lemma returns_accept:
  "returns (and_then (lookup_identifier st x) (\<lambda>l. and_then (get_unique_label c) (\<lambda>(lab, c).
      and_then (compile_accept_values st x sp l lab vs c) (\<lambda>c. Ok (push_inst loc (i lab) (push_inst (f l) i' c))))))
    (declared st x \<and> list_all (resolves st) vs) 1 c"
proof -
  have "returns (and_then (compile_accept_values st x sp l lab vs c1) (\<lambda>c. Ok (push_inst loc (i lab) (push_inst (f l) i' c))))
      (list_all (resolves st) vs \<and> True) (0 + 0) c1" for l lab c1
    by (intro returns_and_then accept_values_returns returns_Ok) simp
  then show ?thesis
    unfolding One_nat_def by (auto intro!: returns_lookup_identifier returns_label)
qed

lemma compile_returns:
  "returns (compile_block_loop st n ss c) (block_ok st n ss) (labels_needed ss) c"
  "returns (compile_if_blocks st fl bs c) (blocks_ok st bs) (blocks_labels_needed bs) c"
proof (induction st n ss c and st fl bs c rule: compile_block_loop_compile_if_blocks.induct)
  case (1 st n c)
  then show ?case by (simp add: returns_def)
next
  case (2 st n s rest c)
  show ?case
    unfolding compile_block_loop.simps(2) block_ok.simps(2) labels_needed.simps(2)
  proof (rule returns_and_then, goal_cases)
    case 1
    show ?case
    proof (cases s)
      case (ConditionStatement sp cond)
      then show ?thesis
        using returns_condition [where b = True] by (simp add: returns_Ok)
    next
      case (Accept sp x vs)
      then show ?thesis
        using returns_accept by (simp add: prod.case_distrib)
    next
      case (IfStatement sp blocks els)
      have "returns (and_then (compile_if_blocks st fl blocks c1) (\<lambda>c.
          and_then (compile_block_loop st (length els) els c) (\<lambda>c. Ok (push_inst None (SymLabel fl) c))))
          (blocks_ok st blocks \<and> block_ok st (length els) els \<and> True)
          (blocks_labels_needed blocks + (labels_needed els + 0)) c1"
        if "rest = []" "get_unique_label c = Ok (fl, c1)" for fl c1
        using "2.IH"(1,2) [OF IfStatement _ that(2) refl] that(1)
        by (intro returns_and_then returns_Ok) auto
      with IfStatement show ?thesis
        by (auto intro!: returns_label returns_Err)
    next
      case (FalseStatement sp)
      then show ?thesis by (simp add: returns_Err returns_Ok)
    next
      case (TrueStatement sp)
      then show ?thesis by (simp add: returns_Err returns_Ok)
    qed
  next
    case (2 c')
    then show ?case by (rule "2.IH"(3))
  qed
next
  case (3 st fl c)
  then show ?case by (simp add: returns_def)
next
  case (4 st fl cond b blocks c)
  let ?body = "\<lambda>l r lab. push_inst (Some (LocIfCondition cond))
      (case cond_op cond of Equals \<Rightarrow> JumpIfNotEqual l r lab | NotEquals \<Rightarrow> JumpIfEqual l r lab)"
  have "returns (and_then (compile_block_loop st (length b) b (?body l r lab c1)) (\<lambda>c.
          compile_if_blocks st fl blocks (push_inst None (SymLabel lab) (push_inst None (UnconditionalJump fl) c))))
      (block_ok st (length b) b \<and> blocks_ok st blocks) (labels_needed b + blocks_labels_needed blocks) c1"
    if "lookup_identifier st (cond_lhs cond) = Ok l" "lookup_value st (cond_rhs cond) = Ok r"
      "get_unique_label c = Ok (lab, c1)" for l r lab c1
    using "4.IH" [OF that refl] by (auto intro!: returns_and_then)
  then show ?case
    by (auto intro!: returns_condition returns_label)
qed

section \<open>Properties of the code generator\<close>

text \<open>
  A rule used in the examples: \<open>if k == 5 { false; } else { accept k { 6, 7 } }\<close>, and its code.
\<close>

definition ex_span :: Span where
  "ex_span = \<lparr>sp_offset = 0, sp_line = 1, sp_fragment = []\<rparr>"

definition ex_key :: CompoundIdentifier where
  "ex_key = make_identifier [''k'']"

definition ex_condition :: Condition where
  "ex_condition = \<lparr>cond_span = ex_span, cond_lhs = ex_key, cond_op = Equals, cond_rhs = NumericLiteral 5\<rparr>"

definition ex_block :: "Statement list" where
  "ex_block =
     [IfStatement ex_span [(ex_condition, [FalseStatement ex_span])]
        [Accept ex_span ex_key [NumericLiteral 6, NumericLiteral 7]]]"

definition ex_table :: SymbolTable where
  "ex_table = [ex_key \<mapsto> Key ''k'' VtNumber]"

definition ex_code :: "SymbolicInstructionInfo list" where
  "ex_code =
    (let k = Key ''k'' VtNumber; mk = (\<lambda>l i. \<lparr>si_location = l, si_instruction = i\<rparr>) in
     [mk (Some (LocIfCondition ex_condition)) (JumpIfNotEqual k (NumberValue 5) 1),
      mk (Some (LocFalseStatement (FalseStatement ex_span))) UnconditionalAbort,
      mk None (UnconditionalJump 0),
      mk None (SymLabel 1),
      mk (Some (LocAcceptStatementValue ex_key (NumericLiteral 6) ex_span)) (JumpIfEqual k (NumberValue 6) 2),
      mk (Some (LocAcceptStatementValue ex_key (NumericLiteral 7) ex_span)) (JumpIfEqual k (NumberValue 7) 2),
      mk (Some (LocAcceptStatementFailure ex_key k ex_span)) UnconditionalAbort,
      mk None (SymLabel 2),
      mk None (SymLabel 0),
      mk None UnconditionalBind])"

lemma ex_block_compiles: "compile_statements ex_block ex_table False = Ok ex_code"
  by (simp add: ex_block_def ex_table_def ex_code_def ex_span_def ex_condition_def ex_key_def compile_statements_def
      compile_statements_in_def compile_block_def new_compiler_def get_unique_label_def
      checked_inc_def lookup_identifier_def push_inst_def Let_def)

text \<open>
  C4. The code that \<open>compile_statements\<close> generates, run by the symbolic machine with any
  outcome of the comparisons, decides what the statements mean.
\<close>

theorem compile_statements_correct:
  assumes "compile_statements ss st use_new = Ok is"
  shows "run_symbolic eq (sym_code is) = sem_block eq st ss"
  using assms by (rule compile_statements_run)

theorem compile_statements_correct_witness:
  "\<exists>is. compile_statements ex_block ex_table False = Ok is \<and>
     run_symbolic (\<lambda>l r. Ok (r = NumberValue 5) :: (bool, unit) result) (sym_code is) = Ok False \<and>
     run_symbolic (\<lambda>l r. Ok (r = NumberValue 7) :: (bool, unit) result) (sym_code is) = Ok True"
proof -
  note ok = ex_block_compiles
  have "sem_block (\<lambda>l r. Ok (r = NumberValue 5) :: (bool, unit) result) ex_table ex_block = Ok False"
    "sem_block (\<lambda>l r. Ok (r = NumberValue 7) :: (bool, unit) result) ex_table ex_block = Ok True"
    by (simp_all add: ex_block_def ex_table_def ex_condition_def sem_condition_def sem_equal_def value_symbol_def
        ex_key_def)
  with ok show ?thesis by (simp add: compile_statements_correct [OF ok])
qed

lemma compile_statements_no_panic:
  assumes "labels_needed ss < 2 ^ 32"
  shows "compile_statements ss st use_new \<noteq> Panic"
  using compile_returns(1) [of st "length ss" ss new_compiler] assms
  by (auto simp: compile_statements_def compile_statements_in_def compile_block_def result_simps returns_def new_compiler_def)

text \<open>
  C17. The compiler succeeds exactly on the well-formed blocks: no label, lookup or structural
  error can surprise them, and the panic of the label counter needs \<open>2 ^ 32\<close> labels.
\<close>

theorem compile_statements_ok_iff:
  "(\<exists>is. compile_statements ss st use_new = Ok is) \<longleftrightarrow>
     block_ok st (length ss) ss \<and> labels_needed ss < 2 ^ 32"
  using compile_returns(1) [of st "length ss" ss new_compiler]
  by (auto simp: compile_statements_instructions compile_block_def returns_def new_compiler_def
      split: result.splits dest!: sym [of "unat _"] intro: unat_u32_less [simplified])

end
