(* ===== verification/Rules_Size.thy ===== *)
theory Rules_Size
  imports Bind_Grammar Compiler_Total
begin

text \<open>
  How much source a syntax tree costs: a parser is \<open>sized w\<close> when it consumes at least \<open>w x\<close> bytes
  to return \<open>x\<close>. The contract is closed under the combinators, and the grammar of rules pays for
  every label that the code generator will draw.
\<close>

definition sized :: "('a \<Rightarrow> nat) \<Rightarrow> ('a, 'e) parser \<Rightarrow> bool" where
  "sized w p \<longleftrightarrow> (\<forall>i j x. p i = Ok (j, x) \<longrightarrow> w x + length (ns_fragment j) \<le> length (ns_fragment i))"

named_theorems sized_intros \<open>parsers with their sizes\<close>

lemma sizedI: "(\<And>i j x. p i = Ok (j, x) \<Longrightarrow> w x + length (ns_fragment j) \<le> length (ns_fragment i)) \<Longrightarrow> sized w p"
  by (simp add: sized_def)

lemma sizedD: "p i = Ok (j, x) \<Longrightarrow> sized w p \<Longrightarrow> w x + length (ns_fragment j) \<le> length (ns_fragment i)"
  by (simp add: sized_def)

lemma sized_mono: "sized w p \<Longrightarrow> (\<And>x. w' x \<le> w x) \<Longrightarrow> sized w' p"
  unfolding sized_def by (meson add_right_mono order_trans)

section \<open>Basic parsers\<close>

lemma slice_from_length:
  "slice_from n i = (Ok j :: (_, 'e) result) \<Longrightarrow> n + length (ns_fragment j) \<le> length (ns_fragment i)"
  by (auto simp: slice_from_def Let_def result_simps split: if_splits)

lemma take_split_length:
  "take_split n i = (Ok (j, x) :: (_, 'e) result) \<Longrightarrow> n + length (ns_fragment j) \<le> length (ns_fragment i)"
  by (auto simp: take_split_def result_simps dest!: slice_from_length)

lemma sized_tag [sized_intros]: "sized (\<lambda>_. length t) (tag mk t)"
  by (rule sizedI) (auto simp: tag_def split: if_splits dest!: take_split_length)

lemma sized_nom_char [sized_intros]: "sized (\<lambda>_. 1) (nom_char mk c)"
  by (rule sizedI) (auto simp: nom_char_def result_simps split: list.splits if_splits dest!: slice_from_length)

lemma sized_one_of [sized_intros]: "sized (\<lambda>_. 1) (one_of mk cs)"
  by (rule sizedI) (auto simp: one_of_def result_simps split: list.splits if_splits dest!: slice_from_length)

lemma sized_split_at [sized_intros]: "sized (\<lambda>_. 0) (split_at_position1_complete mk P e)"
  by (rule sizedI) (auto simp: split_at_position1_complete_def split: option.splits if_splits dest!: take_split_length)

lemma sized_line_ending [sized_intros]: "sized (\<lambda>_. 0) (line_ending mk)"
  by (rule sizedI) (auto simp: line_ending_def split: if_splits dest!: take_split_length)

lemma sized_not_line_ending [sized_intros]: "sized (\<lambda>_. 0) (not_line_ending mk)"
  by (rule sizedI) (auto simp: not_line_ending_def result_simps split: option.splits if_splits
      dest!: take_split_length slice_from_length)

lemma sized_identifier [sized_intros]: "sized (\<lambda>_. 0) identifier_p"
  by (rule sizedI) (auto simp: identifier_p_def result_simps split: option.splits dest!: slice_from_length)

lemma sized_digits [sized_intros]:
  "sized (\<lambda>_. 0) (digit1 mk)" "sized (\<lambda>_. 0) (hex_digit1 mk)" "sized (\<lambda>_. 0) (multispace1 mk)" "sized (\<lambda>_. 0) (is_not mk cs)"
  unfolding digit1_def hex_digit1_def multispace1_def is_not_def by (rule sized_split_at)+

section \<open>Combinators\<close>

lemma sized_map [sized_intros]: "sized (\<lambda>x. w (f x)) p \<Longrightarrow> sized w (map_p p f)"
  by (rule sizedI) (auto simp: map_p_def result_simps dest!: sizedD)

lemma sized_map_res [sized_intros]: "sized (\<lambda>_. a) p \<Longrightarrow> sized (\<lambda>_. a) (map_res mk p f)"
  by (rule sizedI) (auto simp: map_res_def result_simps split: option.splits dest!: sizedD)

lemma sized_opt [sized_intros]: "sized (\<lambda>_. 0) p \<Longrightarrow> sized (\<lambda>_. 0) (opt p)"
  by (rule sizedI) (auto simp: opt_def split: result.splits NomErr.splits dest!: sizedD)

lemma sized_value [sized_intros]: "sized (\<lambda>_. a) p \<Longrightarrow> sized (\<lambda>_. a) (value_p v p)"
  by (rule sizedI) (auto simp: value_p_def result_simps dest!: sizedD)

lemma sized_map_err [sized_intros]: "sized w p \<Longrightarrow> sized w (map_err_p p f)"
  by (rule sizedI) (auto simp: map_err_p_def split: result.splits NomErr.splits dest!: sizedD)

lemma sized_alt [sized_intros]:
  assumes "list_all (sized w) ps"
  shows "sized w (alt ps)"
proof -
  have "alt_from err ps i = Ok (j, x) \<Longrightarrow> w x + length (ns_fragment j) \<le> length (ns_fragment i)" for err i j x
    using assms
  proof (induction ps arbitrary: err)
    case Nil
    then show ?case by (cases err) simp_all
  next
    case (Cons p ps)
    then show ?case
      by (auto split: result.splits NomErr.splits dest!: sizedD)
  qed
  then show ?thesis by (rule sizedI) (auto simp: alt_def)
qed

lemma sized_pair [sized_intros]: "sized v p \<Longrightarrow> sized w q \<Longrightarrow> sized (\<lambda>(x, y). v x + w y) (pair p q)"
  by (rule sizedI) (auto simp: pair_def result_simps dest!: sizedD)

lemma sized_preceded: "sized (\<lambda>_. a) p \<Longrightarrow> sized w q \<Longrightarrow> sized (\<lambda>x. a + w x) (preceded p q)"
  by (rule sizedI) (auto simp: preceded_def result_simps dest!: sizedD)

lemma sized_terminated [sized_intros]: "sized w p \<Longrightarrow> sized (\<lambda>_. 0) q \<Longrightarrow> sized w (terminated p q)"
  by (rule sizedI) (auto simp: terminated_def result_simps dest!: sizedD)

lemma sized_delimited [sized_intros]:
  "sized (\<lambda>_. 0) p \<Longrightarrow> sized w q \<Longrightarrow> sized (\<lambda>_. 0) r \<Longrightarrow> sized w (delimited p q r)"
  by (rule sizedI) (auto simp: delimited_def result_simps dest!: sizedD)

section \<open>Loops\<close>

abbreviation total :: "('a \<Rightarrow> nat) \<Rightarrow> 'a list \<Rightarrow> nat" where
  "total w xs \<equiv> sum_list (map w xs)"

lemma many_loop_size:
  assumes "sized w p" and "many_loop mk k p n acc i = Ok (j, xs)"
  shows "total w xs + length (ns_fragment j) \<le> total w acc + length (ns_fragment i)"
  using assms(2)
proof (induction n arbitrary: acc i)
  case (Suc n)
  show ?case
  proof (cases "p i")
    case (Ok r)
    obtain i1 x where r: "r = (i1, x)" by fastforce
    with Suc.prems Ok have "many_loop mk k p n (acc @ [x]) i1 = Ok (j, xs)"
      by (simp split: if_splits)
    from Suc.IH [OF this] sizedD [OF _ assms(1)] Ok r show ?thesis by fastforce
  qed (use Suc.prems in \<open>auto split: NomErr.splits\<close>)
qed simp

lemma sized_many0 [sized_intros]:
  assumes "sized w p"
  shows "sized (total w) (many0 mk p)"
  using many_loop_size [OF assms, of mk EkMany0 _ "[]"] by (simp add: many0_def sized_def del: many_loop.simps)

lemma sized_many1 [sized_intros]:
  assumes "sized w p"
  shows "sized (total w) (many1 mk p)"
proof (rule sizedI)
  fix i j xs
  assume "many1 mk p i = Ok (j, xs)"
  then obtain i1 x where "p i = Ok (i1, x)" "many_loop mk EkMany1 p (Suc (length (ns_fragment i1))) [x] i1 = Ok (j, xs)"
    by (auto simp: many1_def result_simps)
  from sizedD [OF this(1) assms] many_loop_size [OF assms this(2)]
  show "total w xs + length (ns_fragment j) \<le> length (ns_fragment i)" by simp
qed

lemma separated_loop_size:
  assumes "sized (\<lambda>_. 0) sep" and "sized w p" and "separated_loop mk sep p n acc i = Ok (j, xs)"
  shows "total w xs + length (ns_fragment j) \<le> total w acc + length (ns_fragment i)"
  using assms(3)
proof (induction n arbitrary: acc i)
  case (Suc n)
  show ?case
  proof (cases "sep i")
    case (Ok r)
    obtain i1 y where r: "r = (i1, y)" by fastforce
    note sep = sizedD [OF Ok [unfolded r] assms(1)]
    show ?thesis
    proof (cases "p i1")
      case (Ok t)
      obtain i2 x where t: "t = (i2, x)" by fastforce
      with Suc.prems Ok \<open>sep i = Ok r\<close> r have "separated_loop mk sep p n (acc @ [x]) i2 = Ok (j, xs)"
        by (simp split: if_splits)
      from Suc.IH [OF this] sizedD [OF Ok [unfolded t] assms(2)] sep show ?thesis by simp
    qed (use Suc.prems \<open>sep i = Ok r\<close> r in \<open>auto split: NomErr.splits if_splits\<close>)
  qed (use Suc.prems in \<open>auto split: NomErr.splits\<close>)
qed simp

lemma sized_separated [sized_intros]:
  assumes "sized (\<lambda>_. 0) sep" and "sized w p"
  shows "sized (total w) (separated_nonempty_list mk sep p)"
proof (rule sizedI)
  fix i j xs
  assume "separated_nonempty_list mk sep p i = Ok (j, xs)"
  then obtain i1 x where "p i = Ok (i1, x)" "separated_loop mk sep p (Suc (length (ns_fragment i1))) [x] i1 = Ok (j, xs)"
    by (auto simp: separated_nonempty_list_def result_simps split: if_splits)
  from sizedD [OF this(1) assms(2)] separated_loop_size [OF assms this(2)]
  show "total w xs + length (ns_fragment j) \<le> length (ns_fragment i)" by simp
qed

section \<open>Lexical parsers\<close>

lemma sized_zero: "sized w p \<Longrightarrow> sized (\<lambda>_. 0) p"
  by (erule sized_mono) simp

lemma comment_loop_length: "comment_loop n s = Ok (m, rest) \<Longrightarrow> length rest \<le> length s"
  by (induction n s rule: comment_loop.induct) (auto split: if_splits)

lemma sized_multiline_comment: "sized (\<lambda>_. 0) multiline_comment"
  by (rule sizedI)
    (auto simp: multiline_comment_def result_simps split: if_splits dest!: slice_from_length sizedD [OF _ sized_tag])

lemma sized_comment_or_whitespace: "sized (\<lambda>_. 0) comment_or_whitespace"
proof -
  have "sized (\<lambda>_. 0) singleline_comment"
    unfolding singleline_comment_def
    by (intro sized_value sized_zero [OF sized_pair [OF sized_tag sized_pair [OF sized_not_line_ending sized_line_ending]]])
  then show ?thesis
    unfolding comment_or_whitespace_def
    by (intro sized_value sized_zero [OF sized_many0 [where w = "\<lambda>_. 0"]] sized_alt)
      (simp add: sized_multiline_comment sized_value sized_digits)
qed

lemma skip_ws_length: "skip_ws i = Ok j \<Longrightarrow> length (ns_fragment j) \<le> length (ns_fragment i)"
  by (auto simp: skip_ws_def result_simps dest!: sizedD [OF _ sized_comment_or_whitespace])

lemma sized_ws [sized_intros]: "sized w p \<Longrightarrow> sized w (ws p)"
  unfolding ws_def using sized_preceded [OF sized_comment_or_whitespace] by simp

lemma sized_keyword: "sized (\<lambda>_. length t) (ws (keyword_tag t f))"
  by (intro sized_ws sized_map_err sized_tag)

lemma sized_keyword_zero: "sized (\<lambda>_. 0) (ws (keyword_tag t f))"
  by (rule sized_zero [OF sized_keyword])

lemma escaped_loop_size:
  assumes "sized (\<lambda>_. 0) normal" and "sized (\<lambda>_. 0) esc"
  shows "escaped_loop mk normal c esc input n i = Ok (j, x) \<Longrightarrow> length (ns_fragment j) \<le> length (ns_fragment input)"
proof (induction n arbitrary: i)
  case (Suc n)
  then show ?case
    by (auto simp: result_simps split: if_splits result.splits NomErr.splits
        dest!: slice_from_length take_split_length)
qed simp

lemma sized_quoted: "sized (\<lambda>_. 0) quoted"
proof -
  have "sized (\<lambda>_. 0) (escaped Pair (is_not Pair [CHR 0x5C, CHR ''\"'']) CHR 0x5C (one_of Pair [CHR 0x5C, CHR ''\"'']))"
    by (rule sizedI)
      (auto simp: escaped_def simp del: escaped_loop.simps
        intro: escaped_loop_size sized_digits sized_zero [OF sized_one_of])
  then show ?thesis
    unfolding quoted_def by (intro sized_delimited sized_zero [OF sized_nom_char])
qed

lemma sized_compound_identifier: "sized (\<lambda>_. 0) compound_identifier"
  by (rule sizedI)
    (auto simp: compound_identifier_def result_simps split: if_splits
      dest!: sizedD [OF _ sized_zero [OF sized_separated [OF sized_zero [OF sized_tag] sized_identifier]]])

lemma sized_condition_value: "sized (\<lambda>_. 0) condition_value"
proof -
  have "sized (\<lambda>_. 0) string_literal" "sized (\<lambda>_. 0) numeric_literal" "sized (\<lambda>_. 0) bool_literal"
    unfolding string_literal_def numeric_literal_def bool_literal_def
    by (intro sized_map_err sized_map sized_quoted sized_alt;
        simp add: sized_map_res sized_digits sized_value sized_zero [OF sized_tag] sized_zero [OF sized_preceded [OF sized_tag sized_digits(2)]])+
  then have "sized (\<lambda>_. 0) (alt [map_p (ws string_literal) StringLiteral, map_p (ws numeric_literal) NumericLiteral,
      map_p (ws bool_literal) BoolLiteral, map_p (ws compound_identifier) Identifier])"
    by (intro sized_alt) (simp add: sized_map sized_ws sized_compound_identifier)
  then show ?thesis
    by (auto simp: condition_value_def sized_def split: result.splits)
qed

section \<open>Statements pay for their labels\<close>

lemma labels_needed_total: "labels_needed ss = total (\<lambda>s. labels_needed [s]) ss"
  by (induction ss) simp_all

lemma blocks_labels_needed_total: "blocks_labels_needed bs = total (\<lambda>(c, b). 1 + labels_needed b) bs"
  by (induction bs) auto

lemma sized_condition_op: "sized (\<lambda>_. 0) (ws condition_op)"
  unfolding condition_op_def
  by (intro sized_ws sized_map_err sized_alt) (simp add: sized_value sized_zero [OF sized_tag])

lemma sized_condition: "sized (\<lambda>_. 0) condition_p"
  by (rule sizedI)
    (auto simp: condition_p_def result_simps
      dest!: skip_ws_length sizedD [OF _ sized_ws [OF sized_compound_identifier]]
        sizedD [OF _ sized_ws [OF sized_condition_value]] sizedD [OF _ sized_condition_op])

lemma sized_statement_block:
  "sized (\<lambda>s. labels_needed [s]) st \<Longrightarrow> sized labels_needed (statement_block st)"
  unfolding statement_block_def
  by (rule sized_mono [OF sized_delimited [OF sized_keyword_zero sized_many1 [OF sized_ws] sized_keyword_zero]])
    (assumption, rule eq_refl, rule labels_needed_total)

lemma sized_else_block:
  assumes "sized (\<lambda>s. labels_needed [s]) st"
  shows "sized (\<lambda>b. 4 + labels_needed b) (preceded keyword_else (statement_block st))"
  unfolding keyword_else_def
  by (rule sized_mono [OF sized_preceded [OF sized_keyword sized_statement_block [OF assms]]]) simp

lemma sized_if_blocks:
  assumes "sized (\<lambda>s. labels_needed [s]) st"
  shows "sized blocks_labels_needed (separated_nonempty_list from_error_kind keyword_else
    (pair (preceded keyword_if condition_p) (statement_block st)))"
proof -
  have "sized (\<lambda>_. 1) (preceded keyword_if condition_p)"
    unfolding keyword_if_def by (rule sized_mono [OF sized_preceded [OF sized_keyword sized_condition]]) simp
  from sized_pair [OF this sized_statement_block [OF assms]] show ?thesis
    unfolding blocks_labels_needed_total [abs_def] keyword_else_def
    by (intro sized_separated sized_keyword_zero)
qed

lemma sized_if_statement:
  assumes "sized (\<lambda>s. labels_needed [s]) st"
  shows "sized (\<lambda>s. labels_needed [s]) (if_statement st)"
  by (rule sizedI)
    (auto simp: if_statement_def result_simps
      dest!: skip_ws_length sizedD [OF _ sized_if_blocks [OF assms]] sizedD [OF _ sized_else_block [OF assms]])

lemma sized_accept: "sized (\<lambda>s. labels_needed [s]) accept"
proof -
  have "sized (\<lambda>_. 0) accept_values"
    unfolding accept_values_def list_separator_def
    by (intro sized_delimited sized_keyword_zero sized_terminated sized_opt sized_ws
        sized_zero [OF sized_separated [OF _ sized_ws [OF sized_condition_value]]])
  from sized_zero [OF sized_pair [OF sized_ws [OF sized_compound_identifier] this]]
  have p: "sized (\<lambda>_. 6) (preceded keyword_accept (pair (ws compound_identifier) accept_values))"
    unfolding keyword_accept_def by (rule sized_mono [OF sized_preceded [OF sized_keyword]]) simp
  show ?thesis
    by (rule sizedI) (auto simp: accept_def result_simps dest!: skip_ws_length sizedD [OF _ p])
qed

lemma sized_statement: "sized (\<lambda>s. labels_needed [s]) (statement n)"
proof (induction n)
  case (Suc n)
  have "sized (\<lambda>s. labels_needed [s]) condition_statement"
    by (rule sizedI) (auto simp: condition_statement_def result_simps
        dest!: skip_ws_length sizedD [OF _ sized_terminated [OF sized_condition sized_keyword_zero]])
  moreover have "sized (\<lambda>s. labels_needed [s]) keyword_false" "sized (\<lambda>s. labels_needed [s]) keyword_true"
    by (rule sizedI; auto simp: keyword_false_def keyword_true_def result_simps
        dest!: skip_ws_length sizedD [OF _ sized_terminated [OF sized_keyword_zero sized_keyword_zero]])+
  ultimately have "sized (\<lambda>s. labels_needed [s])
      (alt [condition_statement, if_statement (statement n), accept, keyword_false, keyword_true])"
    using sized_if_statement [OF Suc] sized_accept by (intro sized_alt) simp
  then show ?case by (simp add: sized_def)
qed (simp add: sized_def)

lemma until_eof_loop_size:
  assumes "sized w p" and "until_eof_loop p n acc i = Ok (j, xs)"
  shows "total w xs + length (ns_fragment j) \<le> total w acc + length (ns_fragment i)"
  using assms(2)
proof (induction n arbitrary: acc i)
  case (Suc n)
  then obtain r where r: "skip_ws i = Ok r" by (auto simp: result_simps)
  show ?case
  proof (cases "ns_fragment r = []")
    case True
    with Suc.prems r skip_ws_length [OF r] show ?thesis by auto
  next
    case False
    with Suc.prems r obtain i1 x where "p i = Ok (i1, x)" "until_eof_loop p n (acc @ [x]) i1 = Ok (j, xs)"
      by (auto simp: result_simps split: if_splits)
    from sizedD [OF this(1) assms(1)] Suc.IH [OF this(2)] show ?thesis by simp
  qed
qed simp

lemma parse_outcome_size:
  assumes "parse_outcome (p (new_span src)) = Ok x" and "sized w p"
  shows "w x \<le> length src"
  using assms(1) sizedD [OF _ assms(2), of "new_span src"]
  by (auto simp: parse_outcome_def new_span_def split: result.splits NomErr.splits)

lemma sized_many_until_eof: "sized w p \<Longrightarrow> sized (total w) (many_until_eof p)"
  using until_eof_loop_size [of w p _ "[]"] by (simp add: sized_def many_until_eof_def del: until_eof_loop.simps)

lemma sized_using_list: "sized (\<lambda>_. 0) using_list"
proof -
  have "sized (\<lambda>_. 0) using_p"
    by (rule sizedI) (auto simp: using_p_def result_simps
        dest!: sizedD [OF _ sized_ws [OF sized_compound_identifier]]
          sizedD [OF _ sized_opt [OF sized_zero [OF sized_preceded [OF sized_keyword sized_ws [OF sized_identifier]]]]])
  then show ?thesis
    unfolding using_list_def
    by (intro sized_zero [OF sized_many0] sized_ws sized_delimited sized_keyword_zero)
qed

lemma sized_rules: "sized (\<lambda>ast. labels_needed (ast_statements ast)) rules"
proof (rule sizedI)
  fix i j ast
  assume "rules i = Ok (j, ast)"
  then obtain k incs where "ws using_list i = Ok (k, incs)"
    "many_until_eof (ws (statement (Suc (length (ns_fragment i))))) k = Ok (j, ast_statements ast)"
    by (auto simp: rules_def Let_def result_simps split: if_splits)
  from sizedD [OF this(1) sized_ws [OF sized_using_list]]
    sizedD [OF this(2) sized_many_until_eof [OF sized_ws [OF sized_statement]]]
  show "labels_needed (ast_statements ast) + length (ns_fragment j) \<le> length (ns_fragment i)"
    by (subst labels_needed_total) simp
qed

lemma rules_labels: "rules_try_from src = Ok ast \<Longrightarrow> labels_needed (ast_statements ast) \<le> length src"
  unfolding rules_try_from_def by (rule parse_outcome_size [OF _ sized_rules])

section \<open>Nodes of composite rules\<close>

definition node_labels :: "CompositeAst \<Rightarrow> nat" where
  "node_labels ast =
     labels_needed (can_statements (cast_primary_node ast)) + total (\<lambda>nd. labels_needed (can_statements nd)) (cast_nodes ast)"

lemma sort_nodes_labels:
  "sort_nodes input nodes names p acc = Ok (prim, others) \<Longrightarrow>
   labels_needed (can_statements prim) + total (\<lambda>nd. labels_needed (can_statements nd)) others
     \<le> total (\<lambda>(_, _, ss). labels_needed ss) nodes + (case p of None \<Rightarrow> 0 | Some nd \<Rightarrow> labels_needed (can_statements nd))
       + total (\<lambda>nd. labels_needed (can_statements nd)) acc"
  by (induction input nodes names p acc rule: sort_nodes.induct)
    (auto simp: Let_def split: if_splits option.splits)

lemma sized_node: "sized (\<lambda>(_, _, ss). labels_needed ss) (node_p n)"
proof -
  have "sized (\<lambda>_. 0) (pair (opt keyword_primary) keyword_node)"
    unfolding keyword_primary_def keyword_node_def
    by (rule sized_zero [OF sized_pair [OF sized_opt [OF sized_keyword_zero] sized_keyword_zero]])
  moreover have "sized (\<lambda>_. 0) (ws node_name)"
    unfolding node_name_def by (intro sized_ws sized_map_err sized_map sized_quoted)
  ultimately show ?thesis
    by (intro sizedI) (auto simp: node_p_def result_simps dest!: sizedD [OF _ sized_statement_block [OF sized_statement]] sizedD)
qed

lemma sized_composite_nodes:
  "sized (\<lambda>(prim, others). labels_needed (can_statements prim) + total (\<lambda>nd. labels_needed (can_statements nd)) others)
     (composite_nodes n)"
proof (rule sizedI)
  fix i j x
  assume "composite_nodes n i = Ok (j, x)"
  then obtain nodes where "many_until_eof (ws (node_p n)) i = Ok (j, nodes)"
    "sort_nodes (ns_fragment j) nodes {} None [] = Ok x"
    by (auto simp: composite_nodes_def result_simps split: if_splits)
  with sizedD [OF this(1) sized_many_until_eof [OF sized_ws [OF sized_node]]] sort_nodes_labels
  show "(case x of (prim, others) \<Rightarrow> labels_needed (can_statements prim)
      + total (\<lambda>nd. labels_needed (can_statements nd)) others) + length (ns_fragment j) \<le> length (ns_fragment i)"
    by (fastforce split: prod.split)
qed

lemma sized_composite: "sized node_labels composite"
proof (rule sizedI)
  fix i j :: NomSpan and ast
  let ?p = "map_p (pair (ws composite_name) (pair (ws using_list) (composite_nodes (Suc (length (ns_fragment i))))))
       (\<lambda>(name, includes, primary_node, nodes).
          \<lparr>cast_name = name, cast_using = includes, cast_primary_node = primary_node, cast_nodes = nodes\<rparr>)"
  assume "composite i = Ok (j, ast)"
  then have "?p i = Ok (j, ast)" by (simp add: composite_def)
  moreover have "sized (\<lambda>_. 0) (ws composite_name)"
    unfolding composite_name_def keyword_composite_def
    by (intro sized_ws sized_delimited sized_keyword_zero sized_compound_identifier)
  then have "sized node_labels ?p"
    by (intro sized_map sized_mono [OF sized_pair [OF _ sized_pair [OF sized_ws [OF sized_using_list] sized_composite_nodes]]])
      (auto simp: node_labels_def)
  ultimately show "node_labels ast + length (ns_fragment j) \<le> length (ns_fragment i)"
    by (rule sizedD)
qed

lemma composite_labels: "composite_try_from src = Ok ast \<Longrightarrow> node_labels ast \<le> length src"
  unfolding composite_try_from_def by (rule parse_outcome_size [OF _ sized_composite])

end
