(* ===== verification/Dep_Graph.thy ===== *)
theory Dep_Graph
  imports Bind_Compiler "HOL-Library.Multiset"
begin

text \<open>
  \<open>compiler/dependency_graph.rs\<close>: the graph of libraries and its resolution by a variation of
  Kahn's algorithm. A \<open>HashMap<usize, HashSet<usize>>\<close> is an association list of lists. The order
  in which a hash set is walked is not known: the operations that walk one take a parameter
  \<open>ord\<close>, and \<open>hash_iter\<close> makes every choice of it a permutation of the set.
\<close>

section \<open>Hash sets\<close>

definition hash_iter :: "(nat \<Rightarrow> nat list \<Rightarrow> nat list) \<Rightarrow> nat \<Rightarrow> nat list \<Rightarrow> nat list" where
  "hash_iter ord i xs = (if mset (ord i xs) = mset xs then ord i xs else xs)"

lemma mset_hash_iter [simp]: "mset (hash_iter ord i xs) = mset xs"
  by (simp add: hash_iter_def)

lemma set_hash_iter [simp]: "set (hash_iter ord i xs) = set xs"
  by (metis mset_hash_iter set_mset_mset)

lemma distinct_hash_iter [simp]: "distinct (hash_iter ord i xs) = distinct xs"
  by (metis mset_eq_imp_distinct_iff mset_hash_iter)

type_synonym index_sets = "(nat \<times> nat list) list"

text \<open>\<open>map.entry(i).or_default()\<close>, read only.\<close>

definition entry_of :: "index_sets \<Rightarrow> nat \<Rightarrow> nat list" where
  "entry_of m i = (case map_of m i of Some xs \<Rightarrow> xs | None \<Rightarrow> [])"

text \<open>\<open>map.entry(i).or_insert(HashSet::new()).insert(j)\<close>.\<close>

definition entry_insert :: "nat \<Rightarrow> nat \<Rightarrow> index_sets \<Rightarrow> index_sets" where
  "entry_insert i j m =
     AList.update i (if j \<in> set (entry_of m i) then entry_of m i else entry_of m i @ [j]) m"

section \<open>The graph\<close>

datatype ('k, 'v) Node =
    Root
  | Data 'k 'v
  | Zombie

record ('k, 'v) DependencyGraph =
  dg_nodes :: "('k, 'v) Node list"
  dg_indices :: "'k \<rightharpoonup> nat"
  dg_children :: index_sets
  dg_parents :: index_sets

definition ROOT_INDEX :: nat where "ROOT_INDEX = 0"

definition new_graph :: "('k, 'v) DependencyGraph" where
  "new_graph = \<lparr>dg_nodes = [Root], dg_indices = Map.empty, dg_children = [], dg_parents = []\<rparr>"

definition get_index :: "('k, 'v) DependencyGraph \<Rightarrow> 'k \<Rightarrow> (nat, 'k DependencyError) result" where
  "get_index g key = ok_or (dg_indices g key) (MissingDependency key)"

definition insert_node ::
    "'k \<Rightarrow> 'v \<Rightarrow> ('k, 'v) DependencyGraph \<Rightarrow> (('k, 'v) DependencyGraph, 'k DependencyError) result" where
  "insert_node key data g =
     (let index = length (dg_nodes g); nodes = dg_nodes g @ [Data key data] in
      case dg_indices g key of
        None \<Rightarrow> Ok (g\<lparr>dg_nodes := nodes, dg_indices := (dg_indices g)(key \<mapsto> index)\<rparr>)
      | Some previous \<Rightarrow>
          if previous < length nodes
          then Ok (g\<lparr>dg_nodes := nodes[previous := Zombie],
                     dg_indices := (dg_indices g)(key \<mapsto> index)\<rparr>)
          else Panic)"

definition insert_edge_from_root ::
    "'k \<Rightarrow> ('k, 'v) DependencyGraph \<Rightarrow> (('k, 'v) DependencyGraph, 'k DependencyError) result" where
  "insert_edge_from_root to g =
     and_then (get_index g to) (\<lambda>to_index.
       Ok (g\<lparr>dg_children := entry_insert ROOT_INDEX to_index (dg_children g),
             dg_parents := entry_insert to_index ROOT_INDEX (dg_parents g)\<rparr>))"

definition insert_edge ::
    "'k \<Rightarrow> 'k \<Rightarrow> ('k, 'v) DependencyGraph \<Rightarrow> (('k, 'v) DependencyGraph, 'k DependencyError) result" where
  "insert_edge frm to g =
     and_then (get_index g frm) (\<lambda>from_index.
     and_then (get_index g to) (\<lambda>to_index.
       Ok (g\<lparr>dg_children := entry_insert from_index to_index (dg_children g),
             dg_parents := entry_insert to_index from_index (dg_parents g)\<rparr>)))"

definition remove_edge ::
    "nat \<Rightarrow> nat \<Rightarrow> ('k, 'v) DependencyGraph \<Rightarrow> (('k, 'v) DependencyGraph, 'k DependencyError) result" where
  "remove_edge from_index to_index g =
     and_then (unwrap (map_of (dg_parents g) to_index)) (\<lambda>to_parents.
     let g = g\<lparr>dg_parents := AList.update to_index (remove1 from_index to_parents) (dg_parents g)\<rparr> in
     and_then (unwrap (map_of (dg_children g) from_index)) (\<lambda>from_children.
       Ok (g\<lparr>dg_children := AList.update from_index (remove1 to_index from_children) (dg_children g)\<rparr>)))"

definition is_orphaned :: "('k, 'v) DependencyGraph \<Rightarrow> ('k, 'v) Node \<Rightarrow> (bool, 'k DependencyError) result" where
  "is_orphaned g node =
     (case node of
        Data key _ \<Rightarrow>
          and_then (unwrap (dg_indices g key)) (\<lambda>index.
            Ok (case map_of (dg_parents g) index of Some vs \<Rightarrow> vs = [] | None \<Rightarrow> True))
      | Root \<Rightarrow> Ok False
      | Zombie \<Rightarrow> Ok False)"

text \<open>\<open>remove\<close>: \<open>mem::replace(&mut self.nodes[index], Zombie)\<close>.\<close>

definition remove_node ::
    "nat \<Rightarrow> ('k, 'v) DependencyGraph \<Rightarrow> ('v option \<times> ('k, 'v) DependencyGraph, 'k DependencyError) result" where
  "remove_node index g =
     and_then (vec_index (dg_nodes g) index) (\<lambda>node.
       Ok (case node of Data _ data \<Rightarrow> Some data | _ \<Rightarrow> None,
           g\<lparr>dg_nodes := (dg_nodes g)[index := Zombie]\<rparr>))"

text \<open>\<open>children.entry(index).or_default().clone()\<close> adds an empty entry when there is none.\<close>

definition clone_children ::
    "nat \<Rightarrow> ('k, 'v) DependencyGraph \<Rightarrow> nat list \<times> ('k, 'v) DependencyGraph" where
  "clone_children index g =
     (entry_of (dg_children g) index,
      g\<lparr>dg_children := AList.update index (entry_of (dg_children g) index) (dg_children g)\<rparr>)"

definition is_empty_graph :: "('k, 'v) DependencyGraph \<Rightarrow> bool" where
  "is_empty_graph g \<longleftrightarrow>
     list_all (\<lambda>(_, xs). xs = []) (dg_children g) \<and> list_all (\<lambda>(_, xs). xs = []) (dg_parents g)"

section \<open>Pruning\<close>

text \<open>\<open>nodes.iter().enumerate().find(|(_, node)| self.is_orphaned(node))\<close>, from index \<open>i\<close> on.\<close>

fun find_orphan ::
    "('k, 'v) DependencyGraph \<Rightarrow> nat \<Rightarrow> ('k, 'v) Node list \<Rightarrow> (nat option, 'k DependencyError) result" where
  "find_orphan g i [] = Ok None"
| "find_orphan g i (n # ns) =
     and_then (is_orphaned g n) (\<lambda>b. if b then Ok (Some i) else find_orphan g (Suc i) ns)"

fun remove_edges ::
    "nat \<Rightarrow> nat list \<Rightarrow> ('k, 'v) DependencyGraph \<Rightarrow> (('k, 'v) DependencyGraph, 'k DependencyError) result" where
  "remove_edges index [] g = Ok g"
| "remove_edges index (c # cs) g = and_then (remove_edge index c g) (remove_edges index cs)"

definition data_count :: "('k, 'v) Node list \<Rightarrow> nat" where
  "data_count ns = length (filter (\<lambda>n. case n of Data _ _ \<Rightarrow> True | _ \<Rightarrow> False) ns)"

lemma remove_edges_nodes: "remove_edges i cs g = Ok g' \<Longrightarrow> dg_nodes g' = dg_nodes g \<and> dg_indices g' = dg_indices g"
  by (induction cs arbitrary: g) (fastforce simp: remove_edge_def Let_def result_simps)+

lemma find_orphan_Some:
  "find_orphan g i ns = Ok (Some j) \<Longrightarrow>
   i \<le> j \<and> j - i < length ns \<and> is_orphaned g (ns ! (j - i)) = Ok True"
  by (induction g i ns rule: find_orphan.induct)
     (auto simp: result_simps nth_Cons' Suc_diff_le split: if_splits, fastforce+)

lemma data_count_Zombie:
  "i < length ns \<Longrightarrow> ns ! i = Data k v \<Longrightarrow> data_count (ns[i := Zombie]) < data_count ns"
proof (induction ns arbitrary: i)
  case (Cons n ns)
  then show ?case by (cases i) (auto simp: data_count_def split: Node.split)
qed simp

lemma orphan_is_data: "is_orphaned g n = Ok True \<Longrightarrow> \<exists>k v. n = Data k v"
  by (cases n) (auto simp: is_orphaned_def)

lemma prune_step_measure:
  assumes "find_orphan g 0 (dg_nodes g) = Ok (Some index)" and "remove_node index g = Ok (d, g1)"
    and "clone_children index g1 = (cs, g2)" and "remove_edges index ds g2 = Ok g3"
  shows "data_count (dg_nodes g3) < data_count (dg_nodes g)"
proof -
  from find_orphan_Some [OF assms(1)] obtain k v where
    "index < length (dg_nodes g)" "dg_nodes g ! index = Data k v"
    by (auto dest: orphan_is_data)
  moreover have "dg_nodes g3 = (dg_nodes g)[index := Zombie]"
    using assms(2,3) remove_edges_nodes [OF assms(4)]
    by (auto simp: remove_node_def clone_children_def result_simps)
  ultimately show ?thesis by (simp add: data_count_Zombie)
qed

function prune_orphans ::
    "(nat \<Rightarrow> nat list \<Rightarrow> nat list) \<Rightarrow> ('k, 'v) DependencyGraph
     \<Rightarrow> (('k, 'v) DependencyGraph, 'k DependencyError) result" where
  "prune_orphans ord g =
     and_then (find_orphan g 0 (dg_nodes g)) (\<lambda>found.
       case found of
         None \<Rightarrow> Ok g
       | Some index \<Rightarrow>
           and_then (remove_node index g) (\<lambda>(_, g).
             case clone_children index g of (child_indices, g) \<Rightarrow>
               and_then (remove_edges index (hash_iter ord index child_indices) g)
                 (prune_orphans ord)))"
  by pat_completeness auto
termination
  by (relation "measure (\<lambda>(_, g). data_count (dg_nodes g))") (auto intro: prune_step_measure [OF _ _ sym])

declare prune_orphans.simps [simp del]

section \<open>Resolution\<close>

text \<open>The inner loop of \<open>resolve\<close>: the children that lose their last parent are pushed.\<close>

fun release_children ::
    "nat \<Rightarrow> nat list \<Rightarrow> ('k, 'v) DependencyGraph \<Rightarrow> nat list
     \<Rightarrow> (('k, 'v) DependencyGraph \<times> nat list, 'k DependencyError) result" where
  "release_children index [] g next_indices = Ok (g, next_indices)"
| "release_children index (c # cs) g next_indices =
     and_then (remove_edge index c g) (\<lambda>g.
     and_then (vec_index (dg_nodes g) c) (\<lambda>node.
     and_then (is_orphaned g node) (\<lambda>b.
       release_children index cs g (if b then next_indices @ [c] else next_indices))))"

definition edge_count :: "('k, 'v) DependencyGraph \<Rightarrow> nat" where
  "edge_count g = sum_list (map (\<lambda>(_, xs). length xs) (dg_children g))"

lemma edge_count_update:
  "map_of m i = Some xs \<Longrightarrow>
   sum_list (map (\<lambda>(_, xs). length xs) (AList.update i ys m)) + length xs
   = sum_list (map (\<lambda>(_, xs). length xs) m) + length ys"
  by (induction m) (auto split: if_splits)

lemma edge_count_new:
  "map_of m i = None \<Longrightarrow>
   sum_list (map (\<lambda>(_, xs). length xs) (AList.update i [] m)) = sum_list (map (\<lambda>(_, xs). length xs) m)"
  by (induction m) (auto split: if_splits)

lemma edge_count_remove:
  assumes "remove_edge i c g = Ok g'" and "c \<in> set (entry_of (dg_children g) i)"
  shows "Suc (edge_count g') = edge_count g"
    and "entry_of (dg_children g') i = remove1 c (entry_of (dg_children g) i)"
proof -
  from assms obtain xs where xs: "map_of (dg_children g) i = Some xs" "c \<in> set xs"
    and g': "dg_children g' = AList.update i (remove1 c xs) (dg_children g)"
    by (auto simp: remove_edge_def Let_def entry_of_def result_simps split: option.splits)
  have l: "length xs = Suc (length (remove1 c xs))"
    using xs(2) by (metis One_nat_def Suc_pred length_pos_if_in_set length_remove1)
  show "Suc (edge_count g') = edge_count g"
    using edge_count_update [OF xs(1), of "remove1 c xs"] l by (simp add: edge_count_def g')
  show "entry_of (dg_children g') i = remove1 c (entry_of (dg_children g) i)"
    by (simp add: g' entry_of_def xs(1) update_conv)
qed

lemma release_children_measure:
  assumes "release_children i cs g st = Ok (g', st')" and "mset cs \<subseteq># mset (entry_of (dg_children g) i)"
  shows "edge_count g' + length st' \<le> edge_count g + length st"
  using assms
proof (induction cs arbitrary: g st)
  case (Cons c cs)
  then obtain g1 n b where step: "remove_edge i c g = Ok g1"
    "release_children i cs g1 (if b then st @ [c] else st) = Ok (g', st')"
    by (auto simp: result_simps)
  have c: "c \<in> set (entry_of (dg_children g) i)"
    using Cons.prems(2) by (metis mset_subset_eqD list.set_intros(1) set_mset_mset)
  note rm = edge_count_remove [OF step(1) c]
  have "mset cs \<subseteq># mset (entry_of (dg_children g1) i)"
    using Cons.prems(2) unfolding rm(2) by (simp add: insert_subset_eq_iff)
  from Cons.IH [OF step(2) this] rm(1) show ?case by (auto split: if_splits)
qed simp

lemma clone_children_count: "clone_children i g = (cs, g') \<Longrightarrow> edge_count g' = edge_count g \<and> cs = entry_of (dg_children g') i"
  using edge_count_update [of "dg_children g" i cs cs] edge_count_new [of "dg_children g" i]
  by (cases "map_of (dg_children g) i")
     (auto simp: clone_children_def edge_count_def entry_of_def update_conv)

lemma resolve_step_measure:
  assumes "st \<noteq> []" and "remove_node i g = Ok (d, g1)" and "clone_children i g1 = (cs, g2)"
    and "release_children i (hash_iter ord i cs) g2 (butlast st) = Ok (g3, st3)"
  shows "edge_count g3 + length st3 < edge_count g + length st"
proof -
  have "edge_count g1 = edge_count g"
    using assms(2) by (auto simp: remove_node_def edge_count_def result_simps)
  moreover note clone_children_count [OF assms(3)]
  moreover from this have "edge_count g3 + length st3 \<le> edge_count g2 + length (butlast st)"
    by (intro release_children_measure [OF assms(4)]) simp
  ultimately show ?thesis
    using assms(1) by (cases st rule: rev_cases) auto
qed

text \<open>The outer loop; \<open>next_indices\<close> is popped at its end.\<close>

function resolve_loop ::
    "(nat \<Rightarrow> nat list \<Rightarrow> nat list) \<Rightarrow> ('k, 'v) DependencyGraph \<Rightarrow> nat list \<Rightarrow> 'v list
     \<Rightarrow> (('k, 'v) DependencyGraph \<times> 'v list, 'k DependencyError) result" where
  "resolve_loop ord g next_indices res =
     (if next_indices = [] then Ok (g, res)
      else
        let index = last next_indices; next_indices = butlast next_indices in
        and_then (remove_node index g) (\<lambda>(data, g).
        let res = (case data of Some d \<Rightarrow> res @ [d] | None \<Rightarrow> res) in
        case clone_children index g of (child_indices, g) \<Rightarrow>
          and_then (release_children index (hash_iter ord index child_indices) g next_indices)
            (\<lambda>(g, next_indices). resolve_loop ord g next_indices res)))"
  by pat_completeness auto
termination
  by (relation "measure (\<lambda>(_, g, st, _). edge_count g + length st)")
     (auto intro: resolve_step_measure [OF _ _ sym])

declare resolve_loop.simps [simp del]

definition resolve ::
    "(nat \<Rightarrow> nat list \<Rightarrow> nat list) \<Rightarrow> ('k, 'v) DependencyGraph \<Rightarrow> ('v list, 'k DependencyError) result" where
  "resolve ord g =
     and_then (prune_orphans ord g) (\<lambda>g.
     and_then (resolve_loop ord g [ROOT_INDEX] []) (\<lambda>(g, res).
       if is_empty_graph g then Ok res else Err CircularDependency))"

end
