(* ===== verification/Dep_Graph_Correct.thy ===== *)
theory Dep_Graph_Correct
  imports Dep_Graph
begin

text \<open>
  Resolution of a dependency graph never panics, reports a circular dependency exactly when the
  graph has a cycle, and otherwise returns the libraries that the root depends on, each before
  the libraries it depends on itself.
\<close>

section \<open>Edges\<close>

abbreviation children_of :: "('k, 'v) DependencyGraph \<Rightarrow> nat \<Rightarrow> nat list" where
  "children_of g \<equiv> entry_of (dg_children g)"

abbreviation parents_of :: "('k, 'v) DependencyGraph \<Rightarrow> nat \<Rightarrow> nat list" where
  "parents_of g \<equiv> entry_of (dg_parents g)"

definition edges :: "('k, 'v) DependencyGraph \<Rightarrow> (nat \<times> nat) set" where
  "edges g = {(i, j). j \<in> set (children_of g i)}"

definition edge_inv :: "('k, 'v) DependencyGraph \<Rightarrow> bool" where
  "edge_inv g \<longleftrightarrow>
     (\<forall>i j. j \<in> set (children_of g i) \<longleftrightarrow> i \<in> set (parents_of g j))
     \<and> (\<forall>i. distinct (children_of g i) \<and> distinct (parents_of g i))
     \<and> distinct (map fst (dg_children g)) \<and> distinct (map fst (dg_parents g))"

lemma entry_of_update: "entry_of (AList.update i xs m) = (entry_of m)(i := xs)"
  by (rule ext) (simp add: entry_of_def update_conv)

lemma edge_inv_parents: "edge_inv g \<Longrightarrow> set (parents_of g j) = {i. (i, j) \<in> edges g}"
  unfolding edge_inv_def edges_def by blast

lemma remove_edge_spec:
  assumes inv: "edge_inv g" and "(i, c) \<in> edges g"
  obtains g' where "remove_edge i c g = Ok g'" and "edge_inv g'" and "edges g' = edges g - {(i, c)}"
    and "dg_nodes g' = dg_nodes g" and "dg_indices g' = dg_indices g"
proof -
  have "c \<in> set (children_of g i)" "i \<in> set (parents_of g c)"
    using assms by (auto simp: edges_def edge_inv_def)
  then obtain cs ps where m: "map_of (dg_children g) i = Some cs" "map_of (dg_parents g) c = Some ps"
    by (cases "map_of (dg_children g) i"; cases "map_of (dg_parents g) c") (auto simp: entry_of_def)
  then have e: "children_of g i = cs" "parents_of g c = ps"
    by (simp_all add: entry_of_def)
  let ?g = "g\<lparr>dg_children := AList.update i (remove1 c cs) (dg_children g),
              dg_parents := AList.update c (remove1 i ps) (dg_parents g)\<rparr>"
  have d: "distinct cs" "distinct ps"
    using inv e by (auto simp: edge_inv_def)
  have "remove_edge i c g = Ok ?g"
    using m by (simp add: remove_edge_def)
  moreover have ch: "set (children_of ?g a) = (if a = i then set (children_of g i) - {c} else set (children_of g a))"
    and pa: "set (parents_of ?g a) = (if a = c then set (parents_of g c) - {i} else set (parents_of g a))" for a
    using d e by (simp_all add: entry_of_update)
  have "edges ?g = edges g - {(i, c)}"
    unfolding edges_def ch by (auto split: if_splits)
  moreover have "edge_inv ?g"
  proof -
    have "b \<in> set (children_of ?g a) \<longleftrightarrow> a \<in> set (parents_of ?g b)" for a b
      using inv unfolding ch pa edge_inv_def by auto
    moreover have "distinct (children_of ?g a)" "distinct (parents_of ?g a)" for a
      using inv d by (simp_all add: entry_of_update edge_inv_def)
    ultimately show ?thesis
      using inv by (simp add: edge_inv_def distinct_update)
  qed
  ultimately show thesis using that [of ?g] by simp
qed

lemma remove_edges_spec:
  assumes "edge_inv g" and "distinct cs" and "{i} \<times> set cs \<subseteq> edges g"
  shows "\<exists>g'. remove_edges i cs g = Ok g' \<and> edge_inv g' \<and> edges g' = edges g - {i} \<times> set cs
    \<and> dg_nodes g' = dg_nodes g \<and> dg_indices g' = dg_indices g"
  using assms
proof (induction cs arbitrary: g)
  case (Cons c cs)
  obtain g1 where g1: "remove_edge i c g = Ok g1" "edge_inv g1" "edges g1 = edges g - {(i, c)}"
    "dg_nodes g1 = dg_nodes g" "dg_indices g1 = dg_indices g"
    using remove_edge_spec [of g i c] Cons.prems by auto
  have "{i} \<times> set cs \<subseteq> edges g1"
    using Cons.prems g1(3) by auto
  from Cons.IH [OF g1(2) _ this] Cons.prems g1 show ?case by auto
qed auto

lemma clone_children_spec:
  assumes "clone_children i g = (cs, g')" and "edge_inv g"
  shows "edges g' = edges g \<and> edge_inv g' \<and> cs = children_of g i \<and> dg_nodes g' = dg_nodes g
    \<and> dg_indices g' = dg_indices g"
proof -
  have "entry_of (AList.update i (children_of g i) (dg_children g)) = children_of g"
    by (rule ext) (simp add: entry_of_update)
  with assms show ?thesis
    by (auto simp: clone_children_def edges_def edge_inv_def distinct_update)
qed

section \<open>The graph invariant\<close>

text \<open>Before resolution: node 0 is the root, indices are exact, edges join live nodes.\<close>

definition live :: "('k, 'v) DependencyGraph \<Rightarrow> nat set" where
  "live g = {i. i < length (dg_nodes g) \<and> dg_nodes g ! i \<noteq> Zombie}"

definition graph_inv :: "('k, 'v) DependencyGraph \<Rightarrow> bool" where
  "graph_inv g \<longleftrightarrow>
     dg_nodes g \<noteq> [] \<and> dg_nodes g ! 0 = Root \<and> (\<forall>i\<in>live g. i \<noteq> 0 \<longrightarrow> dg_nodes g ! i \<noteq> Root)
     \<and> (\<forall>k i. dg_indices g k = Some i \<longleftrightarrow> i < length (dg_nodes g) \<and> (\<exists>v. dg_nodes g ! i = Data k v))
     \<and> edge_inv g \<and> edges g \<subseteq> live g \<times> (live g - {0})"

lemma index_live: "graph_inv g \<Longrightarrow> dg_indices g k = Some i \<Longrightarrow> i \<in> live g - {0} \<and> (\<exists>v. dg_nodes g ! i = Data k v)"
proof -
  assume inv: "graph_inv g" and "dg_indices g k = Some i"
  then have "i < length (dg_nodes g)" "\<exists>v. dg_nodes g ! i = Data k v"
    unfolding graph_inv_def by blast+
  moreover from this inv have "i \<noteq> 0"
    unfolding graph_inv_def by (cases "i = 0") auto
  ultimately show ?thesis by (auto simp: live_def)
qed

lemma root_live: "graph_inv g \<Longrightarrow> 0 \<in> live g"
  by (simp add: graph_inv_def live_def)

lemma graph_inv_edges:
  assumes "graph_inv g" and "dg_nodes g' = dg_nodes g" and "dg_indices g' = dg_indices g"
    and "edge_inv g'" and "edges g' \<subseteq> live g \<times> (live g - {0})"
  shows "graph_inv g'"
  using assms unfolding graph_inv_def live_def by simp

lemma new_graph_inv: "graph_inv new_graph"
  unfolding graph_inv_def new_graph_def live_def edge_inv_def edges_def entry_of_def
  by simp (metis Node.distinct(1) gr0I nth_Cons_0)

lemma entry_insert_edges:
  assumes "edge_inv g"
    and "g' = g\<lparr>dg_children := entry_insert i j (dg_children g), dg_parents := entry_insert j i (dg_parents g)\<rparr>"
  shows "edge_inv g' \<and> edges g' = insert (i, j) (edges g)"
proof -
  have ch: "set (children_of g' a) = (if a = i then insert j (set (children_of g i)) else set (children_of g a))"
    and pa: "set (parents_of g' a) = (if a = j then insert i (set (parents_of g j)) else set (parents_of g a))" for a
    by (auto simp: assms(2) entry_insert_def entry_of_update)
  have "distinct (children_of g' a)" "distinct (parents_of g' a)"
    "distinct (map fst (dg_children g'))" "distinct (map fst (dg_parents g'))" for a
    using assms(1) by (auto simp: assms(2) edge_inv_def entry_insert_def entry_of_update distinct_update)
  moreover have "b \<in> set (children_of g' a) \<longleftrightarrow> a \<in> set (parents_of g' b)" for a b
    using assms(1) by (auto simp: ch pa edge_inv_def)
  moreover have "edges g' = insert (i, j) (edges g)"
    by (auto simp: edges_def ch split: if_splits)
  ultimately show ?thesis by (simp add: edge_inv_def)
qed

lemma insert_edge_inv:
  assumes "graph_inv g" and "insert_edge a b g = Ok g'"
  shows "\<exists>i j. dg_indices g a = Some i \<and> dg_indices g b = Some j \<and> graph_inv g'
    \<and> edges g' = insert (i, j) (edges g) \<and> dg_nodes g' = dg_nodes g \<and> dg_indices g' = dg_indices g"
proof -
  from assms(2) obtain i j where ij: "dg_indices g a = Some i" "dg_indices g b = Some j"
    and g': "g' = g\<lparr>dg_children := entry_insert i j (dg_children g), dg_parents := entry_insert j i (dg_parents g)\<rparr>"
    by (auto simp: insert_edge_def get_index_def result_simps)
  have "edge_inv g' \<and> edges g' = insert (i, j) (edges g)"
    using assms(1) g' by (intro entry_insert_edges) (simp add: graph_inv_def)
  moreover have "edges g \<subseteq> live g \<times> (live g - {0})"
    using assms(1) by (simp add: graph_inv_def)
  ultimately have "graph_inv g'"
    using index_live [OF assms(1) ij(1)] index_live [OF assms(1) ij(2)]
    by (intro graph_inv_edges [OF assms(1)]) (auto simp: g')
  with \<open>edge_inv g' \<and> _\<close> ij show ?thesis by (simp add: g')
qed

lemma insert_edge_from_root_inv:
  assumes "graph_inv g" and "insert_edge_from_root b g = Ok g'"
  shows "\<exists>j. dg_indices g b = Some j \<and> graph_inv g'
    \<and> edges g' = insert (0, j) (edges g) \<and> dg_nodes g' = dg_nodes g \<and> dg_indices g' = dg_indices g"
proof -
  from assms(2) obtain j where j: "dg_indices g b = Some j"
    and g': "g' = g\<lparr>dg_children := entry_insert 0 j (dg_children g), dg_parents := entry_insert j 0 (dg_parents g)\<rparr>"
    by (auto simp: insert_edge_from_root_def get_index_def ROOT_INDEX_def result_simps)
  have "edge_inv g' \<and> edges g' = insert (0, j) (edges g)"
    using assms(1) g' by (intro entry_insert_edges) (simp add: graph_inv_def)
  moreover have "edges g \<subseteq> live g \<times> (live g - {0})"
    using assms(1) by (simp add: graph_inv_def)
  ultimately have "graph_inv g'"
    using index_live [OF assms(1) j] root_live [OF assms(1)]
    by (intro graph_inv_edges [OF assms(1)]) (auto simp: g')
  with \<open>edge_inv g' \<and> _\<close> j show ?thesis by (simp add: g')
qed


section \<open>Progress of the removal\<close>

text \<open>
  \<open>removed g0 g d\<close>: the nodes \<open>d\<close> have been removed from \<open>g0\<close>, in this order, each after all nodes
  with an edge to it. Pruning and resolving both proceed by such steps.
\<close>

definition ordered :: "(nat \<times> nat) set \<Rightarrow> nat list \<Rightarrow> bool" where
  "ordered E d \<longleftrightarrow> (\<forall>ys x zs. d = ys @ x # zs \<longrightarrow> (\<forall>i. (i, x) \<in> E \<longrightarrow> i \<in> set ys))"

definition removed :: "('k, 'v) DependencyGraph \<Rightarrow> ('k, 'v) DependencyGraph \<Rightarrow> nat list \<Rightarrow> bool" where
  "removed g0 g d \<longleftrightarrow>
     graph_inv g0 \<and> edge_inv g \<and> dg_indices g = dg_indices g0
     \<and> length (dg_nodes g) = length (dg_nodes g0)
     \<and> (\<forall>i < length (dg_nodes g0). dg_nodes g ! i = (if i \<in> set d then Zombie else dg_nodes g0 ! i))
     \<and> edges g = {(i, j) \<in> edges g0. i \<notin> set d}
     \<and> distinct d \<and> set d \<subseteq> live g0 \<and> ordered (edges g0) d"

lemma ordered_Nil [simp]: "ordered E []"
  by (simp add: ordered_def)

lemma ordered_snoc: "ordered E (d @ [x]) \<longleftrightarrow> ordered E d \<and> (\<forall>i. (i, x) \<in> E \<longrightarrow> i \<in> set d)"
proof
  assume o: "ordered E (d @ [x])"
  have "i \<in> set ys" if "d = ys @ y # zs" "(i, y) \<in> E" for ys y zs i
    using o that unfolding ordered_def by (metis append.assoc append_Cons)
  moreover have "i \<in> set d" if "(i, x) \<in> E" for i
    using o that unfolding ordered_def by metis
  ultimately show "ordered E d \<and> (\<forall>i. (i, x) \<in> E \<longrightarrow> i \<in> set d)"
    unfolding ordered_def by blast
next
  assume o: "ordered E d \<and> (\<forall>i. (i, x) \<in> E \<longrightarrow> i \<in> set d)"
  have "i \<in> set ys" if "d @ [x] = ys @ y # zs" "(i, y) \<in> E" for ys y zs i
  proof (cases zs rule: rev_cases)
    case Nil
    with that o show ?thesis by simp
  next
    case (snoc zs' z)
    with that(1) have "d = ys @ y # zs'" by simp
    with that(2) o show ?thesis unfolding ordered_def by blast
  qed
  then show "ordered E (d @ [x])" unfolding ordered_def by blast
qed

lemma removed_refl: "graph_inv g \<Longrightarrow> removed g g []"
  by (simp add: removed_def graph_inv_def case_prod_beta')

lemma removed_live: "removed g0 g d \<Longrightarrow> live g = live g0 - set d"
  by (auto simp: removed_def live_def split: if_splits)

lemma removed_snoc:
  assumes r: "removed g0 g d" and x: "x \<in> live g" and no_parent: "\<And>i. (i, x) \<notin> edges g"
    and g': "edge_inv g'" "dg_indices g' = dg_indices g" "dg_nodes g' = (dg_nodes g)[x := Zombie]"
      "edges g' = edges g - {x} \<times> UNIV"
  shows "removed g0 g' (d @ [x])"
proof -
  have x': "x \<in> live g0" "x \<notin> set d"
    using x removed_live [OF r] by auto
  then have "x < length (dg_nodes g)" "length (dg_nodes g) = length (dg_nodes g0)"
    using r by (auto simp: removed_def live_def)
  then have "\<forall>i < length (dg_nodes g0). dg_nodes g' ! i = (if i \<in> set (d @ [x]) then Zombie else dg_nodes g0 ! i)"
    using r by (auto simp: removed_def g'(3) nth_list_update)
  moreover have "ordered (edges g0) (d @ [x])"
    using r no_parent by (auto simp: removed_def ordered_snoc)
  moreover have "edges g' = {(i, j) \<in> edges g0. i \<notin> set (d @ [x])}"
    using r unfolding g'(4) by (auto simp: removed_def)
  ultimately show ?thesis
    using r x' g'(1-3) by (simp add: removed_def)
qed

lemma removed_orphan:
  assumes r: "removed g0 g d" and n: "i < length (dg_nodes g)" "dg_nodes g ! i = n"
  shows "is_orphaned g n = Ok (i \<in> live g - {0} \<and> (\<forall>k. (k, i) \<notin> edges g))"
proof (cases n)
  case (Data k v)
  then have d: "dg_nodes g0 ! i = Data k v" "i < length (dg_nodes g0)"
    using r n by (auto simp: removed_def split: if_splits)
  then have idx: "dg_indices g k = Some i"
    using r unfolding removed_def graph_inv_def by metis
  have "i \<in> live g - {0}"
    using index_live [of g0 k i] r idx n Data by (auto simp: removed_def live_def)
  moreover have "set (parents_of g i) = {} \<longleftrightarrow> (\<forall>k. (k, i) \<notin> edges g)"
    using r edge_inv_parents [of g i] by (auto simp: removed_def)
  ultimately show ?thesis
    by (auto simp: is_orphaned_def Data idx entry_of_def split: option.splits)
next
  case Root
  with r n have "dg_nodes g0 ! i = Root" "i < length (dg_nodes g0)"
    by (auto simp: removed_def split: if_splits)
  then have "i = 0"
    using r by (cases "i = 0") (auto simp: removed_def graph_inv_def live_def)
  with Root show ?thesis by (simp add: is_orphaned_def)
next
  case Zombie
  with n show ?thesis by (simp add: is_orphaned_def live_def)
qed

section \<open>Pruning\<close>

lemma find_orphan_suffix:
  assumes r: "removed g0 g d" and "ns = drop i (dg_nodes g)"
  shows "\<exists>res. find_orphan g i ns = Ok res \<and>
    (case res of
       Some j \<Rightarrow> j \<in> live g - {0} \<and> (\<forall>k. (k, j) \<notin> edges g)
     | None \<Rightarrow> \<forall>j\<in>live g - {0}. i \<le> j \<longrightarrow> (\<exists>k. (k, j) \<in> edges g))"
  using assms(2)
proof (induction ns arbitrary: i)
  case Nil
  then show ?case by (auto simp: live_def)
next
  case (Cons n ns)
  then have n: "i < length (dg_nodes g)" "dg_nodes g ! i = n" "ns = drop (Suc i) (dg_nodes g)"
    by (metis drop_eq_Nil list.distinct(1) not_le_imp_less,
        metis nth_via_drop, metis drop_Suc list.sel(3) tl_drop)
  note orphan = removed_orphan [OF r n(1,2)]
  show ?case
  proof (cases "i \<in> live g - {0} \<and> (\<forall>k. (k, i) \<notin> edges g)")
    case True
    with orphan show ?thesis by simp
  next
    case False
    from Cons.IH [OF n(3)] obtain res where res: "find_orphan g (Suc i) ns = Ok res"
      "case res of
         Some j \<Rightarrow> j \<in> live g - {0} \<and> (\<forall>k. (k, j) \<notin> edges g)
       | None \<Rightarrow> \<forall>j\<in>live g - {0}. Suc i \<le> j \<longrightarrow> (\<exists>k. (k, j) \<in> edges g)"
      by blast
    have "j = i \<or> Suc i \<le> j" if "i \<le> j" for j
      using that by linarith
    with False orphan res show ?thesis
      by (auto split: option.splits)
  qed
qed

lemma find_orphan_spec:
  assumes "removed g0 g d"
  obtains (found) j where "find_orphan g 0 (dg_nodes g) = Ok (Some j)" and "j \<in> live g - {0}"
      and "\<And>k. (k, j) \<notin> edges g"
    | (none) "find_orphan g 0 (dg_nodes g) = Ok None" and "\<forall>j\<in>live g - {0}. \<exists>k. (k, j) \<in> edges g"
proof -
  from find_orphan_suffix [OF assms, of "dg_nodes g" 0] obtain res where
    "find_orphan g 0 (dg_nodes g) = Ok res"
    "case res of
       Some j \<Rightarrow> j \<in> live g - {0} \<and> (\<forall>k. (k, j) \<notin> edges g)
     | None \<Rightarrow> \<forall>j\<in>live g - {0}. 0 \<le> j \<longrightarrow> (\<exists>k. (k, j) \<in> edges g)"
    by auto
  with that show thesis by (cases res) auto
qed

lemma remove_clone_spec:
  assumes r: "removed g0 g d" and x: "x \<in> live g"
  obtains g1 cs g2 where "remove_node x g = Ok (case dg_nodes g0 ! x of Data _ v \<Rightarrow> Some v | _ \<Rightarrow> None, g1)"
    and "clone_children x g1 = (cs, g2)" and "edge_inv g2" and "edges g2 = edges g" and "set cs = {c. (x, c) \<in> edges g}"
    and "distinct cs" and "dg_nodes g2 = (dg_nodes g)[x := Zombie]" and "dg_indices g2 = dg_indices g"
proof -
  let ?g1 = "g\<lparr>dg_nodes := (dg_nodes g)[x := Zombie]\<rparr>"
  have "x < length (dg_nodes g)" "dg_nodes g ! x = dg_nodes g0 ! x"
    using x r removed_live [OF r] by (auto simp: live_def removed_def)
  then have rm: "remove_node x g = Ok (case dg_nodes g0 ! x of Data _ v \<Rightarrow> Some v | _ \<Rightarrow> None, ?g1)"
    by (simp add: remove_node_def vec_index_def)
  have inv: "edge_inv ?g1" "edges ?g1 = edges g"
    using r by (auto simp: removed_def edge_inv_def edges_def)
  obtain cs g2 where cl: "clone_children x ?g1 = (cs, g2)" by force
  note spec = clone_children_spec [OF cl inv(1)]
  have "distinct cs" "set cs = {c. (x, c) \<in> edges g}"
    using spec inv by (auto simp: edge_inv_def edges_def)
  with that [OF rm cl] spec inv(2) show thesis by simp
qed

lemma take_out:
  assumes r: "removed g0 g d" and x: "x \<in> live g" and no_parent: "\<And>k. (k, x) \<notin> edges g"
  obtains g1 cs g2 g3 where "remove_node x g = Ok (case dg_nodes g0 ! x of Data _ v \<Rightarrow> Some v | _ \<Rightarrow> None, g1)"
    and "clone_children x g1 = (cs, g2)"
    and "remove_edges x (hash_iter ord x cs) g2 = Ok g3" and "removed g0 g3 (d @ [x])"
proof -
  from remove_clone_spec [OF r x] obtain g1 cs g2 where
    g2: "remove_node x g = Ok (case dg_nodes g0 ! x of Data _ v \<Rightarrow> Some v | _ \<Rightarrow> None, g1)"
      "clone_children x g1 = (cs, g2)" "edge_inv g2" "edges g2 = edges g" "set cs = {c. (x, c) \<in> edges g}"
      "distinct cs" "dg_nodes g2 = (dg_nodes g)[x := Zombie]" "dg_indices g2 = dg_indices g"
    by blast
  have "{x} \<times> set (hash_iter ord x cs) \<subseteq> edges g2"
    using g2(4,5) by auto
  from remove_edges_spec [OF g2(3) _ this] g2(6) obtain g3 where
    g3: "remove_edges x (hash_iter ord x cs) g2 = Ok g3" "edge_inv g3"
      "edges g3 = edges g2 - {x} \<times> set (hash_iter ord x cs)" "dg_nodes g3 = dg_nodes g2" "dg_indices g3 = dg_indices g2"
    by auto
  have "edges g3 = edges g - {x} \<times> UNIV"
    using g2(4,5) g3(3) by auto
  then have "removed g0 g3 (d @ [x])"
    using g2(7,8) g3(2,4,5) by (intro removed_snoc [OF r x no_parent]) auto
  with that [OF g2(1,2) g3(1)] show thesis .
qed

text \<open>Pruning removes no node that the root reaches, and leaves every other node a parent.\<close>

definition unreachable :: "('k, 'v) DependencyGraph \<Rightarrow> nat list \<Rightarrow> bool" where
  "unreachable g0 d \<longleftrightarrow> (\<forall>i\<in>set d. (0, i) \<notin> (edges g0)\<^sup>*)"

lemma unreachable_snoc:
  assumes r: "removed g0 g d" and "unreachable g0 d" and "x \<noteq> 0" and no_parent: "\<And>k. (k, x) \<notin> edges g"
  shows "unreachable g0 (d @ [x])"
proof -
  have "(0, x) \<notin> (edges g0)\<^sup>*"
  proof
    assume "(0, x) \<in> (edges g0)\<^sup>*"
    with assms(3) obtain k where "(0, k) \<in> (edges g0)\<^sup>*" "(k, x) \<in> edges g0"
      by (metis rtranclE)
    moreover from this no_parent r have "k \<in> set d"
      by (auto simp: removed_def)
    ultimately show False
      using assms(2) by (simp add: unreachable_def)
  qed
  with assms(2) show ?thesis by (simp add: unreachable_def)
qed

lemma prune_orphans_spec:
  assumes "removed g0 g d" and "unreachable g0 d"
  shows "\<exists>g' d'. prune_orphans ord g = Ok g' \<and> removed g0 g' d' \<and> unreachable g0 d'
    \<and> (\<forall>j\<in>live g' - {0}. \<exists>k. (k, j) \<in> edges g')"
  using assms
proof (induction ord g arbitrary: d rule: prune_orphans.induct)
  case (1 ord g)
  from "1.prems"(1) show ?case
  proof (cases rule: find_orphan_spec)
    case (found j)
    have j: "j \<in> live g" "j \<noteq> 0"
      using found(2) by auto
    from take_out [OF "1.prems"(1) j(1) found(3), of ord] obtain g1 cs g2 g3 where
      step: "remove_node j g = Ok (case dg_nodes g0 ! j of Data _ v \<Rightarrow> Some v | _ \<Rightarrow> None, g1)"
        "clone_children j g1 = (cs, g2)" "remove_edges j (hash_iter ord j cs) g2 = Ok g3" "removed g0 g3 (d @ [j])"
      by blast
    have "unreachable g0 (d @ [j])"
      using "1.prems" j(2) found(3) by (rule unreachable_snoc)
    from "1.IH" [OF found(1) refl step(1) refl step(2) [symmetric] step(3,4) this]
    show ?thesis
      by (subst prune_orphans.simps) (simp add: found(1) step(1-3))
  next
    case none
    with "1.prems" show ?thesis
      by (subst prune_orphans.simps) auto
  qed
qed

section \<open>Resolution\<close>

lemma release_children_spec:
  assumes "edge_inv g" and "distinct cs" and "{x} \<times> set cs \<subseteq> edges g" and "set cs \<subseteq> {..<length (dg_nodes g)}"
    and orphan: "\<And>g' c. c \<in> set cs \<Longrightarrow> edge_inv g' \<Longrightarrow> dg_nodes g' = dg_nodes g \<Longrightarrow>
      dg_indices g' = dg_indices g \<Longrightarrow> is_orphaned g' (dg_nodes g ! c) = Ok (\<forall>k. (k, c) \<notin> edges g')"
  shows "\<exists>g'. release_children x cs g st
      = Ok (g', st @ filter (\<lambda>c. \<forall>k. (k, c) \<in> edges g \<longrightarrow> k = x) cs)
    \<and> edge_inv g' \<and> edges g' = edges g - {x} \<times> set cs
    \<and> dg_nodes g' = dg_nodes g \<and> dg_indices g' = dg_indices g"
  using assms
proof (induction cs arbitrary: g st)
  case (Cons c cs)
  obtain g1 where g1: "remove_edge x c g = Ok g1" "edge_inv g1" "edges g1 = edges g - {(x, c)}"
    "dg_nodes g1 = dg_nodes g" "dg_indices g1 = dg_indices g"
    using remove_edge_spec [of g x c] Cons.prems(1,3) by auto
  let ?b = "\<forall>k. (k, c) \<in> edges g \<longrightarrow> k = x"
  have b: "is_orphaned g1 (dg_nodes g ! c) = Ok ?b"
    using Cons.prems(5) [of c g1] g1 by auto
  have "{x} \<times> set cs \<subseteq> edges g1" "set cs \<subseteq> {..<length (dg_nodes g1)}"
    using Cons.prems(2-4) g1(3,4) by auto
  from Cons.IH [OF g1(2) _ this, of "if ?b then st @ [c] else st"] Cons.prems(2,5) g1 obtain g' where
    g': "release_children x cs g1 (if ?b then st @ [c] else st)
        = Ok (g', (if ?b then st @ [c] else st) @ filter (\<lambda>c. \<forall>k. (k, c) \<in> edges g1 \<longrightarrow> k = x) cs)"
      "edge_inv g'" "edges g' = edges g1 - {x} \<times> set cs" "dg_nodes g' = dg_nodes g1" "dg_indices g' = dg_indices g1"
    by auto
  have "filter (\<lambda>c. \<forall>k. (k, c) \<in> edges g1 \<longrightarrow> k = x) cs = filter (\<lambda>c. \<forall>k. (k, c) \<in> edges g \<longrightarrow> k = x) cs"
    using Cons.prems(2) by (intro filter_cong) (auto simp: g1(3))
  with g' g1 b Cons.prems(4) show ?case
    by (auto simp: vec_index_def)
qed auto

lemma data_orphan:
  assumes "edge_inv g" and "dg_indices g k = Some c"
  shows "is_orphaned g (Data k v) = Ok (\<forall>i. (i, c) \<notin> edges g)"
proof -
  have "set (parents_of g c) = {} \<longleftrightarrow> (\<forall>i. (i, c) \<notin> edges g)"
    using edge_inv_parents [OF assms(1), of c] by auto
  then show ?thesis
    by (auto simp: is_orphaned_def assms(2) entry_of_def split: option.splits)
qed

text \<open>
  The loop keeps on its stack exactly the live nodes without a parent, all of them reachable
  from the root.
\<close>

definition ready :: "('k, 'v) DependencyGraph \<Rightarrow> nat set" where
  "ready g = {j \<in> live g. \<forall>k. (k, j) \<notin> edges g}"

definition loop_inv :: "('k, 'v) DependencyGraph \<Rightarrow> ('k, 'v) DependencyGraph \<Rightarrow> nat list \<Rightarrow> nat list \<Rightarrow> bool" where
  "loop_inv g0 g d st \<longleftrightarrow>
     removed g0 g d \<and> distinct st \<and> set st = ready g \<and> (\<forall>x\<in>set st. (0, x) \<in> (edges g0)\<^sup>*)"

definition node_data :: "('k, 'v) DependencyGraph \<Rightarrow> nat list \<Rightarrow> 'v list" where
  "node_data g0 L = concat (map (\<lambda>i. case dg_nodes g0 ! i of Data _ v \<Rightarrow> [v] | _ \<Rightarrow> []) L)"

lemma removed_child:
  assumes r: "removed g0 g d" and "(x, c) \<in> edges g" and no_parent: "\<And>k. (k, x) \<notin> edges g"
  shows "c \<in> live g" and "c \<noteq> x" and "c \<noteq> 0" and "\<exists>k v. dg_nodes g0 ! c = Data k v \<and> dg_indices g k = Some c"
proof -
  have e: "(x, c) \<in> edges g0" "x \<notin> set d" "c \<in> live g0" "c \<noteq> 0"
    using r assms(2) by (auto simp: removed_def graph_inv_def)
  then have "c \<notin> set d"
    using r by (metis in_set_conv_decomp ordered_def removed_def Un_iff set_append)
  with e(3) show "c \<in> live g"
    using removed_live [OF r] by simp
  show "c \<noteq> x"
    using assms(2) no_parent by auto
  show "c \<noteq> 0" by (rule e(4))
  show "\<exists>k v. dg_nodes g0 ! c = Data k v \<and> dg_indices g k = Some c"
    using r e(3,4) unfolding removed_def graph_inv_def live_def
    by (cases "dg_nodes g0 ! c") auto
qed

lemma release_step:
  assumes r: "removed g0 g d" and x: "x \<in> live g" "\<And>k. (k, x) \<notin> edges g"
  obtains g1 cs g2 g3 where
    "remove_node x g = Ok (case dg_nodes g0 ! x of Data _ v \<Rightarrow> Some v | _ \<Rightarrow> None, g1)"
    and "clone_children x g1 = (cs, g2)" and "set cs = {c. (x, c) \<in> edges g}" and "distinct cs"
    and "release_children x (hash_iter ord x cs) g2 st
      = Ok (g3, st @ filter (\<lambda>c. \<forall>k. (k, c) \<in> edges g \<longrightarrow> k = x) (hash_iter ord x cs))"
    and "removed g0 g3 (d @ [x])"
proof -
  from remove_clone_spec [OF r x(1)] obtain g1 cs g2 where
    g2: "remove_node x g = Ok (case dg_nodes g0 ! x of Data _ v \<Rightarrow> Some v | _ \<Rightarrow> None, g1)"
      "clone_children x g1 = (cs, g2)" "edge_inv g2" "edges g2 = edges g" "set cs = {c. (x, c) \<in> edges g}"
      "distinct cs" "dg_nodes g2 = (dg_nodes g)[x := Zombie]" "dg_indices g2 = dg_indices g"
    by blast
  have child: "c \<in> live g \<and> (\<exists>k v. dg_nodes g2 ! c = Data k v \<and> dg_indices g2 k = Some c)"
    if "c \<in> set cs" for c
  proof -
    have "(x, c) \<in> edges g" using that g2(5) by simp
    note rc = removed_child [OF r this x(2)]
    moreover from rc(1) have "dg_nodes g ! c = dg_nodes g0 ! c"
      using r removed_live [OF r] by (auto simp: removed_def live_def)
    ultimately show ?thesis using g2(7,8) by (auto simp: nth_list_update_neq)
  qed
  have "\<exists>g3. release_children x (hash_iter ord x cs) g2 st
      = Ok (g3, st @ filter (\<lambda>c. \<forall>k. (k, c) \<in> edges g2 \<longrightarrow> k = x) (hash_iter ord x cs))
    \<and> edge_inv g3 \<and> edges g3 = edges g2 - {x} \<times> set (hash_iter ord x cs)
    \<and> dg_nodes g3 = dg_nodes g2 \<and> dg_indices g3 = dg_indices g2"
  proof (rule release_children_spec [OF g2(3)])
    show "is_orphaned g' (dg_nodes g2 ! c) = Ok (\<forall>k. (k, c) \<notin> edges g')"
      if "c \<in> set (hash_iter ord x cs)" "edge_inv g'" "dg_nodes g' = dg_nodes g2" "dg_indices g' = dg_indices g2"
      for g' c
      using child [of c] that data_orphan [of g'] by auto
  qed (use g2(4-7) child in \<open>auto simp: live_def\<close>)
  moreover have "edges g2 - {x} \<times> set (hash_iter ord x cs) = edges g - {x} \<times> UNIV"
    using g2(4,5) by auto
  ultimately obtain g3 where
    g3: "release_children x (hash_iter ord x cs) g2 st
        = Ok (g3, st @ filter (\<lambda>c. \<forall>k. (k, c) \<in> edges g \<longrightarrow> k = x) (hash_iter ord x cs))"
      "edge_inv g3" "edges g3 = edges g - {x} \<times> UNIV" "dg_nodes g3 = dg_nodes g2" "dg_indices g3 = dg_indices g2"
    using g2(4) by auto
  have "removed g0 g3 (d @ [x])"
    using g2(7,8) g3(2-5) by (intro removed_snoc [OF r x]) auto
  with that [OF g2(1,2,5,6) g3(1)] show thesis .
qed

lemma loop_step:
  assumes inv: "loop_inv g0 g d st" and ne: "st \<noteq> []"
  obtains g1 cs g2 g3 st3 where
    "remove_node (last st) g = Ok (case dg_nodes g0 ! last st of Data _ v \<Rightarrow> Some v | _ \<Rightarrow> None, g1)"
    and "clone_children (last st) g1 = (cs, g2)"
    and "release_children (last st) (hash_iter ord (last st) cs) g2 (butlast st) = Ok (g3, st3)"
    and "loop_inv g0 g3 (d @ [last st]) st3" and "(0, last st) \<in> (edges g0)\<^sup>*"
proof -
  let ?x = "last st" and ?P = "\<lambda>c. \<forall>k. (k, c) \<in> edges g \<longrightarrow> k = last st"
  have r: "removed g0 g d" and st: "distinct st" "set st = ready g" "\<forall>x\<in>set st. (0, x) \<in> (edges g0)\<^sup>*"
    using inv by (simp_all add: loop_inv_def)
  have x: "?x \<in> live g" "\<And>k. (k, ?x) \<notin> edges g" "(0, ?x) \<in> (edges g0)\<^sup>*"
    using st last_in_set [OF ne] by (auto simp: ready_def)
  obtain g1 cs g2 g3 where
    step: "remove_node ?x g = Ok (case dg_nodes g0 ! ?x of Data _ v \<Rightarrow> Some v | _ \<Rightarrow> None, g1)"
      "clone_children ?x g1 = (cs, g2)" "set cs = {c. (?x, c) \<in> edges g}" "distinct cs"
      "release_children ?x (hash_iter ord ?x cs) g2 (butlast st)
        = Ok (g3, butlast st @ filter ?P (hash_iter ord ?x cs))" "removed g0 g3 (d @ [?x])"
    by (rule release_step [OF r x(1,2)])
  have e3: "edges g3 = {(i, j) \<in> edges g. i \<noteq> ?x}" and l3: "live g3 = live g - {?x}"
    using r step(6) removed_live [OF r] removed_live [OF step(6)] by (auto simp: removed_def)
  have bl: "set (butlast st) = set st - {?x}" "distinct (butlast st)"
    using st(1) ne by (cases st rule: rev_cases; auto)+
  have child: "c \<in> live g \<and> c \<noteq> ?x" if "(?x, c) \<in> edges g" for c
    using removed_child [OF r that x(2)] by simp
  have "set (butlast st @ filter ?P (hash_iter ord ?x cs)) = ready g3"
    using bl(1) st(2) child step(3) e3 l3 by (auto simp: ready_def)
  moreover have "distinct (butlast st @ filter ?P (hash_iter ord ?x cs))"
    using bl st(2) step(3,4) by (auto simp: ready_def)
  moreover have "(0, c) \<in> (edges g0)\<^sup>*" if "c \<in> set (butlast st @ filter ?P (hash_iter ord ?x cs))" for c
    using that bl(1) st(3) step(3) x(3) r by (auto simp: removed_def intro: rtrancl_into_rtrancl)
  ultimately have "loop_inv g0 g3 (d @ [?x]) (butlast st @ filter ?P (hash_iter ord ?x cs))"
    using step(6) by (simp add: loop_inv_def)
  with that [OF step(1,2,5)] x(3) show thesis by blast
qed

lemma resolve_loop_spec:
  assumes "loop_inv g0 g d st"
  shows "\<exists>g' L. resolve_loop ord g st res = Ok (g', res @ node_data g0 L) \<and> loop_inv g0 g' (d @ L) []
    \<and> (\<forall>x\<in>set L. (0, x) \<in> (edges g0)\<^sup>*)"
  using assms
proof (induction ord g st res arbitrary: d rule: resolve_loop.induct)
  case (1 ord g st res)
  show ?case
  proof (cases "st = []")
    case True
    with "1.prems" show ?thesis
      by (subst resolve_loop.simps) (auto simp: node_data_def intro!: exI [of _ "[]"])
  next
    case False
    obtain g1 cs g2 g3 st3 where
      step: "remove_node (last st) g = Ok (case dg_nodes g0 ! last st of Data _ v \<Rightarrow> Some v | _ \<Rightarrow> None, g1)"
        "clone_children (last st) g1 = (cs, g2)"
        "release_children (last st) (hash_iter ord (last st) cs) g2 (butlast st) = Ok (g3, st3)"
        "loop_inv g0 g3 (d @ [last st]) st3" "(0, last st) \<in> (edges g0)\<^sup>*"
      by (rule loop_step [OF "1.prems" False])
    let ?v = "case dg_nodes g0 ! last st of Data _ v \<Rightarrow> Some v | _ \<Rightarrow> None"
    let ?res = "case ?v of Some v \<Rightarrow> res @ [v] | None \<Rightarrow> res"
    from "1.IH" [OF False refl refl step(1) refl refl step(2) [symmetric] step(3) refl step(4)] obtain g' L where
      IH: "resolve_loop ord g3 st3 ?res = Ok (g', ?res @ node_data g0 L)" "loop_inv g0 g' ((d @ [last st]) @ L) []"
        "\<forall>x\<in>set L. (0, x) \<in> (edges g0)\<^sup>*"
      by blast
    have "?res @ node_data g0 L = res @ node_data g0 (last st # L)"
      by (simp add: node_data_def split: Node.split)
    moreover have "resolve_loop ord g st res = resolve_loop ord g3 st3 ?res"
      using False by (subst resolve_loop.simps) (simp add: step(1-3))
    ultimately show ?thesis
      using IH step(5) by (intro exI [of _ g'] exI [of _ "last st # L"]) simp
  qed
qed

section \<open>Correctness\<close>

lemma is_empty_edges:
  assumes "edge_inv g"
  shows "is_empty_graph g \<longleftrightarrow> edges g = {}"
proof -
  have entry: "list_all (\<lambda>(_, xs). xs = []) m \<longleftrightarrow> (\<forall>i. entry_of m i = [])" if "distinct (map fst m)" for m :: index_sets
  proof
    assume "list_all (\<lambda>(_, xs). xs = []) m"
    then show "\<forall>i. entry_of m i = []"
      by (auto simp: entry_of_def list_all_iff split: option.splits dest!: map_of_SomeD)
  next
    assume e: "\<forall>i. entry_of m i = []"
    have "xs = []" if "(i, xs) \<in> set m" for i xs
      using e map_of_is_SomeI [OF \<open>distinct (map fst m)\<close> that]
      by (auto simp: entry_of_def dest: spec [of _ i])
    then show "list_all (\<lambda>(_, xs). xs = []) m" by (auto simp: list_all_iff)
  qed
  have "edges g = {} \<longleftrightarrow> (\<forall>i. children_of g i = [])"
    by (auto simp: edges_def)
  moreover have "edges g = {} \<longleftrightarrow> (\<forall>i. parents_of g i = [])"
    using edge_inv_parents [OF assms] by (metis (no_types, lifting) Collect_empty_eq empty_iff ex_in_conv
        mem_Collect_eq set_empty surj_pair)
  ultimately show ?thesis
    using assms entry by (auto simp: is_empty_graph_def edge_inv_def)
qed

lemma ordered_acyclic:
  assumes "ordered E D" and "E \<subseteq> UNIV \<times> set D"
  shows "acyclic E"
proof -
  define f where "f x = length (takeWhile (\<lambda>y. y \<noteq> x) D)" for x
  have "f i < f j" if e: "(i, j) \<in> E" for i j
  proof -
    obtain ys zs where D: "D = ys @ j # zs" "j \<notin> set ys"
      using e assms(2) split_list_first [of j D] by auto
    then have "i \<in> set ys"
      using assms(1) e unfolding ordered_def by blast
    then obtain us vs where ys: "ys = us @ i # vs" "i \<notin> set us"
      using split_list_first by metis
    have "f j = length ys"
      unfolding f_def D(1) using D(2) by (subst takeWhile_append2) auto
    moreover have "f i = length us"
      unfolding f_def D(1) ys(1) append.assoc using ys(2) by (subst takeWhile_append2) auto
    ultimately show ?thesis by (simp add: ys(1))
  qed
  then have "E \<subseteq> measure f" by auto
  then show ?thesis
    by (meson acyclic_subset wf_acyclic wf_measure)
qed

definition dependencies_after :: "('a \<times> 'a) set \<Rightarrow> 'a list \<Rightarrow> bool" where
  "dependencies_after E L \<longleftrightarrow> (\<forall>ys x zs. L = ys @ x # zs \<longrightarrow> (\<forall>i\<in>set L. (i, x) \<in> E \<longrightarrow> i \<in> set ys))"

lemma ordered_suffix:
  assumes "ordered E (d @ L)" and "distinct (d @ L)"
  shows "dependencies_after E L"
  unfolding dependencies_after_def
proof (intro allI impI ballI)
  fix ys x zs i
  assume "L = ys @ x # zs" "i \<in> set L" "(i, x) \<in> E"
  then have "i \<in> set (d @ ys)"
    using assms(1) unfolding ordered_def by (metis append.assoc)
  with assms(2) \<open>i \<in> set L\<close> show "i \<in> set ys" by auto
qed

lemma finite_edges: "graph_inv g \<Longrightarrow> finite (edges g)"
  by (rule finite_subset [of _ "{..<length (dg_nodes g)} \<times> {..<length (dg_nodes g)}"])
     (auto simp: graph_inv_def live_def)

lemma leftover_cyclic:
  assumes inv: "loop_inv g0 g d []" and "edges g \<noteq> {}"
  shows "\<not> acyclic (edges g0)"
proof
  assume "acyclic (edges g0)"
  have r: "removed g0 g d" and none: "ready g = {}"
    using inv by (simp_all add: loop_inv_def)
  then have sub: "edges g \<subseteq> edges g0"
    by (auto simp: removed_def)
  with r have "finite (edges g)"
    using finite_edges [of g0] finite_subset by (auto simp: removed_def)
  with sub \<open>acyclic (edges g0)\<close> have "wf (edges g)"
    by (meson acyclic_subset finite_acyclic_wf)
  then obtain m where m: "m \<in> Domain (edges g)" "\<And>k. (k, m) \<in> edges g \<Longrightarrow> k \<notin> Domain (edges g)"
    using assms(2) by (metis Domain_empty_iff wf_eq_minimal ex_in_conv)
  then have "\<And>k. (k, m) \<notin> edges g" by blast
  moreover have "m \<in> live g"
    using m(1) r removed_live [OF r] by (auto simp: removed_def graph_inv_def)
  ultimately show False
    using none by (auto simp: ready_def)
qed

lemma start_inv:
  assumes r: "removed g0 g d" and "unreachable g0 d" and "\<forall>j\<in>live g - {0}. \<exists>k. (k, j) \<in> edges g"
  shows "loop_inv g0 g d [0]"
proof -
  have "0 \<in> live g"
    using r assms(2) removed_live [OF r] root_live [of g0] by (auto simp: removed_def unreachable_def)
  moreover have "(k, 0) \<notin> edges g" for k
    using r by (auto simp: removed_def graph_inv_def)
  ultimately show ?thesis
    using r assms(3) by (auto simp: loop_inv_def ready_def)
qed

lemma resolve_spec:
  assumes "graph_inv g"
  obtains (ok) L where "acyclic (edges g)" and "resolve ord g = Ok (node_data g L)" and "distinct L"
      and "set L = {i. (0, i) \<in> (edges g)\<^sup>*}" and "dependencies_after (edges g) L"
    | (circular) "\<not> acyclic (edges g)" and "resolve ord g = Err CircularDependency"
proof -
  have "removed g g []" "unreachable g []"
    using assms by (simp_all add: removed_refl unreachable_def)
  from prune_orphans_spec [OF this, of ord] obtain g1 d where
    g1: "prune_orphans ord g = Ok g1" "removed g g1 d" "unreachable g d" "\<forall>j\<in>live g1 - {0}. \<exists>k. (k, j) \<in> edges g1"
    by blast
  from resolve_loop_spec [OF start_inv [OF g1(2-4)], of ord "[]"] obtain g2 L where
    g2: "resolve_loop ord g1 [0] [] = Ok (g2, node_data g L)" "loop_inv g g2 (d @ L) []"
      "\<forall>x\<in>set L. (0, x) \<in> (edges g)\<^sup>*"
    by auto
  then have r: "removed g g2 (d @ L)" and ready: "ready g2 = {}"
    by (simp_all add: loop_inv_def)
  have res: "resolve ord g = (if edges g2 = {} then Ok (node_data g L) else Err CircularDependency)"
    using r by (simp add: resolve_def g1(1) g2(1) ROOT_INDEX_def is_empty_edges removed_def)
  show thesis
  proof (cases "edges g2 = {}")
    case True
    with ready removed_live [OF r] have all: "live g \<subseteq> set (d @ L)"
      by (auto simp: ready_def)
    have o: "ordered (edges g) (d @ L)" "distinct (d @ L)" "edges g \<subseteq> UNIV \<times> live g"
      using r by (auto simp: removed_def graph_inv_def)
    have "acyclic (edges g)"
      using all o(3) by (intro ordered_acyclic [OF o(1)]) blast
    moreover have "x \<in> set L" if "(0, x) \<in> (edges g)\<^sup>*" for x
    proof -
      have "x \<in> live g"
        using that root_live [OF assms] o(3) by (cases rule: rtranclE) auto
      with that all g1(3) show ?thesis by (auto simp: unreachable_def)
    qed
    ultimately show thesis
      using ok [of L] res True o(2) g2(3) ordered_suffix [OF o(1,2)] by auto
  next
    case False
    with leftover_cyclic [OF g2(2)] res circular show thesis by simp
  qed
qed

end
