(* ===== verification/Symbol_Table.thy ===== *)
theory Symbol_Table
  imports Dep_Graph_Correct
begin

text \<open>
  \<open>compiler/symbol_table.rs\<close> and \<open>linter.rs\<close>: the order in which the libraries of a rule are
  read, and the table of the keys and values they declare. The parser of libraries is applied
  before (\<open>get_symbol_table_from_libraries\<close> is in the theory of the compiler's entry points).
\<close>

section \<open>The linter\<close>

definition lint_library :: "LibraryAst \<Rightarrow> (unit, LinterError) result" where
  "lint_library library =
     (if CHR ''_'' \<in> set (ci_name (lib_name library))
      then Err (LibraryNameMustNotContainUnderscores (lib_name library))
      else Ok ())"

section \<open>Deprecated keys\<close>

definition deprecated_keys :: "(string \<times> u32) list" where
  "deprecated_keys =
     [(''BIND_PROTOCOL'', 0x0001),
      (''BIND_AUTOBIND'', 0x0002),
      (''BIND_COMPOSITE'', 0x0003),
      (''BIND_FIDL_PROTOCOL'', 0x0004),
      (''BIND_PLATFORM_DEV_VID'', 0x0300),
      (''BIND_PCI_VID'', 0x0100),
      (''BIND_PCI_DID'', 0x0101),
      (''BIND_PCI_CLASS'', 0x0102),
      (''BIND_PCI_SUBCLASS'', 0x0103),
      (''BIND_PCI_INTERFACE'', 0x0104),
      (''BIND_PCI_REVISION'', 0x0105),
      (''BIND_PCI_COMPONENT'', 0x0106),
      (''BIND_PCI_TOPO'', 0x0107),
      (''BIND_USB_VID'', 0x0200),
      (''BIND_USB_PID'', 0x0201),
      (''BIND_USB_CLASS'', 0x0202),
      (''BIND_USB_SUBCLASS'', 0x0203),
      (''BIND_USB_PROTOCOL'', 0x0204),
      (''BIND_USB_INTERFACE_NUMBER'', 0x0205),
      (''BIND_PLATFORM_DEV_VID'', 0x0300),
      (''BIND_PLATFORM_DEV_PID'', 0x0301),
      (''BIND_PLATFORM_DEV_DID'', 0x0302),
      (''BIND_PLATFORM_PROTO'', 0x0303),
      (''BIND_PLATFORM_DEV_INSTANCE_ID'', 0x0304),
      (''BIND_ACPI_BUS_TYPE'', 0x0400),
      (''BIND_IHDA_CODEC_VID'', 0x0500),
      (''BIND_IHDA_CODEC_DID'', 0x0501),
      (''BIND_IHDA_CODEC_MAJOR_REV'', 0x0502),
      (''BIND_IHDA_CODEC_MINOR_REV'', 0x0503),
      (''BIND_IHDA_CODEC_VENDOR_REV'', 0x0504),
      (''BIND_IHDA_CODEC_VENDOR_STEP'', 0x0505),
      (''BIND_SERIAL_CLASS'', 0x0600),
      (''BIND_SERIAL_VID'', 0x0601),
      (''BIND_SERIAL_PID'', 0x0602),
      (''BIND_NAND_CLASS'', 0x0700),
      (''BIND_BT_GATT_SVC_UUID16'', 0x0800),
      (''BIND_BT_GATT_SVC_UUID128_1'', 0x0801),
      (''BIND_BT_GATT_SVC_UUID128_2'', 0x0802),
      (''BIND_BT_GATT_SVC_UUID128_3'', 0x0803),
      (''BIND_BT_GATT_SVC_UUID128_4'', 0x0804),
      (''BIND_SDIO_VID'', 0x0900),
      (''BIND_SDIO_PID'', 0x0901),
      (''BIND_SDIO_FUNCTION'', 0x0902),
      (''BIND_I2C_CLASS'', 0x0A00),
      (''BIND_I2C_BUS_ID'', 0x0A01),
      (''BIND_I2C_ADDRESS'', 0x0A02),
      (''BIND_GPIO_PIN'', 0x0A10),
      (''BIND_POWER_DOMAIN'', 0x0A20),
      (''BIND_POWER_DOMAIN_COMPOSITE'', 0x0A21),
      (''BIND_CLOCK_ID'', 0x0A30),
      (''BIND_SPI_CLASS'', 0x0A40),
      (''BIND_SPI_BUS_ID'', 0x0A41),
      (''BIND_SPI_CHIP_SELECT'', 0x0A42),
      (''BIND_PWM_ID'', 0x0A50),
      (''BIND_INIT_STEP'', 0x0A60),
      (''BIND_CODEC_INSTANCE'', 0x0A70),
      (''BIND_REGISTER_ID'', 0x0A80),
      (''BIND_POWER_SENSOR_DOMAIN'', 0x0A90)]"

definition get_deprecated_symbols :: SymbolTable where
  "get_deprecated_symbols =
     fold (\<lambda>(key, v) st. st(make_identifier [''fuchsia'', key] \<mapsto> DeprecatedKey v)) deprecated_keys Map.empty"

definition get_deprecated_key_identifiers :: "u32 \<rightharpoonup> string" where
  "get_deprecated_key_identifiers =
     fold (\<lambda>(key, v) m. m(v \<mapsto> ci_to_string (make_identifier [''fuchsia'', key]))) deprecated_keys Map.empty"

section \<open>Dependencies\<close>

fun insert_libraries ::
    "LibraryAst list \<Rightarrow> (CompoundIdentifier, LibraryAst) DependencyGraph
     \<Rightarrow> ((CompoundIdentifier, LibraryAst) DependencyGraph, CompoundIdentifier DependencyError) result" where
  "insert_libraries [] g = Ok g"
| "insert_libraries (library # libraries) g =
     and_then (insert_node (lib_name library) library g) (insert_libraries libraries)"

fun insert_root_edges ::
    "Include list \<Rightarrow> (CompoundIdentifier, LibraryAst) DependencyGraph
     \<Rightarrow> ((CompoundIdentifier, LibraryAst) DependencyGraph, CompoundIdentifier DependencyError) result" where
  "insert_root_edges [] g = Ok g"
| "insert_root_edges (i # is) g =
     and_then (insert_edge_from_root (inc_name i) g) (insert_root_edges is)"

fun insert_edges_from ::
    "CompoundIdentifier \<Rightarrow> Include list \<Rightarrow> (CompoundIdentifier, LibraryAst) DependencyGraph
     \<Rightarrow> ((CompoundIdentifier, LibraryAst) DependencyGraph, CompoundIdentifier DependencyError) result" where
  "insert_edges_from frm [] g = Ok g"
| "insert_edges_from frm (to # tos) g =
     and_then (insert_edge frm (inc_name to) g) (insert_edges_from frm tos)"

fun insert_library_edges ::
    "LibraryAst list \<Rightarrow> (CompoundIdentifier, LibraryAst) DependencyGraph
     \<Rightarrow> ((CompoundIdentifier, LibraryAst) DependencyGraph, CompoundIdentifier DependencyError) result" where
  "insert_library_edges [] g = Ok g"
| "insert_library_edges (frm # libraries) g =
     and_then (insert_edges_from (lib_name frm) (lib_using frm) g) (insert_library_edges libraries)"

definition resolve_dependencies ::
    "(nat \<Rightarrow> nat list \<Rightarrow> nat list) \<Rightarrow> Include list \<Rightarrow> LibraryAst list
     \<Rightarrow> (LibraryAst list, CompilerError) result" where
  "resolve_dependencies ord using libraries =
     map_err CeDependencyError
       (and_then (insert_libraries libraries new_graph) (\<lambda>g.
        and_then (insert_root_edges using g) (\<lambda>g.
        and_then (insert_library_edges libraries g) (resolve ord))))"

section \<open>The table\<close>

definition find_qualified_identifier ::
    "Declaration \<Rightarrow> Include list \<Rightarrow> CompoundIdentifier \<Rightarrow> (CompoundIdentifier, CompilerError) result" where
  "find_qualified_identifier declaration using local_qualified =
     (case parent (dc_identifier declaration) of
        Some namespace \<Rightarrow>
          if \<not> dc_extends declaration then Err (CeMissingExtendsKeyword (dc_identifier declaration))
          else if namespace = make_identifier [''fuchsia''] then Ok (dc_identifier declaration)
          else
            and_then
              (ok_or
                (find (\<lambda>i. namespace = inc_name i \<or> Some (ci_to_string namespace) = inc_alias i) using)
                (CeUnresolvedQualification (dc_identifier declaration)))
              (\<lambda>i. Ok (nest (inc_name i) (ci_name (dc_identifier declaration))))
      | None \<Rightarrow>
          if dc_extends declaration then Err (CeInvalidExtendsKeyword local_qualified)
          else Ok local_qualified)"

text \<open>The check of a declaration against the table, and the entry of a new key.\<close>

definition check_key ::
    "Declaration \<Rightarrow> CompoundIdentifier \<Rightarrow> SymbolTable \<Rightarrow> (SymbolTable, CompilerError) result" where
  "check_key declaration qualified symbol_table =
     (case symbol_table qualified of
        Some (Key _ value_type) \<Rightarrow>
          if \<not> dc_extends declaration then Err (CeDuplicateIdentifier qualified)
          else if dc_value_type declaration \<noteq> value_type then Err (CeTypeMismatch qualified)
          else Ok symbol_table
      | Some (DeprecatedKey _) \<Rightarrow> Ok symbol_table
      | Some _ \<Rightarrow> Err (CeTypeMismatch qualified)
      | None \<Rightarrow>
          if dc_extends declaration then Err (CeUndeclaredKey qualified)
          else Ok (symbol_table(qualified \<mapsto> Key (ci_to_string qualified) (dc_value_type declaration))))"

fun value_entry :: "CompoundIdentifier \<Rightarrow> LibraryValue \<Rightarrow> Symbol" where
  "value_entry qualified_value (LvNumber _ v) = NumberValue v"
| "value_entry qualified_value (LvStr _ v) = StringValue v"
| "value_entry qualified_value (LvBool _ v) = BoolValue v"
| "value_entry qualified_value (LvEnum _) = EnumValue (ci_to_string qualified_value)"

fun insert_values ::
    "CompoundIdentifier \<Rightarrow> LibraryValue list \<Rightarrow> SymbolTable \<Rightarrow> (SymbolTable, CompilerError) result" where
  "insert_values local_qualified [] symbol_table = Ok symbol_table"
| "insert_values local_qualified (v # vs) symbol_table =
     (let qualified_value = nest local_qualified (identifier_of v) in
      if symbol_table qualified_value \<noteq> None then Err (CeDuplicateIdentifier qualified_value)
      else
        insert_values local_qualified vs
          (symbol_table(qualified_value \<mapsto> value_entry qualified_value v)))"

definition insert_declaration ::
    "CompoundIdentifier \<Rightarrow> Include list \<Rightarrow> Declaration \<Rightarrow> SymbolTable
     \<Rightarrow> (SymbolTable, CompilerError) result" where
  "insert_declaration name using declaration symbol_table =
     (let local_qualified = nest name (ci_name (dc_identifier declaration)) in
      and_then (find_qualified_identifier declaration using local_qualified) (\<lambda>qualified.
      and_then (check_key declaration qualified symbol_table)
        (insert_values local_qualified (dc_values declaration))))"

fun insert_declarations ::
    "CompoundIdentifier \<Rightarrow> Include list \<Rightarrow> Declaration list \<Rightarrow> SymbolTable
     \<Rightarrow> (SymbolTable, CompilerError) result" where
  "insert_declarations name using [] symbol_table = Ok symbol_table"
| "insert_declarations name using (d # ds) symbol_table =
     and_then (insert_declaration name using d symbol_table) (insert_declarations name using ds)"

fun insert_library_symbols :: "LibraryAst list \<Rightarrow> SymbolTable \<Rightarrow> (SymbolTable, CompilerError) result" where
  "insert_library_symbols [] symbol_table = Ok symbol_table"
| "insert_library_symbols (lib # libs) symbol_table =
     and_then (insert_declarations (lib_name lib) (lib_using lib) (lib_declarations lib) symbol_table)
       (insert_library_symbols libs)"

definition construct_symbol_table :: "LibraryAst list \<Rightarrow> (SymbolTable, CompilerError) result" where
  "construct_symbol_table libraries = insert_library_symbols libraries get_deprecated_symbols"

end
