(* ===== verification/Encode_V1.thy ===== *)
theory Encode_V1
  imports Bind_Instr Rust_Format
begin

unbundle bit_operations_syntax

text \<open>
  \<open>bytecode_encoder/encode_v1.rs\<close>: the old bytecode, three words per instruction. The fields are
  those of the \<open>bitfield!\<close> declaration, with the loops over bits of the \<open>bitfield\<close> crate under
  \<open>third_party/rust_crates/vendor\<close>.
\<close>

section \<open>Bit fields\<close>

text \<open>A raw instruction is an array of three words; bit \<open>i\<close> is bit \<open>i mod 32\<close> of word \<open>i div 32\<close>.\<close>

type_synonym RawInstruction = "u32 list"

fun set_bits_from :: "nat \<Rightarrow> nat \<Rightarrow> u32 \<Rightarrow> RawInstruction \<Rightarrow> RawInstruction" where
  "set_bits_from i 0 value ws = ws"
| "set_bits_from i (Suc n) value ws =
     set_bits_from (Suc i) n (drop_bit 1 value)
       (ws[i div 32 := (ws ! (i div 32) AND NOT (push_bit (i mod 32) 1)) OR push_bit (i mod 32) (value AND 1)])"

definition set_bit_range :: "nat \<Rightarrow> nat \<Rightarrow> u32 \<Rightarrow> RawInstruction \<Rightarrow> RawInstruction" where
  "set_bit_range msb lsb value ws = set_bits_from lsb (msb + 1 - lsb) value ws"

fun get_bits_from :: "nat \<Rightarrow> nat \<Rightarrow> RawInstruction \<Rightarrow> u32" where
  "get_bits_from i 0 ws = 0"
| "get_bits_from i (Suc n) ws =
     push_bit 1 (get_bits_from (Suc i) n ws) OR (drop_bit (i mod 32) (ws ! (i div 32)) AND 1)"

definition bit_range :: "nat \<Rightarrow> nat \<Rightarrow> RawInstruction \<Rightarrow> u32" where
  "bit_range msb lsb ws =
     (let n = msb + 1 - lsb in drop_bit (32 - n) (push_bit (32 - n) (get_bits_from lsb n ws)))"

definition condition_field :: "RawInstruction \<Rightarrow> u32" where "condition_field = bit_range 31 28"
definition operation_field :: "RawInstruction \<Rightarrow> u32" where "operation_field = bit_range 27 24"
definition parameter_a :: "RawInstruction \<Rightarrow> u32" where "parameter_a = bit_range 23 16"
definition parameter_b :: "RawInstruction \<Rightarrow> u32" where "parameter_b = bit_range 15 0"
definition value_field :: "RawInstruction \<Rightarrow> u32" where "value_field = bit_range 63 32"
definition line_field :: "RawInstruction \<Rightarrow> u32" where "line_field = bit_range 95 88"
definition ast_location_field :: "RawInstruction \<Rightarrow> u32" where "ast_location_field = bit_range 87 80"
definition extra_field :: "RawInstruction \<Rightarrow> u32" where "extra_field = bit_range 79 64"

definition set_condition :: "u32 \<Rightarrow> RawInstruction \<Rightarrow> RawInstruction" where "set_condition = set_bit_range 31 28"
definition set_operation :: "u32 \<Rightarrow> RawInstruction \<Rightarrow> RawInstruction" where "set_operation = set_bit_range 27 24"
definition set_parameter_a :: "u32 \<Rightarrow> RawInstruction \<Rightarrow> RawInstruction" where "set_parameter_a = set_bit_range 23 16"
definition set_parameter_b :: "u32 \<Rightarrow> RawInstruction \<Rightarrow> RawInstruction" where "set_parameter_b = set_bit_range 15 0"
definition set_value :: "u32 \<Rightarrow> RawInstruction \<Rightarrow> RawInstruction" where "set_value = set_bit_range 63 32"
definition set_line :: "u32 \<Rightarrow> RawInstruction \<Rightarrow> RawInstruction" where "set_line = set_bit_range 95 88"
definition set_ast_location :: "u32 \<Rightarrow> RawInstruction \<Rightarrow> RawInstruction" where "set_ast_location = set_bit_range 87 80"
definition set_extra :: "u32 \<Rightarrow> RawInstruction \<Rightarrow> RawInstruction" where "set_extra = set_bit_range 79 64"

section \<open>Operations and conditions\<close>

datatype RawOpV1 = OpAbort | OpMatch | OpGoto | OpLabel

fun raw_op_v1 :: "RawOpV1 \<Rightarrow> u32" where
  "raw_op_v1 OpAbort = 0"
| "raw_op_v1 OpMatch = 1"
| "raw_op_v1 OpGoto = 2"
| "raw_op_v1 OpLabel = 5"

definition raw_op_v1_of :: "u32 \<Rightarrow> RawOpV1 option" where
  "raw_op_v1_of n =
     (if n = 0 then Some OpAbort else if n = 1 then Some OpMatch else if n = 2 then Some OpGoto
      else if n = 5 then Some OpLabel else None)"

datatype RawCondition = CondAlways | CondEqual | CondNotEqual

fun raw_condition :: "RawCondition \<Rightarrow> u32" where
  "raw_condition CondAlways = 0"
| "raw_condition CondEqual = 1"
| "raw_condition CondNotEqual = 2"

definition raw_condition_of :: "u32 \<Rightarrow> RawCondition option" where
  "raw_condition_of n =
     (if n = 0 then Some CondAlways else if n = 1 then Some CondEqual else if n = 2 then Some CondNotEqual
      else None)"

fun raw_ast_location :: "RawAstLocation \<Rightarrow> u32" where
  "raw_ast_location AlInvalid = 0"
| "raw_ast_location AlConditionStatement = 1"
| "raw_ast_location AlAcceptStatementValue = 2"
| "raw_ast_location AlAcceptStatementFailure = 3"
| "raw_ast_location AlIfCondition = 4"
| "raw_ast_location AlFalseStatement = 5"

definition raw_ast_location_of :: "u32 \<Rightarrow> RawAstLocation option" where
  "raw_ast_location_of n =
     (if n = 0 then Some AlInvalid else if n = 1 then Some AlConditionStatement
      else if n = 2 then Some AlAcceptStatementValue else if n = 3 then Some AlAcceptStatementFailure
      else if n = 4 then Some AlIfCondition else if n = 5 then Some AlFalseStatement else None)"

section \<open>Encoding\<close>

fun encode_condition :: "InstCondition \<Rightarrow> (u32 \<times> u32 \<times> u32, BindRulesEncodeError) result" where
  "encode_condition Always = Ok (raw_condition CondAlways, 0, 0)"
| "encode_condition (Equal b v) =
     and_then (encode_symbol b) (\<lambda>b_sym. and_then (encode_symbol v) (\<lambda>v_sym.
       Ok (raw_condition CondEqual, b_sym, v_sym)))"
| "encode_condition (NotEqual b v) =
     and_then (encode_symbol b) (\<lambda>b_sym. and_then (encode_symbol v) (\<lambda>v_sym.
       Ok (raw_condition CondNotEqual, b_sym, v_sym)))"

fun raw_fields :: "Instruction \<Rightarrow> (u32 \<times> u32 \<times> u32 \<times> u32 \<times> u32, BindRulesEncodeError) result" where
  "raw_fields (Abort condition) =
     and_then (encode_condition condition) (\<lambda>(c, b, v). Ok (c, raw_op_v1 OpAbort, 0, b, v))"
| "raw_fields (Match condition) =
     and_then (encode_condition condition) (\<lambda>(c, b, v). Ok (c, raw_op_v1 OpMatch, 0, b, v))"
| "raw_fields (Goto condition a) =
     and_then (encode_condition condition) (\<lambda>(c, b, v). Ok (c, raw_op_v1 OpGoto, a, b, v))"
| "raw_fields (Label a) = Ok (raw_condition CondAlways, raw_op_v1 OpLabel, a, 0, 0)"

definition to_raw_instruction :: "Instruction \<Rightarrow> (RawInstruction, BindRulesEncodeError) result" where
  "to_raw_instruction instruction =
     and_then (raw_fields instruction) (\<lambda>(c, o', a, b, v).
       Ok (set_value v (set_parameter_b b (set_parameter_a a (set_operation o' (set_condition c [0, 0, 0]))))))"

definition encode_instruction :: "InstructionInfo \<Rightarrow> (RawInstruction, BindRulesEncodeError) result" where
  "encode_instruction info =
     and_then (to_raw_instruction (ii_instruction info)) (\<lambda>raw.
       let debug = ii_debug info in
       Ok (set_extra (dbg_extra debug)
            (set_ast_location (raw_ast_location (dbg_ast_location debug)) (set_line (dbg_line debug) raw))))"

abbreviation raw_bytes :: "RawInstruction \<Rightarrow> u8 list" where
  "raw_bytes raw \<equiv> concat (map to_le_bytes raw)"

definition encode_to_bytecode_v1 :: "BindRules \<Rightarrow> (u8 list, BindRulesEncodeError) result" where
  "encode_to_bytecode_v1 bind_rules =
     and_then (collect_results (\<lambda>inst. encode_instruction (to_instruction_info inst)) (br_instructions bind_rules))
       (\<lambda>raws. Ok (concat (map raw_bytes raws)))"

definition encode_to_string_v1 :: "SymbolicInstructionInfo list \<Rightarrow> (string, BindRulesEncodeError) result" where
  "encode_to_string_v1 instructions =
     and_then (collect_results (\<lambda>inst. encode_instruction (to_instruction_info inst)) instructions)
       (\<lambda>raws. Ok (concat (map (\<lambda>raw. ''{'' @ join (map fmt_hex raw) '','' @ ''},'') raws)))"

text \<open>\<open>impl Display for RawInstruction\<close>.\<close>

definition raw_to_string :: "RawInstruction \<Rightarrow> string" where
  "raw_to_string raw =
     ''c: '' @ fmt_dec (condition_field raw) @ '', o: '' @ fmt_dec (operation_field raw)
     @ '', a: '' @ fmt_dec (parameter_a raw) @ '', b: '' @ fmt_hex_width 6 (parameter_b raw)
     @ '', v: '' @ fmt_hex_width 10 (value_field raw)"

section \<open>Decoding\<close>

datatype BindRulesDecodeError = DeInvalidBinaryLength

fun read_raws :: "u8 list \<Rightarrow> RawInstruction list" where
  "read_raws [] = []"
| "read_raws bytes =
     map from_le_bytes [take 4 bytes, take 4 (drop 4 bytes), take 4 (drop 8 bytes)] # read_raws (drop 12 bytes)"

definition decode_from_bytecode_v1 :: "u8 list \<Rightarrow> (RawInstruction list, BindRulesDecodeError) result" where
  "decode_from_bytecode_v1 bytes =
     (if length bytes mod 12 \<noteq> 0 then Err DeInvalidBinaryLength else Ok (read_raws bytes))"

end
