(* ===== verification/Bytecode.thy ===== *)
theory Bytecode
  imports Bind_Instr
begin

text \<open>
  The constants of the bytecode format (\<open>bytecode_constants.rs\<close>): magic numbers, the limits of
  the symbol table, and the three enumerations with their numeric codes. Each enumeration comes
  with the cast \<open>as u8\<close> and the derived \<open>FromPrimitive::from_u8\<close>.
\<close>

definition BIND_MAGIC_NUM :: u32 where "BIND_MAGIC_NUM = 0x42494E44"
definition SYMB_MAGIC_NUM :: u32 where "SYMB_MAGIC_NUM = 0x53594E42"
definition INSTRUCTION_MAGIC_NUM :: u32 where "INSTRUCTION_MAGIC_NUM = 0x494E5354"
definition COMPOSITE_MAGIC_NUM :: u32 where "COMPOSITE_MAGIC_NUM = 0x434F4D50"
definition BYTECODE_VERSION :: u32 where "BYTECODE_VERSION = 2"
definition MAX_STRING_LENGTH :: nat where "MAX_STRING_LENGTH = 255"
definition SYMB_TBL_START_KEY :: u32 where "SYMB_TBL_START_KEY = 1"

datatype RawOp =
    OpEqualCondition | OpInequalCondition | OpUnconditionalJump | OpJumpIfEqual
  | OpJumpIfNotEqual | OpJumpLandPad | OpAbort

fun raw_op_byte :: "RawOp \<Rightarrow> u8" where
  "raw_op_byte OpEqualCondition = 0x01"
| "raw_op_byte OpInequalCondition = 0x02"
| "raw_op_byte OpUnconditionalJump = 0x10"
| "raw_op_byte OpJumpIfEqual = 0x11"
| "raw_op_byte OpJumpIfNotEqual = 0x12"
| "raw_op_byte OpJumpLandPad = 0x20"
| "raw_op_byte OpAbort = 0x30"

definition raw_op_of :: "u8 \<Rightarrow> RawOp option" where
  "raw_op_of b =
     (if b = 0x01 then Some OpEqualCondition
      else if b = 0x02 then Some OpInequalCondition
      else if b = 0x10 then Some OpUnconditionalJump
      else if b = 0x11 then Some OpJumpIfEqual
      else if b = 0x12 then Some OpJumpIfNotEqual
      else if b = 0x20 then Some OpJumpLandPad
      else if b = 0x30 then Some OpAbort
      else None)"

datatype RawValueType = RvKey | RvNumberValue | RvStringValue | RvBoolValue | RvEnumValue

fun raw_value_byte :: "RawValueType \<Rightarrow> u8" where
  "raw_value_byte RvKey = 0"
| "raw_value_byte RvNumberValue = 1"
| "raw_value_byte RvStringValue = 2"
| "raw_value_byte RvBoolValue = 3"
| "raw_value_byte RvEnumValue = 4"

definition raw_value_of :: "u8 \<Rightarrow> RawValueType option" where
  "raw_value_of b =
     (if b = 0 then Some RvKey
      else if b = 1 then Some RvNumberValue
      else if b = 2 then Some RvStringValue
      else if b = 3 then Some RvBoolValue
      else if b = 4 then Some RvEnumValue
      else None)"

datatype RawNodeType = RnPrimary | RnAdditional

fun raw_node_byte :: "RawNodeType \<Rightarrow> u8" where
  "raw_node_byte RnPrimary = 0x50"
| "raw_node_byte RnAdditional = 0x51"

definition raw_node_of :: "u8 \<Rightarrow> RawNodeType option" where
  "raw_node_of b =
     (if b = 0x50 then Some RnPrimary else if b = 0x51 then Some RnAdditional else None)"

lemma raw_op_of_byte [simp]: "raw_op_of (raw_op_byte op) = Some op"
  by (cases op) (simp_all add: raw_op_of_def)

lemma raw_value_of_byte [simp]: "raw_value_of (raw_value_byte t) = Some t"
  by (cases t) (simp_all add: raw_value_of_def)

lemma raw_node_of_byte [simp]: "raw_node_of (raw_node_byte t) = Some t"
  by (cases t) (simp_all add: raw_node_of_def)

lemma raw_op_byte_inject [simp]: "raw_op_byte a = raw_op_byte b \<longleftrightarrow> a = b"
  by (metis option.inject raw_op_of_byte)

end
