(* ===== verification/Interp_Common.thy ===== *)
theory Interp_Common
  imports Bytecode
begin

text \<open>
  \<open>interpreter/common.rs\<close>: the errors of the bytecode interpreter and the readers of a byte
  iterator. A \<open>BytecodeIter\<close> is the list of the bytes left.
\<close>

section \<open>Errors and readers\<close>

datatype BytecodeError =
    BeUnexpectedEnd
  | BeInvalidHeader u32 u32
  | BeInvalidVersion u32
  | BeInvalidStringLength
  | BeEmptyString
  | BeUtf8ConversionFailure
  | BeInvalidSymbolTableKey u32
  | BeIncorrectSectionSize
  | BeInvalidOp u8
  | BeInvalidValueType u8
  | BeInvalidBoolValue u32
  | BeMissingEntryInSymbolTable u32
  | BeMismatchValueTypes
  | BeInvalidJumpLocation
  | BeInvalidKeyType
  | BeInvalidPrimaryNode
  | BeMultiplePrimaryNodes
  | BeInvalidNodeType u8
  | BeIncorrectNodeSectionSize
  | BeMissingDeviceNameInSymbolTable
  | BeMissingNodeIdInSymbolTable

type_synonym BytecodeIter = "u8 list"

fun next_u8 :: "BytecodeIter \<Rightarrow> (u8 \<times> BytecodeIter, BytecodeError) result" where
  "next_u8 [] = Err BeUnexpectedEnd"
| "next_u8 (b # bs) = Ok (b, bs)"

text \<open>\<open>n\<close> calls of \<open>next_u8\<close>: the loops \<open>for i in 0..n { bytes[i] = *next_u8(iter)?; }\<close>.\<close>

fun next_bytes :: "nat \<Rightarrow> BytecodeIter \<Rightarrow> (u8 list \<times> BytecodeIter, BytecodeError) result" where
  "next_bytes 0 it = Ok ([], it)"
| "next_bytes (Suc n) it =
     and_then (next_u8 it) (\<lambda>(b, it).
     and_then (next_bytes n it) (\<lambda>(bs, it). Ok (b # bs, it)))"

definition next_u32 :: "BytecodeIter \<Rightarrow> (u32 \<times> BytecodeIter, BytecodeError) result" where
  "next_u32 it = and_then (next_bytes 4 it) (\<lambda>(bs, it). Ok (from_le_bytes bs, it))"

definition try_next_u32 :: "BytecodeIter \<Rightarrow> (u32 option \<times> BytecodeIter, BytecodeError) result" where
  "try_next_u32 it =
     (case it of
        [] \<Rightarrow> Ok (None, [])
      | b # it \<Rightarrow>
          and_then (next_bytes 3 it) (\<lambda>(bs, it). Ok (Some (from_le_bytes (b # bs)), it)))"

section \<open>The contract of a reader\<close>

text \<open>
  Every reader of the interpreter consumes a prefix of the bytes, never panics, and inverts the
  encoding of its type. The first law bounds the remaining bytes, which is what the loops of the
  interpreter terminate by.
\<close>

locale byte_reader =
  fixes read :: "u8 list \<Rightarrow> ('a \<times> u8 list, BytecodeError) result"
  assumes read_suffix: "read bs = Ok (x, rest) \<Longrightarrow> \<exists>pre. bs = pre @ rest"
    and read_no_panic: "read bs \<noteq> Panic"
begin

lemma read_length: "read bs = Ok (x, rest) \<Longrightarrow> length rest \<le> length bs"
  using read_suffix [of bs x rest] by auto

lemma read_then_length:
  "and_then (read bs) f = Ok y \<Longrightarrow> (\<And>x rest. f (x, rest) = Ok y \<Longrightarrow> n \<le> length rest) \<Longrightarrow> n \<le> length bs"
  using read_length by (fastforce simp: result_simps)

end

locale byte_codec = byte_reader read
  for read :: "u8 list \<Rightarrow> ('a \<times> u8 list, BytecodeError) result" +
  fixes enc :: "'a \<Rightarrow> u8 list" and valid :: "'a \<Rightarrow> bool"
  assumes read_enc: "valid x \<Longrightarrow> read (enc x @ rest) = Ok (x, rest)"
begin

lemma enc_inject: "valid x \<Longrightarrow> valid y \<Longrightarrow> enc x @ r = enc y @ s \<Longrightarrow> x = y \<and> r = s"
  by (metis read_enc result.inject(1) Pair_inject)

end

lemma next_bytes_take:
  "next_bytes n it = (if n \<le> length it then Ok (take n it, drop n it) else Err BeUnexpectedEnd)"
proof (induction n arbitrary: it)
  case (Suc n)
  then show ?case by (cases it) auto
qed simp

lemma next_bytes_append [simp]: "length bs = n \<Longrightarrow> next_bytes n (bs @ rest) = Ok (bs, rest)"
  by (simp add: next_bytes_take)

interpretation rd8: byte_codec next_u8 "\<lambda>b. [b]" "\<lambda>_. True"
proof
  show "next_u8 bs = Ok (x, rest) \<Longrightarrow> \<exists>pre. bs = pre @ rest" for bs x rest
    by (cases bs) (auto intro: exI [of _ "[x]"])
  show "next_u8 bs \<noteq> Panic" for bs
    by (cases bs) simp_all
qed simp

interpretation rdn: byte_reader "next_bytes n" for n
proof
  show "next_bytes n bs = Ok (x, rest) \<Longrightarrow> \<exists>pre. bs = pre @ rest" for bs x rest
    by (metis append_take_drop_id next_bytes_take result.distinct(1) result.inject(1) Pair_inject)
qed (simp add: next_bytes_take)

interpretation rd32: byte_codec next_u32 to_le_bytes "\<lambda>_. True"
proof
  show "next_u32 bs = Ok (x, rest) \<Longrightarrow> \<exists>pre. bs = pre @ rest" for bs x rest
    by (auto simp: next_u32_def result_simps dest: rdn.read_suffix)
  show "next_u32 bs \<noteq> Panic" for bs
    using rdn.read_no_panic [of 4 bs] by (auto simp: next_u32_def result_simps)
qed (simp add: next_u32_def)

lemma next_u32_to_le_bytes [simp]: "next_u32 (to_le_bytes w @ rest) = Ok (w, rest)"
  using rd32.read_enc by simp

lemma try_next_u32_to_le_bytes [simp]: "try_next_u32 (to_le_bytes w @ rest) = Ok (Some w, rest)"
proof -
  obtain a b c d where bytes: "to_le_bytes w = [a, b, c, d]"
    by (rule to_le_bytes_split)
  with from_to_le_bytes [of w] show ?thesis
    by (simp add: try_next_u32_def numeral_3_eq_3 bytes)
qed

lemma try_next_u32_length:
  "try_next_u32 bs = Ok (Some x, rest) \<Longrightarrow> length bs = length rest + 4"
  by (cases bs) (auto simp: try_next_u32_def next_bytes_take result_simps split: if_splits)

lemma try_next_u32_no_panic: "try_next_u32 bs \<noteq> Panic"
  by (cases bs) (auto simp: try_next_u32_def next_bytes_take)

end
