(* ===== verification/Bind_Matcher.thy ===== *)
theory Bind_Matcher
  imports Interp_Common
begin

text \<open>
  \<open>interpreter/match_bind.rs\<close>: the bytecode machine that decides whether the properties of a
  device match a bind rule. \<open>DeviceMatcher\<close> is passed as its parts: the properties and the
  symbol table, which never change, and the bytes left.
\<close>

section \<open>The machine\<close>

datatype MatchCondition = McUnconditional | McEqual | McInequal

datatype PropertyKey = NumberKey u64 | StringKey string

type_synonym DeviceProperties = "PropertyKey \<rightharpoonup> Symbol"
type_synonym DecodedSymbols = "u32 \<rightharpoonup> string"

definition lookup_symbol_table :: "DecodedSymbols \<Rightarrow> u32 \<Rightarrow> (string, BytecodeError) result" where
  "lookup_symbol_table st key = ok_or (st key) (BeMissingEntryInSymbolTable key)"

definition read_next_value :: "DecodedSymbols \<Rightarrow> BytecodeIter \<Rightarrow> (Symbol \<times> BytecodeIter, BytecodeError) result" where
  "read_next_value st it =
     and_then (next_u8 it) (\<lambda>(value_type, it).
     and_then (ok_or (raw_value_of value_type) (BeInvalidValueType value_type)) (\<lambda>value_type.
     and_then (next_u32 it) (\<lambda>(v, it).
       case value_type of
         RvNumberValue \<Rightarrow> Ok (NumberValue (ucast v), it)
       | RvKey \<Rightarrow> and_then (lookup_symbol_table st v) (\<lambda>s. Ok (Key s VtStr, it))
       | RvStringValue \<Rightarrow> and_then (lookup_symbol_table st v) (\<lambda>s. Ok (StringValue s, it))
       | RvBoolValue \<Rightarrow>
           if v = 0 then Ok (BoolValue False, it)
           else if v = 1 then Ok (BoolValue True, it)
           else Err (BeInvalidBoolValue v)
       | RvEnumValue \<Rightarrow> and_then (lookup_symbol_table st v) (\<lambda>s. Ok (EnumValue s, it)))))"

text \<open>\<open>std::mem::discriminant\<close>.\<close>

fun discriminant :: "Symbol \<Rightarrow> nat" where
  "discriminant (DeprecatedKey _) = 0"
| "discriminant (Key _ _) = 1"
| "discriminant (NumberValue _) = 2"
| "discriminant (StringValue _) = 3"
| "discriminant (BoolValue _) = 4"
| "discriminant (EnumValue _) = 5"

definition compare_symbols :: "MatchCondition \<Rightarrow> Symbol \<Rightarrow> Symbol \<Rightarrow> (bool, BytecodeError) result" where
  "compare_symbols condition lhs rhs =
     (if discriminant lhs \<noteq> discriminant rhs then Err BeMismatchValueTypes
      else
        case condition of
          McEqual \<Rightarrow> Ok (lhs = rhs)
        | McInequal \<Rightarrow> Ok (lhs \<noteq> rhs)
        | McUnconditional \<Rightarrow> Panic)"

fun property_key :: "Symbol \<Rightarrow> (PropertyKey, BytecodeError) result" where
  "property_key (NumberValue key) = Ok (NumberKey key)"
| "property_key (StringValue key) = Ok (StringKey key)"
| "property_key (Key key _) = Ok (StringKey key)"
| "property_key _ = Err BeInvalidKeyType"

definition read_and_evaluate_values ::
    "DeviceProperties \<Rightarrow> DecodedSymbols \<Rightarrow> MatchCondition \<Rightarrow> BytecodeIter
     \<Rightarrow> (bool \<times> BytecodeIter, BytecodeError) result" where
  "read_and_evaluate_values props st condition it =
     and_then (read_next_value st it) (\<lambda>(symb, it).
     and_then (property_key symb) (\<lambda>key.
     and_then (read_next_value st it) (\<lambda>(bind_value, it).
     and_then
       (case props key of
          None \<Rightarrow> Ok (condition = McInequal)
        | Some device_value \<Rightarrow> compare_symbols condition device_value bind_value)
       (\<lambda>b. Ok (b, it)))))"

definition evaluate_condition_inst ::
    "DeviceProperties \<Rightarrow> DecodedSymbols \<Rightarrow> RawOp \<Rightarrow> BytecodeIter
     \<Rightarrow> (bool \<times> BytecodeIter, BytecodeError) result" where
  "evaluate_condition_inst props st op it =
     (case op of
        OpEqualCondition \<Rightarrow> read_and_evaluate_values props st McEqual it
      | OpInequalCondition \<Rightarrow> read_and_evaluate_values props st McInequal it
      | _ \<Rightarrow> Panic)"

definition evaluate_jump_inst ::
    "DeviceProperties \<Rightarrow> DecodedSymbols \<Rightarrow> MatchCondition \<Rightarrow> BytecodeIter
     \<Rightarrow> (BytecodeIter, BytecodeError) result" where
  "evaluate_jump_inst props st condition it =
     and_then (next_u32 it) (\<lambda>(offset, it).
     and_then
       (if condition \<noteq> McUnconditional then read_and_evaluate_values props st condition it
        else Ok (True, it)) (\<lambda>(taken, it).
       if \<not> taken then Ok it
       else
         and_then (next_bytes (unat offset) it) (\<lambda>(_, it).
         and_then (next_u8 it) (\<lambda>(b, it).
           if b \<noteq> raw_op_byte OpJumpLandPad then Err BeInvalidJumpLocation else Ok it))))"

section \<open>Termination\<close>

interpretation rdv: byte_reader "read_next_value st" for st
proof
  fix bs x rest
  assume "read_next_value st bs = Ok (x, rest)"
  then obtain b it1 v it2 t where "next_u8 bs = Ok (b, it1)" "next_u32 it1 = Ok (v, it2)" "it2 = rest"
    and "raw_value_of b = Some t"
    by (auto simp: read_next_value_def result_simps)
       (case_tac xa; auto simp: result_simps split: if_splits)
  then show "\<exists>pre. bs = pre @ rest"
    by (auto dest!: rd8.read_suffix rd32.read_suffix)
next
  show "read_next_value st bs \<noteq> Panic" for bs
    using rd8.read_no_panic rd32.read_no_panic
    by (auto simp: read_next_value_def lookup_symbol_table_def result_simps split: RawValueType.splits)
qed

lemma read_and_evaluate_values_length:
  "read_and_evaluate_values props st c it = Ok (b, rest) \<Longrightarrow> length rest \<le> length it"
  by (fastforce simp: read_and_evaluate_values_def result_simps dest!: rdv.read_length)

lemma evaluate_condition_inst_length [termination_simp]:
  "evaluate_condition_inst props st op it = Ok (b, rest) \<Longrightarrow> length rest \<le> length it"
  by (auto simp: evaluate_condition_inst_def split: RawOp.splits dest: read_and_evaluate_values_length)

lemma evaluate_jump_inst_length [termination_simp]:
  "evaluate_jump_inst props st c it = Ok rest \<Longrightarrow> length rest \<le> length it"
  by (fastforce simp: evaluate_jump_inst_def result_simps split: if_splits
      dest!: rd32.read_length rd8.read_length rdn.read_length read_and_evaluate_values_length)

fun match_bind_loop :: "DeviceProperties \<Rightarrow> DecodedSymbols \<Rightarrow> BytecodeIter \<Rightarrow> (bool, BytecodeError) result" where
  "match_bind_loop props st [] = Ok True"
| "match_bind_loop props st (b # it) =
     and_then (ok_or (raw_op_of b) (BeInvalidOp b)) (\<lambda>op.
       case op of
         OpEqualCondition \<Rightarrow>
           and_then (evaluate_condition_inst props st op it) (\<lambda>(ok, it).
             if \<not> ok then Ok False else match_bind_loop props st it)
       | OpInequalCondition \<Rightarrow>
           and_then (evaluate_condition_inst props st op it) (\<lambda>(ok, it).
             if \<not> ok then Ok False else match_bind_loop props st it)
       | OpAbort \<Rightarrow> Ok False
       | OpUnconditionalJump \<Rightarrow>
           and_then (evaluate_jump_inst props st McUnconditional it) (match_bind_loop props st)
       | OpJumpIfEqual \<Rightarrow>
           and_then (evaluate_jump_inst props st McEqual it) (match_bind_loop props st)
       | OpJumpIfNotEqual \<Rightarrow>
           and_then (evaluate_jump_inst props st McInequal it) (match_bind_loop props st)
       | OpJumpLandPad \<Rightarrow> match_bind_loop props st it)"

record MatchBindData =
  mbd_symbol_table :: DecodedSymbols
  mbd_instructions :: "u8 list"

definition match_bind :: "MatchBindData \<Rightarrow> DeviceProperties \<Rightarrow> (bool, BytecodeError) result" where
  "match_bind bind_data props =
     match_bind_loop props (mbd_symbol_table bind_data) (mbd_instructions bind_data)"

end
