(* ===== verification/Bind_Decoder.thy ===== *)
theory Bind_Decoder
  imports Bind_Matcher
begin

text \<open>
  \<open>interpreter/decode_bind_rules.rs\<close>: from bytecode to a symbol table and instruction sections,
  for normal and for composite bind rules, and \<open>match_bytecode\<close> of \<open>match_bind.rs\<close> on top of it.
\<close>

section \<open>Headers\<close>

definition HEADER_SZ :: nat where "HEADER_SZ = 8"
definition NODE_TYPE_HEADER_SZ :: nat where "NODE_TYPE_HEADER_SZ = 9"
definition MINIMUM_BYTECODE_SZ :: nat where "MINIMUM_BYTECODE_SZ = HEADER_SZ * 3"

definition get_u32_bytes :: "u8 list \<Rightarrow> nat \<Rightarrow> (u8 list, BytecodeError) result" where
  "get_u32_bytes bytecode idx =
     (if idx + 4 > length bytecode then Err BeUnexpectedEnd
      else collect_results (\<lambda>i. vec_index bytecode (idx + i)) [0..<4])"

definition read_and_remove_header :: "u8 list \<Rightarrow> u32 \<Rightarrow> (u32 \<times> u8 list, BytecodeError) result" where
  "read_and_remove_header bytecode magic_num =
     and_then (get_u32_bytes bytecode 0) (\<lambda>bs.
       let parsed_magic_num = from_be_bytes bs in
       if parsed_magic_num \<noteq> magic_num then Err (BeInvalidHeader magic_num parsed_magic_num)
       else
         and_then (get_u32_bytes bytecode 4) (\<lambda>v.
         and_then (split_off bytecode HEADER_SZ) (\<lambda>(_, rest).
           Ok (from_le_bytes v, rest))))"

definition verify_and_read_node_header ::
    "u8 list \<Rightarrow> RawNodeType \<Rightarrow> (u32 \<times> u32, BytecodeError) result" where
  "verify_and_read_node_header bytecode expected_node_type =
     (if length bytecode < NODE_TYPE_HEADER_SZ then Err BeUnexpectedEnd
      else
        and_then (vec_index bytecode 0) (\<lambda>b.
        and_then
          (case raw_node_of b of
             Some RnPrimary \<Rightarrow>
               if expected_node_type = RnAdditional then Err BeMultiplePrimaryNodes else Ok ()
           | Some RnAdditional \<Rightarrow>
               if expected_node_type = RnPrimary then Err BeInvalidPrimaryNode else Ok ()
           | None \<Rightarrow> Err (BeInvalidNodeType b)) (\<lambda>_.
        and_then (get_u32_bytes bytecode 1) (\<lambda>node_id.
        and_then (get_u32_bytes bytecode 5) (\<lambda>inst_sz.
          Ok (from_le_bytes node_id, from_le_bytes inst_sz))))))"

section \<open>The symbol table\<close>

fun read_string_loop :: "u8 list \<Rightarrow> BytecodeIter \<Rightarrow> (u8 list \<times> BytecodeIter, BytecodeError) result" where
  "read_string_loop str_bytes [] = Err BeUnexpectedEnd"
| "read_string_loop str_bytes (byte # it) =
     (if byte = 0 then Ok (str_bytes, it)
      else if length (str_bytes @ [byte]) > MAX_STRING_LENGTH then Err BeInvalidStringLength
      else read_string_loop (str_bytes @ [byte]) it)"

definition read_string :: "BytecodeIter \<Rightarrow> (string \<times> BytecodeIter, BytecodeError) result" where
  "read_string it =
     and_then (read_string_loop [] it) (\<lambda>(str_bytes, it).
       if str_bytes = [] then Err BeEmptyString
       else and_then (ok_or (from_utf8 str_bytes) BeUtf8ConversionFailure) (\<lambda>s. Ok (s, it)))"

lemma read_string_loop_suffix:
  "read_string_loop acc it = Ok (x, rest) \<Longrightarrow> \<exists>pre. it = pre @ rest"
  by (induction acc it rule: read_string_loop.induct) (auto split: if_splits)

lemma read_string_loop_no_panic: "read_string_loop acc it \<noteq> Panic"
  by (induction acc it rule: read_string_loop.induct) auto

lemma read_string_loop_append:
  "0 \<notin> set bs \<Longrightarrow> length acc + length bs \<le> MAX_STRING_LENGTH \<Longrightarrow>
   read_string_loop acc (bs @ 0 # rest) = Ok (acc @ bs, rest)"
  by (induction bs arbitrary: acc) auto

text \<open>The strings that survive the symbol table: not empty, at most 255 bytes, no NUL byte.\<close>

definition good_string :: "string \<Rightarrow> bool" where
  "good_string s \<longleftrightarrow>
     s \<noteq> [] \<and> length s \<le> MAX_STRING_LENGTH \<and> 0 \<notin> set (into_bytes s) \<and> rust_string s"

interpretation rdstr: byte_codec read_string "\<lambda>s. into_bytes s @ [0]" good_string
proof
  show "read_string bs = Ok (x, rest) \<Longrightarrow> \<exists>pre. bs = pre @ rest" for bs x rest
    by (auto simp: read_string_def result_simps split: if_splits dest: read_string_loop_suffix)
  show "read_string bs \<noteq> Panic" for bs
    using read_string_loop_no_panic [of "[]" bs] by (auto simp: read_string_def result_simps)
  show "good_string x \<Longrightarrow> read_string ((into_bytes x @ [0]) @ rest) = Ok (x, rest)" for x rest
    by (simp add: good_string_def read_string_def read_string_loop_append)
qed

lemma try_next_u32_termination [termination_simp]:
  "try_next_u32 it = Ok (Some k, it1) \<Longrightarrow> read_string it1 = Ok (s, it2) \<Longrightarrow> length it2 < length it"
  by (fastforce dest!: try_next_u32_length rdstr.read_length)

function read_symbol_table_loop ::
    "DecodedSymbols \<Rightarrow> u32 \<Rightarrow> BytecodeIter \<Rightarrow> (DecodedSymbols, BytecodeError) result" where
  "read_symbol_table_loop symbol_table expected_key it =
     and_then (try_next_u32 it) (\<lambda>(key, it).
       case key of
         None \<Rightarrow> Ok symbol_table
       | Some key \<Rightarrow>
           if key \<noteq> expected_key then Err (BeInvalidSymbolTableKey key)
           else
             and_then (read_string it) (\<lambda>(str_val, it).
             and_then (checked_inc expected_key) (\<lambda>expected_key.
               read_symbol_table_loop (symbol_table(key \<mapsto> str_val)) expected_key it)))"
  by pat_completeness auto
termination
  by (relation "measure (\<lambda>(_, _, it). length it)") (auto intro: try_next_u32_termination)

declare read_symbol_table_loop.simps [simp del]

definition read_symbol_table :: "u8 list \<Rightarrow> (DecodedSymbols, BytecodeError) result" where
  "read_symbol_table bytecode = read_symbol_table_loop Map.empty SYMB_TBL_START_KEY bytecode"

definition get_symbol_table_and_instruction_bytecode ::
    "u8 list \<Rightarrow> (DecodedSymbols \<times> u8 list, BytecodeError) result" where
  "get_symbol_table_and_instruction_bytecode bytecode =
     (if length bytecode < MINIMUM_BYTECODE_SZ then Err BeUnexpectedEnd
      else
        and_then (read_and_remove_header bytecode BIND_MAGIC_NUM) (\<lambda>(version, bytecode).
          if version \<noteq> BYTECODE_VERSION then Err (BeInvalidVersion version)
          else
            and_then (read_and_remove_header bytecode SYMB_MAGIC_NUM)
              (\<lambda>(symbol_table_sz, symbol_table_bytecode).
                if length symbol_table_bytecode < unat symbol_table_sz + HEADER_SZ
                then Err BeIncorrectSectionSize
                else
                  and_then (split_off symbol_table_bytecode (unat symbol_table_sz))
                    (\<lambda>(symbol_table_bytecode, inst_bytecode).
                  and_then (read_symbol_table symbol_table_bytecode) (\<lambda>symbol_table.
                    Ok (symbol_table, inst_bytecode))))))"

section \<open>Decoded rules\<close>

record DecodedBindRules =
  dbr_symbol_table :: DecodedSymbols
  dbr_instructions :: "u8 list"

definition new_DecodedBindRules ::
    "DecodedSymbols \<Rightarrow> u8 list \<Rightarrow> (DecodedBindRules, BytecodeError) result" where
  "new_DecodedBindRules symbol_table inst_bytecode =
     and_then (read_and_remove_header inst_bytecode INSTRUCTION_MAGIC_NUM)
       (\<lambda>(inst_sz, inst_bytecode).
         if length inst_bytecode \<noteq> unat inst_sz then Err BeIncorrectSectionSize
         else Ok \<lparr>dbr_symbol_table = symbol_table, dbr_instructions = inst_bytecode\<rparr>)"

definition from_bytecode :: "u8 list \<Rightarrow> (DecodedBindRules, BytecodeError) result" where
  "from_bytecode bytecode =
     and_then (get_symbol_table_and_instruction_bytecode bytecode)
       (\<lambda>(symbol_table, inst_bytecode). new_DecodedBindRules symbol_table inst_bytecode)"

record DecodedNode =
  nd_name_id :: u32
  nd_instructions :: "u8 list"

definition split_off_node ::
    "u8 list \<Rightarrow> RawNodeType \<Rightarrow> DecodedSymbols \<Rightarrow> (DecodedNode \<times> u8 list, BytecodeError) result" where
  "split_off_node bytecode node_type symbol_table =
     and_then (verify_and_read_node_header bytecode node_type) (\<lambda>(node_id, node_inst_sz).
       if length bytecode < NODE_TYPE_HEADER_SZ + unat node_inst_sz
       then Err BeIncorrectNodeSectionSize
       else if symbol_table node_id = None then Err BeMissingNodeIdInSymbolTable
       else
         and_then (split_off bytecode NODE_TYPE_HEADER_SZ) (\<lambda>(_, node_instructions).
         and_then (split_off node_instructions (unat node_inst_sz))
           (\<lambda>(node_instructions, remaining_bytecode).
             Ok (\<lparr>nd_name_id = node_id, nd_instructions = node_instructions\<rparr>, remaining_bytecode))))"

record DecodedCompositeBindRules =
  dcr_symbol_table :: DecodedSymbols
  dcr_device_name_id :: u32
  dcr_primary_node :: DecodedNode
  dcr_additional_nodes :: "DecodedNode list"

lemma split_off_node_length [termination_simp]:
  "split_off_node bc t st = Ok (nd, rest) \<Longrightarrow> length rest < length bc"
  by (auto simp: split_off_node_def NODE_TYPE_HEADER_SZ_def result_simps split: if_splits)

function additional_nodes_loop ::
    "DecodedSymbols \<Rightarrow> DecodedNode list \<Rightarrow> u8 list \<Rightarrow> (DecodedNode list, BytecodeError) result" where
  "additional_nodes_loop symbol_table additional_nodes node_bytecode =
     (if node_bytecode = [] then Ok additional_nodes
      else
        and_then (split_off_node node_bytecode RnAdditional symbol_table) (\<lambda>(nd, remaining).
          additional_nodes_loop symbol_table (additional_nodes @ [nd]) remaining))"
  by pat_completeness auto
termination
  by (relation "measure (\<lambda>(_, _, bc). length bc)") (auto intro: split_off_node_length)

declare additional_nodes_loop.simps [simp del]

definition new_DecodedCompositeBindRules ::
    "DecodedSymbols \<Rightarrow> u8 list \<Rightarrow> (DecodedCompositeBindRules, BytecodeError) result" where
  "new_DecodedCompositeBindRules symbol_table composite_inst_bytecode =
     and_then (read_and_remove_header composite_inst_bytecode COMPOSITE_MAGIC_NUM)
       (\<lambda>(composite_inst_sz, composite_inst_bytecode).
         if length composite_inst_bytecode \<noteq> unat composite_inst_sz then Err BeIncorrectSectionSize
         else
           and_then (get_u32_bytes composite_inst_bytecode 0) (\<lambda>bs.
             let device_name_id = from_le_bytes bs in
             if symbol_table device_name_id = None then Err BeMissingDeviceNameInSymbolTable
             else
               and_then (split_off composite_inst_bytecode 4) (\<lambda>(_, node_bytecode).
               and_then (split_off_node node_bytecode RnPrimary symbol_table)
                 (\<lambda>(primary_node, node_bytecode).
               and_then (additional_nodes_loop symbol_table [] node_bytecode) (\<lambda>additional_nodes.
                 Ok \<lparr>dcr_symbol_table = symbol_table, dcr_device_name_id = device_name_id,
                     dcr_primary_node = primary_node, dcr_additional_nodes = additional_nodes\<rparr>)))))"

definition composite_from_bytecode :: "u8 list \<Rightarrow> (DecodedCompositeBindRules, BytecodeError) result" where
  "composite_from_bytecode bytecode =
     and_then (get_symbol_table_and_instruction_bytecode bytecode)
       (\<lambda>(symbol_table, inst_bytecode). new_DecodedCompositeBindRules symbol_table inst_bytecode)"

datatype DecodedRules =
    Normal DecodedBindRules
  | Composite DecodedCompositeBindRules

definition new_DecodedRules :: "u8 list \<Rightarrow> (DecodedRules, BytecodeError) result" where
  "new_DecodedRules bytecode =
     and_then (get_symbol_table_and_instruction_bytecode bytecode) (\<lambda>(symbol_table, inst_bytecode).
     and_then (get_u32_bytes inst_bytecode 0) (\<lambda>bs.
       if from_be_bytes bs = COMPOSITE_MAGIC_NUM
       then and_then (new_DecodedCompositeBindRules symbol_table inst_bytecode) (\<lambda>r. Ok (Composite r))
       else and_then (new_DecodedBindRules symbol_table inst_bytecode) (\<lambda>r. Ok (Normal r))))"

text \<open>\<open>match_bytecode\<close> of \<open>match_bind.rs\<close>.\<close>

definition match_bytecode :: "u8 list \<Rightarrow> DeviceProperties \<Rightarrow> (bool, BytecodeError) result" where
  "match_bytecode bytecode props =
     and_then (from_bytecode bytecode) (\<lambda>rules.
       match_bind_loop props (dbr_symbol_table rules) (dbr_instructions rules))"

end
