(* ===== verification/Symbol_Encoder.thy ===== *)
theory Symbol_Encoder
  imports Bytecode
begin

text \<open>
  \<open>bytecode_encoder/symbol_table_encoder.rs\<close>: strings get the keys 1, 2, 3, \<dots> in the order in
  which they are first used, and every new string is appended to the symbol table section. The
  map \<open>encoded_symbols\<close> is never iterated over.
\<close>

section \<open>The encoder\<close>

record SymbolTableEncoder =
  encoded_symbols :: "string \<rightharpoonup> u32"
  unique_key :: u32
  ste_bytecode :: "u8 list"

definition new_symbol_table_encoder :: SymbolTableEncoder where
  "new_symbol_table_encoder =
     \<lparr>encoded_symbols = Map.empty, unique_key = SYMB_TBL_START_KEY, ste_bytecode = []\<rparr>"

definition add_symbol ::
    "string \<Rightarrow> SymbolTableEncoder \<Rightarrow> (u32 \<times> SymbolTableEncoder, BindRulesEncodeError) result" where
  "add_symbol v e =
     (if length v > MAX_STRING_LENGTH then Err (EeInvalidStringLength v)
      else
        and_then (checked_inc (unique_key e)) (\<lambda>next_key.
          Ok (unique_key e,
              \<lparr>encoded_symbols = (encoded_symbols e)(v \<mapsto> unique_key e),
               unique_key = next_key,
               ste_bytecode = ste_bytecode e @ to_le_bytes (unique_key e) @ into_bytes v @ [0]\<rparr>)))"

definition get_key ::
    "string \<Rightarrow> SymbolTableEncoder \<Rightarrow> (u32 \<times> SymbolTableEncoder, BindRulesEncodeError) result" where
  "get_key v e =
     (case encoded_symbols e v of Some key \<Rightarrow> Ok (key, e) | None \<Rightarrow> add_symbol v e)"

section \<open>The invariant\<close>

text \<open>The symbol table section that lists \<open>ss\<close> with consecutive keys from \<open>n\<close>.\<close>

fun symbol_bytes :: "nat \<Rightarrow> string list \<Rightarrow> u8 list" where
  "symbol_bytes n [] = []"
| "symbol_bytes n (s # ss) =
     to_le_bytes (as_u32 n) @ into_bytes s @ [0] @ symbol_bytes (Suc n) ss"

text \<open>The table that the section denotes.\<close>

definition symbols_of :: "string list \<Rightarrow> u32 \<rightharpoonup> string" where
  "symbols_of ss k = (if 0 < unat k \<and> unat k \<le> length ss then Some (ss ! (unat k - 1)) else None)"

definition ste_inv :: "SymbolTableEncoder \<Rightarrow> string list \<Rightarrow> bool" where
  "ste_inv e ss \<longleftrightarrow>
     distinct ss \<and> list_all (\<lambda>s. length s \<le> MAX_STRING_LENGTH) ss \<and> Suc (length ss) < 2 ^ 32
     \<and> unat (unique_key e) = Suc (length ss)
     \<and> (\<forall>s k. encoded_symbols e s = Some k \<longleftrightarrow> symbols_of ss k = Some s)
     \<and> ste_bytecode e = symbol_bytes 1 ss"

lemma symbol_bytes_append:
  "symbol_bytes n (ss @ ts) = symbol_bytes n ss @ symbol_bytes (n + length ss) ts"
  by (induction ss arbitrary: n) auto

lemma symbols_of_snoc:
  "unat k = Suc (length ss) \<Longrightarrow> symbols_of (ss @ [s]) = (symbols_of ss)(k \<mapsto> s)"
  by (rule ext) (auto simp: symbols_of_def nth_append word_unat_eq_iff split: if_splits)

lemma symbols_of_Nil [simp]: "symbols_of [] = Map.empty"
  by (rule ext) (auto simp: symbols_of_def)

lemma symbols_of_SomeD: "symbols_of ss k = Some s \<Longrightarrow> s \<in> set ss"
  by (auto simp: symbols_of_def split: if_splits)

lemma symbols_of_ex:
  assumes "s \<in> set ss" and "Suc (length ss) < 2 ^ 32"
  shows "\<exists>k. symbols_of ss k = Some s"
proof -
  from assms(1) obtain i where i: "i < length ss" "ss ! i = s"
    by (auto simp: in_set_conv_nth)
  have "unat (as_u32 (Suc i)) = Suc i"
    using i assms(2) by (intro unat_as_u32) simp
  with i have "symbols_of ss (as_u32 (Suc i)) = Some s"
    by (simp add: symbols_of_def del: of_nat_Suc)
  then show ?thesis ..
qed

lemma ste_inv_new: "ste_inv new_symbol_table_encoder []"
  by (simp add: ste_inv_def new_symbol_table_encoder_def SYMB_TBL_START_KEY_def)

text \<open>A key stays valid for ever, and a new string is appended.\<close>

lemma ste_inv_mem: "ste_inv e ss \<Longrightarrow> v \<in> set ss \<longleftrightarrow> encoded_symbols e v \<noteq> None"
  using symbols_of_SomeD [of ss _ v] symbols_of_ex [of v ss] by (auto simp: ste_inv_def)

lemma add_symbol_inv:
  assumes inv: "ste_inv e ss" and new: "encoded_symbols e v = None" and "add_symbol v e = Ok (k, e')"
  shows "ste_inv e' (ss @ [v]) \<and> encoded_symbols e' = (encoded_symbols e)(v \<mapsto> k)"
proof -
  from assms(3) have e': "length v \<le> MAX_STRING_LENGTH" "unique_key e \<noteq> - 1" "k = unique_key e"
    "e' = \<lparr>encoded_symbols = (encoded_symbols e)(v \<mapsto> unique_key e), unique_key = unique_key e + 1,
           ste_bytecode = ste_bytecode e @ to_le_bytes (unique_key e) @ into_bytes v @ [0]\<rparr>"
    by (auto simp: add_symbol_def result_simps split: if_splits)
  have n: "unat (unique_key e + 1) = Suc (Suc (length ss))"
    using unat_checked_inc [of "unique_key e" "unique_key e + 1"] e'(2) inv
    by (simp add: checked_inc_def ste_inv_def)
  have k: "unat (unique_key e) = Suc (length ss)" "as_u32 (Suc (length ss)) = unique_key e"
    using inv by (auto simp: ste_inv_def simp del: of_nat_Suc dest: sym)
  have "symbols_of ss (unique_key e) = None"
    using k(1) by (simp add: symbols_of_def)
  moreover have "v \<notin> set ss"
    using ste_inv_mem [OF inv] new by simp
  ultimately show ?thesis
    using inv e' n k unat_u32_less [of "unique_key e + 1"]
    by (auto simp: ste_inv_def symbols_of_snoc symbol_bytes_append simp del: of_nat_Suc
        dest: symbols_of_SomeD)
qed

text \<open>\<open>ste_extends V e e'\<close>: \<open>e'\<close> has the keys of \<open>e\<close> and keys for the strings of \<open>V\<close>, and no other.\<close>

definition ste_extends :: "string set \<Rightarrow> SymbolTableEncoder \<Rightarrow> SymbolTableEncoder \<Rightarrow> bool" where
  "ste_extends V e e' \<longleftrightarrow>
     encoded_symbols e \<subseteq>\<^sub>m encoded_symbols e' \<and> V \<subseteq> dom (encoded_symbols e')
     \<and> (\<forall>ss. ste_inv e ss \<longrightarrow> (\<exists>ts. ste_inv e' (ss @ ts) \<and> set ts \<subseteq> V))"

lemma ste_extends_refl [simp]: "ste_extends {} e e"
  by (auto simp: ste_extends_def intro: exI [of _ "[]"])

lemma ste_extends_trans:
  assumes "ste_extends V e e1" and "ste_extends W e1 e2"
  shows "ste_extends (V \<union> W) e e2"
proof -
  have "dom (encoded_symbols e1) \<subseteq> dom (encoded_symbols e2)"
    using assms(2) by (simp add: ste_extends_def map_le_implies_dom_le)
  moreover have "\<exists>ts. ste_inv e2 (ss @ ts) \<and> set ts \<subseteq> V \<union> W" if inv: "ste_inv e ss" for ss
  proof -
    from inv assms(1) obtain ts where ts: "ste_inv e1 (ss @ ts)" "set ts \<subseteq> V"
      by (auto simp: ste_extends_def)
    with assms(2) obtain us where "ste_inv e2 (ss @ ts @ us)" "set us \<subseteq> W"
      by (auto simp: ste_extends_def)
    with ts show ?thesis by (intro exI [of _ "ts @ us"]) auto
  qed
  moreover have "encoded_symbols e \<subseteq>\<^sub>m encoded_symbols e2" "V \<subseteq> dom (encoded_symbols e1)"
      "W \<subseteq> dom (encoded_symbols e2)"
    using assms by (simp_all add: ste_extends_def) (blast intro: map_le_trans)
  ultimately show ?thesis
    by (simp add: ste_extends_def)
qed

lemma get_key_extends:
  assumes "get_key v e = Ok (k, e')"
  shows "ste_extends {v} e e' \<and> encoded_symbols e' v = Some k"
proof (cases "encoded_symbols e v")
  case None
  with assms have add: "add_symbol v e = Ok (k, e')"
    by (simp add: get_key_def)
  then have "encoded_symbols e' = (encoded_symbols e)(v \<mapsto> k)"
    by (auto simp: add_symbol_def result_simps split: if_splits)
  with None add_symbol_inv [OF _ None add] show ?thesis
    by (fastforce simp: ste_extends_def map_le_def intro: exI [of _ "[v]"])
next
  case (Some k')
  with assms show ?thesis
    by (auto simp: get_key_def ste_extends_def intro: exI [of _ "[]"])
qed

end
