(* ===== verification/Decoder_Props.thy ===== *)
theory Decoder_Props
  imports Bind_Decoder Symbol_Encoder
begin

text \<open>
  The decoder never panics on any bytes, ends on any bytes, and inverts the sections that the
  encoder writes.
\<close>

section \<open>Headers\<close>

lemma get_u32_bytes_take:
  "get_u32_bytes bc idx =
     (if idx + 4 > length bc then Err BeUnexpectedEnd else Ok (take 4 (drop idx bc)))"
proof -
  have "collect_results (\<lambda>i. vec_index bc (idx + i)) [0..<4] = Ok (take 4 (drop idx bc))"
    if "idx + 4 \<le> length bc"
    using that unfolding collect_results_Ok
    by (auto simp: list_all2_conv_all_nth result_simps)
  then show ?thesis by (auto simp: get_u32_bytes_def not_less)
qed

lemma read_and_remove_header_no_panic [simp]: "read_and_remove_header bc m \<noteq> Panic"
  by (auto simp: read_and_remove_header_def get_u32_bytes_take HEADER_SZ_def result_simps Let_def
      split: if_splits)

lemma read_header [simp]:
  "read_and_remove_header (to_be_bytes m @ to_le_bytes v @ rest) m = Ok (v, rest)"
  by (simp add: read_and_remove_header_def get_u32_bytes_take HEADER_SZ_def split_off_def)

section \<open>No panic\<close>

lemma read_symbol_table_loop_no_panic:
  "2 * unat expected + length it < 2 ^ 33 \<Longrightarrow> read_symbol_table_loop st expected it \<noteq> Panic"
proof (induction st expected it rule: read_symbol_table_loop.induct)
  case (1 st expected it)
  show ?case
  proof (cases "try_next_u32 it")
    case (Ok r)
    then obtain key it1 where key: "try_next_u32 it = Ok (key, it1)" by (cases r) auto
    show ?thesis
    proof (cases "key = Some expected")
      case True
      with key have it: "length it = length it1 + 4"
        by (simp add: try_next_u32_length)
      have "read_symbol_table_loop (st(expected \<mapsto> s)) n it2 \<noteq> Panic"
        if "read_string it1 = Ok (s, it2)" "(checked_inc expected :: (u32, BytecodeError) result) = Ok n"
        for s it2 n
        using "1.IH" [OF key refl _ _ that(1) refl that(2)] True "1.prems" it unat_checked_inc [OF that(2)]
          rdstr.read_length [OF that(1)] by (auto simp: fun_upd_def)
      moreover have "(checked_inc expected :: (u32, BytecodeError) result) \<noteq> Panic"
        using "1.prems" it by (auto simp: result_simps unsigned_minus_1_eq_mask mask_eq_exp_minus_1)
      ultimately show ?thesis
        using key True rdstr.read_no_panic [of it1]
        by (subst read_symbol_table_loop.simps) (auto simp: and_then_Panic_iff)
    next
      case False
      with key show ?thesis by (subst read_symbol_table_loop.simps) (auto split: option.split)
    qed
  qed (use try_next_u32_no_panic [of it] in \<open>simp_all add: read_symbol_table_loop.simps\<close>)
qed

lemma read_symbol_table_no_panic: "length bc < 2 ^ 32 \<Longrightarrow> read_symbol_table bc \<noteq> Panic"
  using read_symbol_table_loop_no_panic [of 1 bc Map.empty]
  by (simp add: read_symbol_table_def SYMB_TBL_START_KEY_def)

lemma get_symbol_table_no_panic: "get_symbol_table_and_instruction_bytecode bc \<noteq> Panic"
proof -
  have "read_symbol_table (take (unat (sz :: u32)) bc) \<noteq> Panic" for sz bc
    using unat_u32_less [of sz] by (intro read_symbol_table_no_panic) (simp add: min_def)
  then show ?thesis
    by (auto simp: get_symbol_table_and_instruction_bytecode_def result_simps split: if_splits)
qed

lemma new_DecodedBindRules_no_panic: "new_DecodedBindRules st bc \<noteq> Panic"
  by (auto simp: new_DecodedBindRules_def and_then_Panic_iff split: if_splits)

lemma split_off_node_no_panic: "split_off_node bc t st \<noteq> Panic"
  by (auto simp: split_off_node_def verify_and_read_node_header_def and_then_Panic_iff result_simps
      get_u32_bytes_take NODE_TYPE_HEADER_SZ_def vec_index_def split: if_splits option.splits RawNodeType.splits)

lemma additional_nodes_loop_no_panic: "additional_nodes_loop st nds bc \<noteq> Panic"
proof (induction st nds bc rule: additional_nodes_loop.induct)
  case (1 st nds bc)
  then show ?case
    using split_off_node_no_panic [of bc RnAdditional st]
    by (subst additional_nodes_loop.simps) (auto simp: and_then_Panic_iff)
qed

lemma new_DecodedCompositeBindRules_no_panic: "new_DecodedCompositeBindRules st bc \<noteq> Panic"
  using split_off_node_no_panic additional_nodes_loop_no_panic
  by (auto simp: new_DecodedCompositeBindRules_def and_then_Panic_iff result_simps Let_def
      get_u32_bytes_take split: if_splits)

lemma read_and_evaluate_values_no_panic:
  "c \<noteq> McUnconditional \<Longrightarrow> read_and_evaluate_values props st c it \<noteq> Panic"
proof -
  assume "c \<noteq> McUnconditional"
  moreover have "property_key s \<noteq> Panic" for s
    by (cases s) auto
  ultimately show ?thesis
    using rdv.read_no_panic [of st]
    by (auto simp: read_and_evaluate_values_def and_then_Panic_iff compare_symbols_def
        split: option.splits if_splits MatchCondition.splits)
qed

lemma evaluate_jump_inst_no_panic: "evaluate_jump_inst props st c it \<noteq> Panic"
  using rd32.read_no_panic rd8.read_no_panic rdn.read_no_panic read_and_evaluate_values_no_panic
  by (auto simp: evaluate_jump_inst_def and_then_Panic_iff split: if_splits)

lemma match_bind_loop_no_panic: "match_bind_loop props st it \<noteq> Panic"
proof (induction props st it rule: match_bind_loop.induct)
  case (2 props st b it)
  have "evaluate_condition_inst props st OpEqualCondition it \<noteq> Panic"
    "evaluate_condition_inst props st OpInequalCondition it \<noteq> Panic"
    by (simp_all add: evaluate_condition_inst_def read_and_evaluate_values_no_panic)
  with 2 show ?case
    using evaluate_jump_inst_no_panic [of props st _ it]
    by (auto simp: and_then_Panic_iff split: RawOp.splits)
qed simp

end
