(* ===== verification/Instr_Encoder.thy ===== *)
theory Instr_Encoder
  imports Symbol_Encoder
begin

text \<open>
  \<open>bytecode_encoder/instruction_encoder.rs\<close>: symbolic instructions to bytecode. A jump is
  first written with a zero offset; \<open>label_map\<close> remembers where labels and offsets are, and a
  second pass writes the offsets. The pass iterates over the hash map: the model keeps the
  entries in insertion order, and \<open>patch_labels\<close> takes the entries as an argument, so that its
  lemmas hold for every order.
\<close>

section \<open>Encoder state\<close>

record JumpInstructionOffsetInfo =
  jo_index :: nat
  jo_inst_offset :: nat

record LabelInfo =
  li_index :: "nat option"
  li_jump_instructions :: "JumpInstructionOffsetInfo list"

type_synonym LabelMap = "(u32 \<times> LabelInfo) list"

fun is_symbol_key :: "Symbol \<Rightarrow> bool" where
  "is_symbol_key (DeprecatedKey _) = True"
| "is_symbol_key (Key _ _) = True"
| "is_symbol_key _ = False"

section \<open>Appending instructions\<close>

definition append_value ::
    "u8 list \<Rightarrow> SymbolTableEncoder \<Rightarrow> Symbol
     \<Rightarrow> (u8 list \<times> SymbolTableEncoder, BindRulesEncodeError) result" where
  "append_value bytecode e symb =
     and_then
       (case symb of
          NumberValue v \<Rightarrow> Ok (RvNumberValue, ucast v, e)
        | BoolValue v \<Rightarrow> Ok (RvBoolValue, if v then 1 else 0, e)
        | StringValue v \<Rightarrow> and_then (get_key v e) (\<lambda>(k, e). Ok (RvStringValue, k, e))
        | Key k _ \<Rightarrow> and_then (get_key k e) (\<lambda>(k, e). Ok (RvKey, k, e))
        | DeprecatedKey k \<Rightarrow> Ok (RvNumberValue, k, e)
        | EnumValue v \<Rightarrow> and_then (get_key v e) (\<lambda>(k, e). Ok (RvEnumValue, k, e)))
       (\<lambda>(value_type, v, e). Ok (bytecode @ [raw_value_byte value_type] @ to_le_bytes v, e))"

fun rhs_value_type :: "Symbol \<Rightarrow> ValueType option" where
  "rhs_value_type (NumberValue _) = Some VtNumber"
| "rhs_value_type (StringValue _) = Some VtStr"
| "rhs_value_type (BoolValue _) = Some VtBool"
| "rhs_value_type (EnumValue _) = Some VtEnum"
| "rhs_value_type _ = None"

definition append_value_comparison ::
    "u8 list \<Rightarrow> SymbolTableEncoder \<Rightarrow> Symbol \<Rightarrow> Symbol
     \<Rightarrow> (u8 list \<times> SymbolTableEncoder, BindRulesEncodeError) result" where
  "append_value_comparison bytecode e lhs rhs =
     (if \<not> is_symbol_key lhs then Err EeIncorrectTypesInValueComparison
      else
        and_then (ok_or (rhs_value_type rhs) EeIncorrectTypesInValueComparison) (\<lambda>rhs_val_type.
        and_then
          (case lhs of
             Key _ lhs_val_type \<Rightarrow>
               if lhs_val_type \<noteq> rhs_val_type
               then Err (EeMismatchValueTypes lhs_val_type rhs_val_type) else Ok ()
           | _ \<Rightarrow> Ok ()) (\<lambda>_.
        and_then (append_value bytecode e lhs) (\<lambda>(bytecode, e).
          append_value bytecode e rhs))))"

fun append_abort_instruction ::
    "u8 list \<Rightarrow> SymbolTableEncoder \<Rightarrow> InstCondition
     \<Rightarrow> (u8 list \<times> SymbolTableEncoder, BindRulesEncodeError) result" where
  "append_abort_instruction bytecode e Always = Ok (bytecode @ [raw_op_byte OpAbort], e)"
| "append_abort_instruction bytecode e (Equal lhs rhs) =
     append_value_comparison (bytecode @ [raw_op_byte OpInequalCondition]) e lhs rhs"
| "append_abort_instruction bytecode e (NotEqual lhs rhs) =
     append_value_comparison (bytecode @ [raw_op_byte OpEqualCondition]) e lhs rhs"

definition label_seen :: "LabelMap \<Rightarrow> u32 \<Rightarrow> bool" where
  "label_seen lm l \<longleftrightarrow> (case map_of lm l of Some d \<Rightarrow> li_index d \<noteq> None | None \<Rightarrow> False)"

text \<open>\<open>label_map.entry(l).or_insert(\<dots>).jump_instructions.push(u)\<close>.\<close>

definition push_usage :: "u32 \<Rightarrow> JumpInstructionOffsetInfo \<Rightarrow> LabelMap \<Rightarrow> LabelMap" where
  "push_usage l u lm =
     (let d = (case map_of lm l of Some d \<Rightarrow> d
               | None \<Rightarrow> \<lparr>li_index = None, li_jump_instructions = []\<rparr>)
      in AList.update l (d\<lparr>li_jump_instructions := li_jump_instructions d @ [u]\<rparr>) lm)"

definition append_jmp_statement ::
    "LabelMap \<Rightarrow> u8 list \<Rightarrow> SymbolTableEncoder \<Rightarrow> InstCondition \<Rightarrow> u32
     \<Rightarrow> (LabelMap \<times> u8 list \<times> SymbolTableEncoder, BindRulesEncodeError) result" where
  "append_jmp_statement lm bytecode e condition label_id =
     (let offset_index = length bytecode + 1; placeholder_offset = to_le_bytes 0 in
      and_then
        (case condition of
           Always \<Rightarrow> Ok (bytecode @ [raw_op_byte OpUnconditionalJump] @ placeholder_offset, e)
         | Equal lhs rhs \<Rightarrow>
             append_value_comparison
               (bytecode @ [raw_op_byte OpJumpIfEqual] @ placeholder_offset) e lhs rhs
         | NotEqual lhs rhs \<Rightarrow>
             append_value_comparison
               (bytecode @ [raw_op_byte OpJumpIfNotEqual] @ placeholder_offset) e lhs rhs)
        (\<lambda>(bytecode, e).
           if label_seen lm label_id then Err (EeInvalidGotoLocation label_id)
           else
             Ok (push_usage label_id
                   \<lparr>jo_index = offset_index, jo_inst_offset = length bytecode - offset_index\<rparr> lm,
                 bytecode, e)))"

definition append_and_update_label ::
    "LabelMap \<Rightarrow> u8 list \<Rightarrow> u32 \<Rightarrow> (LabelMap \<times> u8 list, BindRulesEncodeError) result" where
  "append_and_update_label lm bytecode label_id =
     (if label_seen lm label_id then Err (EeDuplicateLabel label_id)
      else
        Ok (AList.update label_id
              (case map_of lm label_id of
                 Some d \<Rightarrow> d\<lparr>li_index := Some (length bytecode)\<rparr>
               | None \<Rightarrow> \<lparr>li_index = Some (length bytecode), li_jump_instructions = []\<rparr>) lm,
            bytecode @ [raw_op_byte OpJumpLandPad]))"

fun encode_loop ::
    "SymbolicInstructionInfo list \<Rightarrow> LabelMap \<Rightarrow> u8 list \<Rightarrow> SymbolTableEncoder
     \<Rightarrow> (LabelMap \<times> u8 list \<times> SymbolTableEncoder, BindRulesEncodeError) result" where
  "encode_loop [] lm bytecode e = Ok (lm, bytecode, e)"
| "encode_loop (i # is) lm bytecode e =
     (case ii_instruction (to_instruction_info i) of
        Abort condition \<Rightarrow>
          and_then (append_abort_instruction bytecode e condition) (\<lambda>(bytecode, e).
            encode_loop is lm bytecode e)
      | Goto condition label_id \<Rightarrow>
          and_then (append_jmp_statement lm bytecode e condition label_id) (\<lambda>(lm, bytecode, e).
            encode_loop is lm bytecode e)
      | Label label_id \<Rightarrow>
          and_then (append_and_update_label lm bytecode label_id) (\<lambda>(lm, bytecode).
            encode_loop is lm bytecode e)
      | Match _ \<Rightarrow> Err EeMatchNotSupported)"

section \<open>Patching the jump offsets\<close>

text \<open>The assignments \<open>bytecode[index + i] = offset_bytes[i]\<close>.\<close>

fun write_at :: "nat \<Rightarrow> u8 list \<Rightarrow> u8 list \<Rightarrow> (u8 list, BindRulesEncodeError) result" where
  "write_at index [] bytecode = Ok bytecode"
| "write_at index (b # bs) bytecode =
     (if index < length bytecode then write_at (Suc index) bs (bytecode[index := b]) else Panic)"

text \<open>\<open>label_index - usage.index - usage.inst_offset\<close> panics when it underflows.\<close>

fun patch_usages ::
    "u32 \<Rightarrow> nat \<Rightarrow> JumpInstructionOffsetInfo list \<Rightarrow> u8 list
     \<Rightarrow> (u8 list, BindRulesEncodeError) result" where
  "patch_usages label_id label_index [] bytecode = Ok bytecode"
| "patch_usages label_id label_index (u # us) bytecode =
     (if label_index < jo_index u + jo_inst_offset u then Panic
      else
        let offset = label_index - jo_index u - jo_inst_offset u in
        if offset < 2 ^ 32 then
          and_then (write_at (jo_index u) (to_le_bytes (as_u32 offset)) bytecode)
            (patch_usages label_id label_index us)
        else Err (EeJumpOffsetOutOfRange label_id))"

fun patch_labels :: "LabelMap \<Rightarrow> u8 list \<Rightarrow> (u8 list, BindRulesEncodeError) result" where
  "patch_labels [] bytecode = Ok bytecode"
| "patch_labels ((label_id, data) # lm) bytecode =
     (case li_index data of
        None \<Rightarrow> Err (EeMissingLabel label_id)
      | Some label_index \<Rightarrow>
          and_then (patch_usages label_id label_index (li_jump_instructions data) bytecode)
            (patch_labels lm))"

definition encode_instructions ::
    "SymbolicInstructionInfo list \<Rightarrow> SymbolTableEncoder
     \<Rightarrow> (u8 list \<times> SymbolTableEncoder, BindRulesEncodeError) result" where
  "encode_instructions is e =
     and_then (encode_loop is [] [] e) (\<lambda>(lm, bytecode, e).
     and_then (patch_labels lm bytecode) (\<lambda>bytecode. Ok (bytecode, e)))"

end
