(* ===== verification/Encoder_Layout.thy ===== *)
theory Encoder_Layout
  imports Instr_Encoder Compiler_Sim
begin

text \<open>
  What the two passes of the instruction encoder produce: the bytes of \<open>layout\<close>, a one-pass
  reference definition in which every jump carries the distance from its own end to its label.
\<close>

section \<open>The reference layout\<close>

fun enc_value :: "(string \<rightharpoonup> u32) \<Rightarrow> Symbol \<Rightarrow> RawValueType \<times> u32" where
  "enc_value K (NumberValue v) = (RvNumberValue, ucast v)"
| "enc_value K (BoolValue v) = (RvBoolValue, if v then 1 else 0)"
| "enc_value K (StringValue s) = (RvStringValue, the (K s))"
| "enc_value K (Key s _) = (RvKey, the (K s))"
| "enc_value K (DeprecatedKey k) = (RvNumberValue, k)"
| "enc_value K (EnumValue s) = (RvEnumValue, the (K s))"

definition value_bytes :: "(string \<rightharpoonup> u32) \<Rightarrow> Symbol \<Rightarrow> u8 list" where
  "value_bytes K s = (case enc_value K s of (t, v) \<Rightarrow> raw_value_byte t # to_le_bytes v)"

fun inst_bytes :: "(string \<rightharpoonup> u32) \<Rightarrow> u32 \<Rightarrow> SymbolicInstruction \<Rightarrow> u8 list" where
  "inst_bytes K ofs (AbortIfEqual l r) =
     raw_op_byte OpInequalCondition # value_bytes K l @ value_bytes K r"
| "inst_bytes K ofs (AbortIfNotEqual l r) =
     raw_op_byte OpEqualCondition # value_bytes K l @ value_bytes K r"
| "inst_bytes K ofs (SymLabel _) = [raw_op_byte OpJumpLandPad]"
| "inst_bytes K ofs (UnconditionalJump _) = raw_op_byte OpUnconditionalJump # to_le_bytes ofs"
| "inst_bytes K ofs (JumpIfEqual l r _) =
     raw_op_byte OpJumpIfEqual # to_le_bytes ofs @ value_bytes K l @ value_bytes K r"
| "inst_bytes K ofs (JumpIfNotEqual l r _) =
     raw_op_byte OpJumpIfNotEqual # to_le_bytes ofs @ value_bytes K l @ value_bytes K r"
| "inst_bytes K ofs UnconditionalAbort = [raw_op_byte OpAbort]"
| "inst_bytes K ofs UnconditionalBind = []"

fun inst_size :: "SymbolicInstruction \<Rightarrow> nat" where
  "inst_size (AbortIfEqual _ _) = 11"
| "inst_size (AbortIfNotEqual _ _) = 11"
| "inst_size (SymLabel _) = 1"
| "inst_size (UnconditionalJump _) = 5"
| "inst_size (JumpIfEqual _ _ _) = 15"
| "inst_size (JumpIfNotEqual _ _ _) = 15"
| "inst_size UnconditionalAbort = 1"
| "inst_size UnconditionalBind = 0"

definition code_size :: "SymbolicInstruction list \<Rightarrow> nat" where
  "code_size is = sum_list (map inst_size is)"

fun jump_label :: "SymbolicInstruction \<Rightarrow> u32 option" where
  "jump_label (UnconditionalJump l) = Some l"
| "jump_label (JumpIfEqual _ _ l) = Some l"
| "jump_label (JumpIfNotEqual _ _ l) = Some l"
| "jump_label _ = None"

text \<open>The distance to the first label \<open>l\<close>.\<close>

fun label_pos :: "u32 \<Rightarrow> SymbolicInstruction list \<Rightarrow> nat option" where
  "label_pos l [] = None"
| "label_pos l (i # is) =
     (if i = SymLabel l then Some 0 else map_option ((+) (inst_size i)) (label_pos l is))"

definition jump_offset :: "SymbolicInstruction \<Rightarrow> SymbolicInstruction list \<Rightarrow> u32" where
  "jump_offset i is =
     (case jump_label i of Some l \<Rightarrow> as_u32 (the (label_pos l is)) | None \<Rightarrow> 0)"

fun layout :: "(string \<rightharpoonup> u32) \<Rightarrow> SymbolicInstruction list \<Rightarrow> u8 list" where
  "layout K [] = []"
| "layout K (i # is) = inst_bytes K (jump_offset i is) i @ layout K is"

text \<open>Every jump finds its label behind it, at a distance that 32 bits can express.\<close>

fun offsets_fit :: "SymbolicInstruction list \<Rightarrow> bool" where
  "offsets_fit [] = True"
| "offsets_fit (i # is) =
     ((case jump_label i of
         None \<Rightarrow> True
       | Some l \<Rightarrow> (case label_pos l is of Some n \<Rightarrow> n < 2 ^ 32 | None \<Rightarrow> False))
      \<and> offsets_fit is)"

text \<open>The operands the encoder accepts, and the strings it puts into the symbol table.\<close>

definition comparison_ok :: "Symbol \<Rightarrow> Symbol \<Rightarrow> bool" where
  "comparison_ok l r \<longleftrightarrow>
     is_symbol_key l \<and> rhs_value_type r \<noteq> None
     \<and> (case l of Key _ t \<Rightarrow> rhs_value_type r = Some t | _ \<Rightarrow> True)"

fun inst_ok :: "SymbolicInstruction \<Rightarrow> bool" where
  "inst_ok (AbortIfEqual l r) = comparison_ok l r"
| "inst_ok (AbortIfNotEqual l r) = comparison_ok l r"
| "inst_ok (JumpIfEqual l r _) = comparison_ok l r"
| "inst_ok (JumpIfNotEqual l r _) = comparison_ok l r"
| "inst_ok UnconditionalBind = False"
| "inst_ok _ = True"

fun symbol_strings :: "Symbol \<Rightarrow> string set" where
  "symbol_strings (StringValue s) = {s}"
| "symbol_strings (Key s _) = {s}"
| "symbol_strings (EnumValue s) = {s}"
| "symbol_strings _ = {}"

fun inst_strings :: "SymbolicInstruction \<Rightarrow> string set" where
  "inst_strings (AbortIfEqual l r) = symbol_strings l \<union> symbol_strings r"
| "inst_strings (AbortIfNotEqual l r) = symbol_strings l \<union> symbol_strings r"
| "inst_strings (JumpIfEqual l r _) = symbol_strings l \<union> symbol_strings r"
| "inst_strings (JumpIfNotEqual l r _) = symbol_strings l \<union> symbol_strings r"
| "inst_strings _ = {}"

abbreviation code_strings :: "SymbolicInstruction list \<Rightarrow> string set" where
  "code_strings is \<equiv> (\<Union>i\<in>set is. inst_strings i)"

lemma length_value_bytes [simp]: "length (value_bytes K s) = 5"
  by (simp add: value_bytes_def split: prod.split)

lemma length_inst_bytes [simp]: "length (inst_bytes K ofs i) = inst_size i"
  by (cases i) simp_all

lemma code_size_simps [simp]:
  "code_size [] = 0"
  "code_size (i # is) = inst_size i + code_size is"
  "code_size (is @ js) = code_size is + code_size js"
  by (simp_all add: code_size_def)

lemma length_layout [simp]: "length (layout K is) = code_size is"
  by (induction "is") auto

section \<open>The first pass\<close>

text \<open>The layout with the offset field at byte \<open>p\<close> of the code filled with \<open>f p\<close>.\<close>

fun layout_at :: "(string \<rightharpoonup> u32) \<Rightarrow> (nat \<Rightarrow> u32) \<Rightarrow> nat \<Rightarrow> SymbolicInstruction list \<Rightarrow> u8 list" where
  "layout_at K f pos [] = []"
| "layout_at K f pos (i # is) = inst_bytes K (f (pos + 1)) i @ layout_at K f (pos + inst_size i) is"

text \<open>\<open>appends V bs bc e bc' e'\<close>: the step appends \<open>bs K\<close>, for every later state \<open>K\<close> of the keys.\<close>

definition appends ::
    "string set \<Rightarrow> ((string \<rightharpoonup> u32) \<Rightarrow> u8 list) \<Rightarrow> u8 list \<Rightarrow> SymbolTableEncoder \<Rightarrow> u8 list
     \<Rightarrow> SymbolTableEncoder \<Rightarrow> bool" where
  "appends V bs bc e bc' e' \<longleftrightarrow>
     ste_extends V e e' \<and> (\<forall>K. encoded_symbols e' \<subseteq>\<^sub>m K \<longrightarrow> bc' = bc @ bs K)"

lemma appends_const: "appends {} (\<lambda>_. bs) bc e (bc @ bs) e"
  by (simp add: appends_def)

lemma appends_trans:
  assumes "appends V bs bc e bc1 e1" and "appends W bs' bc1 e1 bc2 e2"
  shows "appends (V \<union> W) (\<lambda>K. bs K @ bs' K) bc e bc2 e2"
proof -
  have "encoded_symbols e1 \<subseteq>\<^sub>m encoded_symbols e2"
    using assms(2) by (simp add: appends_def ste_extends_def)
  with assms show ?thesis
    unfolding appends_def by (auto intro: ste_extends_trans dest: map_le_trans)
qed

lemma appends_length:
  assumes "appends V bs bc e bc' e'"
  shows "length bc' = length bc + length (bs (encoded_symbols e'))"
  using assms by (simp add: appends_def) (metis length_append map_le_refl)

lemma append_value_appends:
  assumes "append_value bc e s = Ok (bc', e')"
  shows "appends (symbol_strings s) (\<lambda>K. value_bytes K s) bc e bc' e'"
proof (cases s)
qed (use assms in \<open>auto simp: append_value_def appends_def value_bytes_def result_simps
      map_le_def dom_def dest!: get_key_extends split: prod.splits\<close>)

lemma append_value_comparison_appends:
  assumes "append_value_comparison bc e l r = Ok (bc', e')"
  shows "appends (symbol_strings l \<union> symbol_strings r) (\<lambda>K. value_bytes K l @ value_bytes K r) bc e bc' e'"
    and "comparison_ok l r"
proof -
  from assms obtain bc1 e1 where
    "append_value bc e l = Ok (bc1, e1)" "append_value bc1 e1 r = Ok (bc', e')"
    by (auto simp: append_value_comparison_def result_simps split: if_splits)
  then show "appends (symbol_strings l \<union> symbol_strings r) (\<lambda>K. value_bytes K l @ value_bytes K r) bc e bc' e'"
    by (intro appends_trans [OF append_value_appends append_value_appends])
  show "comparison_ok l r"
    using assms
    by (auto simp: append_value_comparison_def comparison_ok_def result_simps split: if_splits Symbol.splits)
qed

lemma comparison_after:
  assumes "append_value_comparison (bc @ pre) e l r = Ok (bc', e')"
  shows "appends (symbol_strings l \<union> symbol_strings r) (\<lambda>K. pre @ value_bytes K l @ value_bytes K r) bc e bc' e'
    \<and> comparison_ok l r \<and> length bc' = length bc + length pre + 10"
proof -
  note step = append_value_comparison_appends [OF assms]
  have "appends ({} \<union> (symbol_strings l \<union> symbol_strings r))
      (\<lambda>K. pre @ value_bytes K l @ value_bytes K r) bc e bc' e'"
    by (rule appends_trans [OF appends_const step(1)])
  with step(2) appends_length [OF step(1)] show ?thesis by simp
qed

text \<open>What the label map says of a label, absent entries included.\<close>

definition label_info :: "LabelMap \<Rightarrow> u32 \<Rightarrow> LabelInfo" where
  "label_info lm l =
     (case map_of lm l of Some d \<Rightarrow> d | None \<Rightarrow> \<lparr>li_index = None, li_jump_instructions = []\<rparr>)"

definition set_label :: "u32 \<Rightarrow> nat \<Rightarrow> LabelMap \<Rightarrow> LabelMap" where
  "set_label l n lm = AList.update l ((label_info lm l)\<lparr>li_index := Some n\<rparr>) lm"

lemma label_seen_info: "label_seen lm l \<longleftrightarrow> li_index (label_info lm l) \<noteq> None"
  by (simp add: label_seen_def label_info_def split: option.split)

lemma push_usage_info:
  "push_usage l u lm =
     AList.update l ((label_info lm l)\<lparr>li_jump_instructions := li_jump_instructions (label_info lm l) @ [u]\<rparr>) lm"
  by (simp add: push_usage_def label_info_def Let_def)

lemma append_and_update_label_info:
  "append_and_update_label lm bc l =
     (if label_seen lm l then Err (EeDuplicateLabel l)
      else Ok (set_label l (length bc) lm, bc @ [raw_op_byte OpJumpLandPad]))"
  by (auto simp: append_and_update_label_def set_label_def label_info_def split: option.split)

lemma label_info_update: "label_info (AList.update l d lm) = (label_info lm)(l := d)"
  by (rule ext) (simp add: label_info_def update_conv)

text \<open>The effect of one instruction on the label map.\<close>

definition note_labels :: "nat \<Rightarrow> SymbolicInstruction \<Rightarrow> LabelMap \<Rightarrow> LabelMap" where
  "note_labels pos i lm =
     (case jump_label i of
        Some l \<Rightarrow> push_usage l \<lparr>jo_index = pos + 1, jo_inst_offset = inst_size i - 1\<rparr> lm
      | None \<Rightarrow> (case i of SymLabel l \<Rightarrow> set_label l pos lm | _ \<Rightarrow> lm))"

fun touched_label :: "SymbolicInstruction \<Rightarrow> u32 option" where
  "touched_label (SymLabel l) = Some l"
| "touched_label i = jump_label i"

lemma encode_step:
  assumes "encode_loop (i # is) lm bc e = Ok res"
  shows "\<exists>bc1 e1. appends (inst_strings (si_instruction i)) (\<lambda>K. inst_bytes K 0 (si_instruction i)) bc e bc1 e1
    \<and> inst_ok (si_instruction i)
    \<and> (\<forall>l. touched_label (si_instruction i) = Some l \<longrightarrow> \<not> label_seen lm l)
    \<and> encode_loop is (note_labels (length bc) (si_instruction i) lm) bc1 e1 = Ok res"
proof (cases "si_instruction i")
  case (AbortIfEqual l r)
  with assms show ?thesis
    by (fastforce simp: result_simps note_labels_def dest!: comparison_after)
next
  case (AbortIfNotEqual l r)
  with assms show ?thesis
    by (fastforce simp: result_simps note_labels_def dest!: comparison_after)
next
  case (JumpIfEqual l r lab)
  with assms show ?thesis
    by (fastforce simp: result_simps note_labels_def append_jmp_statement_def Let_def
        dest!: comparison_after split: if_splits)
next
  case (JumpIfNotEqual l r lab)
  with assms show ?thesis
    by (fastforce simp: result_simps note_labels_def append_jmp_statement_def Let_def
        dest!: comparison_after split: if_splits)
next
  case (UnconditionalJump lab)
  with assms show ?thesis
    by (fastforce simp: result_simps note_labels_def append_jmp_statement_def Let_def
        intro: appends_const split: if_splits)
next
  case (SymLabel lab)
  with assms show ?thesis
    by (fastforce simp: result_simps note_labels_def append_and_update_label_info
        intro: appends_const split: if_splits)
qed (use assms in \<open>fastforce simp: note_labels_def intro: appends_const\<close>)+

text \<open>The jumps to \<open>l\<close>, as the label map records them.\<close>

fun usages :: "u32 \<Rightarrow> nat \<Rightarrow> SymbolicInstruction list \<Rightarrow> JumpInstructionOffsetInfo list" where
  "usages l pos [] = []"
| "usages l pos (i # is) =
     (if jump_label i = Some l then [\<lparr>jo_index = pos + 1, jo_inst_offset = inst_size i - 1\<rparr>] else [])
     @ usages l (pos + inst_size i) is"

definition label_rep :: "SymbolicInstruction list \<Rightarrow> LabelMap \<Rightarrow> bool" where
  "label_rep code lm \<longleftrightarrow>
     distinct (map fst lm) \<and> distinct (labels_of code)
     \<and> (\<forall>l. label_info lm l = \<lparr>li_index = label_pos l code, li_jump_instructions = usages l 0 code\<rparr>)
     \<and> (\<forall>l p. label_pos l code = Some p \<longrightarrow>
           (\<forall>u\<in>set (usages l 0 code). jo_index u + jo_inst_offset u \<le> p))"

lemma label_pos_append:
  "label_pos l (is @ js) =
     (case label_pos l is of Some p \<Rightarrow> Some p | None \<Rightarrow> map_option ((+) (code_size is)) (label_pos l js))"
  by (induction "is"; cases "label_pos l js") (auto split: option.split)

lemma usages_append: "usages l pos (is @ js) = usages l pos is @ usages l (pos + code_size is) js"
  by (induction "is" arbitrary: pos) (auto simp: add.assoc)

lemma label_pos_None: "label_pos l is = None \<longleftrightarrow> l \<notin> set (labels_of is)"
  by (induction "is" rule: labels_of.induct) auto

lemma label_pos_less: "label_pos l is = Some p \<Longrightarrow> p < code_size is"
  by (induction "is" arbitrary: p) (auto split: if_splits)

lemma usages_bound:
  "u \<in> set (usages l pos is) \<Longrightarrow> pos < jo_index u \<and> jo_index u + jo_inst_offset u \<le> pos + code_size is"
proof (induction "is" arbitrary: pos)
  case (Cons i "is")
  then show ?case by (cases i) (fastforce split: if_splits)+
qed simp

lemma label_rep_step:
  assumes rep: "label_rep code lm"
    and new: "\<And>l. touched_label i = Some l \<Longrightarrow> \<not> label_seen lm l"
  shows "label_rep (code @ [i]) (note_labels (code_size code) i lm)"
proof -
  have unseen: "label_pos l code = None" if "touched_label i = Some l" for l
    using new [OF that] rep by (simp add: label_seen_info label_rep_def)
  show ?thesis
  proof (cases "jump_label i")
    case None
    show ?thesis
    proof (cases i)
      case (SymLabel l)
      with unseen have l: "label_pos l code = None" "l \<notin> set (labels_of code)"
        by (simp_all add: label_pos_None)
      with SymLabel rep show ?thesis
        by (auto simp: label_rep_def note_labels_def set_label_def label_info_update distinct_update
            label_pos_append usages_append dest: usages_bound split: option.splits)
    qed (use None rep in \<open>auto simp: label_rep_def note_labels_def label_pos_append usages_append
          split: option.splits\<close>)
  next
    case (Some l)
    then have "touched_label i = Some l" "labels_of [i] = []" "\<And>l'. i \<noteq> SymLabel l'"
      by (cases i; simp)+
    with unseen rep Some show ?thesis
      by (auto simp: label_rep_def note_labels_def push_usage_info label_info_update distinct_update
          label_pos_append usages_append split: option.splits)
  qed
qed

lemma encode_loop_spec:
  assumes "encode_loop is lm bc e = Ok (lm', bc', e')"
    and "label_rep code lm" and "length bc = code_size code"
  shows "appends (code_strings (sym_code is)) (\<lambda>K. layout_at K (\<lambda>_. 0) (length bc) (sym_code is)) bc e bc' e'
    \<and> list_all inst_ok (sym_code is) \<and> label_rep (code @ sym_code is) lm'"
  using assms
proof (induction "is" arbitrary: code lm bc e)
  case Nil
  then show ?case using appends_const [of "[]"] by simp
next
  case (Cons i "is")
  from encode_step [OF Cons.prems(1)] obtain bc1 e1 where
    step: "appends (inst_strings (si_instruction i)) (\<lambda>K. inst_bytes K 0 (si_instruction i)) bc e bc1 e1"
      "inst_ok (si_instruction i)"
      "\<And>l. touched_label (si_instruction i) = Some l \<Longrightarrow> \<not> label_seen lm l"
      "encode_loop is (note_labels (length bc) (si_instruction i) lm) bc1 e1 = Ok (lm', bc', e')"
    by blast
  have len: "length bc1 = length bc + inst_size (si_instruction i)"
    using appends_length [OF step(1)] by simp
  have "label_rep (code @ [si_instruction i]) (note_labels (length bc) (si_instruction i) lm)"
    using label_rep_step [OF Cons.prems(2) step(3)] Cons.prems(3) by simp
  from Cons.IH [OF step(4) this] len Cons.prems(3) have
    IH: "appends (code_strings (sym_code is)) (\<lambda>K. layout_at K (\<lambda>_. 0) (length bc1) (sym_code is)) bc1 e1 bc' e'"
      "list_all inst_ok (sym_code is)" "label_rep (code @ sym_code (i # is)) lm'"
    by simp_all
  show ?case
    using appends_trans [OF step(1) IH(1)] IH(2,3) step(2) len by simp
qed

end
