(* ===== verification/Encoder_Patch.thy ===== *)
theory Encoder_Patch
  imports Encoder_Layout
begin

text \<open>
  The second pass of the instruction encoder: patching writes, in whatever order the label map
  is walked, the distances that the reference layout has, so both passes together produce it.
\<close>

section \<open>The second pass\<close>

text \<open>The positions of the offset offset_fields.\<close>

fun offset_fields :: "nat \<Rightarrow> SymbolicInstruction list \<Rightarrow> nat set" where
  "offset_fields pos [] = {}"
| "offset_fields pos (i # is) =
     (if jump_label i = None then {} else {pos + 1}) \<union> offset_fields (pos + inst_size i) is"

lemma fields_gt: "p \<in> offset_fields pos is \<Longrightarrow> pos < p"
  by (induction "is" arbitrary: pos) (fastforce split: if_splits)+

lemma layout_at_cong:
  "(\<And>p. p \<in> offset_fields pos is \<Longrightarrow> f p = g p) \<Longrightarrow> layout_at K f pos is = layout_at K g pos is"
proof (induction "is" arbitrary: pos)
  case (Cons i "is")
  then show ?case by (cases i) simp_all
qed simp

lemma write_at_append:
  "length old = length new \<Longrightarrow> write_at (length pre) new (pre @ old @ rest) = Ok (pre @ new @ rest)"
proof (induction new arbitrary: pre old)
  case (Cons b new)
  then obtain o1 old1 where "old = o1 # old1" "length old1 = length new"
    by (cases old) auto
  with Cons.IH [of old1 "pre @ [b]"] show ?case by simp
qed simp

lemma jump_bytes:
  assumes "jump_label i = Some l"
  obtains op rest where "\<And>ofs. inst_bytes K ofs i = op # to_le_bytes ofs @ rest"
  using assms by (cases i) auto

lemma write_field:
  assumes "p \<in> offset_fields pos is" and "length pre = pos"
  shows "write_at p (to_le_bytes v) (pre @ layout_at K f pos is) = Ok (pre @ layout_at K (f(p := v)) pos is)"
  using assms
proof (induction "is" arbitrary: pos pre)
  case (Cons i "is")
  have rest: "layout_at K (f(q := v)) (pos + inst_size i) is = layout_at K f (pos + inst_size i) is"
    if "q \<le> pos + inst_size i" for q
    using that by (intro layout_at_cong) (auto dest: fields_gt)
  show ?case
  proof (cases "p \<in> offset_fields (pos + inst_size i) is")
    case True
    with Cons.IH [OF True, of "pre @ inst_bytes K (f (Suc pos)) i"] Cons.prems show ?thesis
      by (cases "jump_label i"; cases i) (auto dest: fields_gt)
  next
    case False
    with Cons.prems obtain l where p: "p = Suc pos" "jump_label i = Some l"
      by (auto split: if_splits)
    from jump_bytes [OF p(2), of K] obtain op r where
      bytes: "\<And>ofs. inst_bytes K ofs i = op # to_le_bytes ofs @ r" by blast
    moreover have "inst_size i > 0"
      using p(2) by (cases i) auto
    ultimately show ?thesis
      using write_at_append [of "to_le_bytes (f p)" "to_le_bytes v" "pre @ [op]"
          "r @ layout_at K f (pos + inst_size i) is"] p(1) Cons.prems(2) rest [of p]
      by (simp add: fun_upd_def)
  qed
qed simp

text \<open>A usage of a label at \<open>n\<close> whose offset fits and is the value \<open>T\<close> assigns to the field.\<close>

definition usage_ok ::
    "SymbolicInstruction list \<Rightarrow> (nat \<Rightarrow> u32) \<Rightarrow> nat \<Rightarrow> JumpInstructionOffsetInfo \<Rightarrow> bool" where
  "usage_ok is T n u \<longleftrightarrow>
     jo_index u \<in> offset_fields 0 is \<and> jo_index u + jo_inst_offset u \<le> n
     \<and> n - jo_index u - jo_inst_offset u < 2 ^ 32
     \<and> as_u32 (n - jo_index u - jo_inst_offset u) = T (jo_index u)"

lemma patch_usage_step:
  assumes "usage_ok is T n u"
  shows "patch_usages l n (u # us) (layout_at K f 0 is) =
     patch_usages l n us (layout_at K (f(jo_index u := T (jo_index u))) 0 is)"
proof -
  have "\<not> n < jo_index u + jo_inst_offset u" "n - jo_index u - jo_inst_offset u < 2 ^ 32"
    "as_u32 (n - jo_index u - jo_inst_offset u) = T (jo_index u)" "jo_index u \<in> offset_fields 0 is"
    using assms by (simp_all add: usage_ok_def)
  with write_field [of "jo_index u" 0 "is" "[]" "T (jo_index u)" K f] show ?thesis
    unfolding patch_usages.simps Let_def by (simp del: of_nat_diff)
qed

lemma patch_usages_layout:
  assumes "list_all (usage_ok is T n) us"
  shows "patch_usages l n us (layout_at K f 0 is) =
     Ok (layout_at K (override_on f T (jo_index ` set us)) 0 is)"
  using assms
proof (induction us arbitrary: f)
  case (Cons u us)
  have "override_on (f(jo_index u := T (jo_index u))) T A = override_on f T (insert (jo_index u) A)" for A
    by (auto simp: override_on_def)
  with Cons show ?case
    by (simp add: patch_usage_step [where T = T] del: patch_usages.simps)
qed simp

definition patches :: "LabelMap \<Rightarrow> nat set" where
  "patches lm = (\<Union>(l, d)\<in>set lm. jo_index ` set (li_jump_instructions d))"

definition label_ok :: "SymbolicInstruction list \<Rightarrow> (nat \<Rightarrow> u32) \<Rightarrow> LabelInfo \<Rightarrow> bool" where
  "label_ok is T d \<longleftrightarrow>
     (case li_index d of
        Some n \<Rightarrow> list_all (usage_ok is T n) (li_jump_instructions d)
      | None \<Rightarrow> False)"

lemma patch_labels_layout:
  assumes "list_all (\<lambda>(l, d). label_ok is T d) lm"
  shows "patch_labels lm (layout_at K f 0 is) = Ok (layout_at K (override_on f T (patches lm)) 0 is)"
  using assms
proof (induction lm arbitrary: f)
  case Nil
  then show ?case by (simp add: patches_def)
next
  case (Cons ld lm)
  obtain l d where ld: "ld = (l, d)" by force
  with Cons.prems obtain n where n: "li_index d = Some n" "list_all (usage_ok is T n) (li_jump_instructions d)"
    by (auto simp: label_ok_def split: option.splits)
  let ?A = "jo_index ` set (li_jump_instructions d)"
  have "override_on (override_on f T ?A) T (patches lm) = override_on f T (patches (ld # lm))"
    by (auto simp: override_on_def patches_def ld)
  with Cons show ?case
    by (simp add: ld n(1) patch_usages_layout [OF n(2)])
qed

lemma patch_usages_small:
  "patch_usages l n us bc = Ok bc' \<Longrightarrow> u \<in> set us \<Longrightarrow> n - (jo_index u + jo_inst_offset u) < 2 ^ 32"
  by (induction us arbitrary: bc) (auto simp: Let_def result_simps split: if_splits)

lemma patch_labels_small:
  assumes "patch_labels lm bc = Ok bc'" and "(l, d) \<in> set lm"
  shows "\<exists>n. li_index d = Some n \<and>
    (\<forall>u\<in>set (li_jump_instructions d). n - (jo_index u + jo_inst_offset u) < 2 ^ 32)"
  using assms
proof (induction lm arbitrary: bc)
  case (Cons ld lm)
  then show ?case
    by (cases ld) (auto simp: result_simps simp del: power_numeral dest: patch_usages_small split: option.splits)
qed simp


section \<open>Both passes together\<close>

text \<open>The field at \<open>p\<close> in the reference layout.\<close>

fun field_value :: "nat \<Rightarrow> SymbolicInstruction list \<Rightarrow> nat \<Rightarrow> u32" where
  "field_value pos [] p = 0"
| "field_value pos (i # is) p =
     (if p = pos + 1 \<and> jump_label i \<noteq> None then jump_offset i is
      else field_value (pos + inst_size i) is p)"

lemma inst_size_jump: "jump_label i = Some l \<Longrightarrow> 1 < inst_size i"
  by (cases i) auto

lemma layout_at_field_value: "layout_at K (field_value pos is) pos is = layout K is"
proof (induction "is" arbitrary: pos)
  case (Cons i "is")
  have "layout_at K (field_value pos (i # is)) (pos + inst_size i) is
      = layout_at K (field_value (pos + inst_size i) is) (pos + inst_size i) is"
    by (rule layout_at_cong) (auto dest!: fields_gt inst_size_jump)
  moreover have "inst_bytes K (field_value pos (i # is) (pos + 1)) i = inst_bytes K (jump_offset i is) i"
    by (cases i) auto
  ultimately show ?case using Cons by (simp del: field_value.simps)
qed simp

text \<open>
  \<open>reaches pos is l u\<close>: the label of the usage is behind it, at a distance that fits. This is
  what the label map guarantees once both passes have succeeded.
\<close>

definition reaches :: "nat \<Rightarrow> SymbolicInstruction list \<Rightarrow> u32 \<Rightarrow> JumpInstructionOffsetInfo \<Rightarrow> bool" where
  "reaches pos is l u \<longleftrightarrow>
     (\<exists>q. label_pos l is = Some q \<and> jo_index u + jo_inst_offset u \<le> pos + q
          \<and> pos + q - (jo_index u + jo_inst_offset u) < 2 ^ 32)"

lemma reaches_tail:
  assumes "reaches pos (i # is) l u" and "u \<in> set (usages l (pos + inst_size i) is)"
  shows "reaches (pos + inst_size i) is l u"
  using assms usages_bound [OF assms(2)] by (auto simp: reaches_def split: if_splits)

lemma field_value_usage:
  assumes "u \<in> set (usages l pos is)" and "reaches pos is l u"
  shows "field_value pos is (jo_index u) = as_u32 (pos + the (label_pos l is) - jo_index u - jo_inst_offset u)"
  using assms
proof (induction "is" arbitrary: pos)
  case (Cons i "is")
  show ?case
  proof (cases "u \<in> set (usages l (pos + inst_size i) is)")
    case True
    have "pos + inst_size i < jo_index u"
      using usages_bound [OF True] by simp
    moreover from this have "i \<noteq> SymLabel l"
      using Cons.prems(2) by (auto simp: reaches_def)
    ultimately show ?thesis
      using Cons.IH [OF True reaches_tail [OF Cons.prems(2) True]] reaches_tail [OF Cons.prems(2) True]
        inst_size_jump [of i]
      by (auto simp: reaches_def add.assoc)
  next
    case False
    with Cons.prems(1) have u: "jump_label i = Some l" "u = \<lparr>jo_index = pos + 1, jo_inst_offset = inst_size i - 1\<rparr>"
      by (auto split: if_splits)
    then have "i \<noteq> SymLabel l" by (cases i) auto
    with u Cons.prems(2) inst_size_jump [OF u(1)] show ?thesis
      by (auto simp: jump_offset_def reaches_def)
  qed
qed simp

lemma offsets_fit_reaches:
  "(\<And>l u. u \<in> set (usages l pos is) \<Longrightarrow> reaches pos is l u) \<Longrightarrow> offsets_fit is"
proof (induction "is" arbitrary: pos)
  case (Cons i "is")
  have "offsets_fit is"
    using Cons.prems by (intro Cons.IH [of "pos + inst_size i"] reaches_tail) auto
  moreover have "\<exists>n. label_pos l is = Some n \<and> n < 2 ^ 32" if "jump_label i = Some l" for l
    using Cons.prems [of "\<lparr>jo_index = pos + 1, jo_inst_offset = inst_size i - 1\<rparr>" l] that
      inst_size_jump [OF that]
    by (cases i) (auto simp: reaches_def)
  ultimately show ?case by (auto split: option.split)
qed simp

lemma fields_usages: "p \<in> offset_fields pos is \<longleftrightarrow> (\<exists>l u. u \<in> set (usages l pos is) \<and> p = jo_index u)"
  by (induction "is" arbitrary: pos) (auto 4 4 split: if_splits)

lemma label_rep_entry:
  assumes "label_rep code lm"
  shows "(l, d) \<in> set lm \<Longrightarrow> d = \<lparr>li_index = label_pos l code, li_jump_instructions = usages l 0 code\<rparr>"
    and "usages l 0 code \<noteq> [] \<Longrightarrow>
      (l, \<lparr>li_index = label_pos l code, li_jump_instructions = usages l 0 code\<rparr>) \<in> set lm"
proof -
  have info: "label_info lm l = \<lparr>li_index = label_pos l code, li_jump_instructions = usages l 0 code\<rparr>"
    and "distinct (map fst lm)"
    using assms by (simp_all add: label_rep_def)
  then show "(l, d) \<in> set lm \<Longrightarrow> d = \<lparr>li_index = label_pos l code, li_jump_instructions = usages l 0 code\<rparr>"
    by (simp add: label_info_def)
  show "(l, \<lparr>li_index = label_pos l code, li_jump_instructions = usages l 0 code\<rparr>) \<in> set lm"
    if "usages l 0 code \<noteq> []"
    using info that by (auto simp: label_info_def split: option.splits dest: map_of_SomeD)
qed

lemma patches_fields: "label_rep code lm \<Longrightarrow> offset_fields 0 code \<subseteq> patches lm"
proof
  fix p
  assume rep: "label_rep code lm" and "p \<in> offset_fields 0 code"
  then obtain l u where u: "u \<in> set (usages l 0 code)" "p = jo_index u"
    by (auto simp: fields_usages)
  then have "usages l 0 code \<noteq> []" by auto
  from label_rep_entry(2) [OF rep this] u show "p \<in> patches lm"
    unfolding patches_def by force
qed

lemma label_rep_reaches:
  assumes "label_rep code lm" and "patch_labels lm bc = Ok bc'" and "u \<in> set (usages l 0 code)"
  shows "reaches 0 code l u"
proof -
  from assms(3) have "usages l 0 code \<noteq> []" by auto
  from patch_labels_small [OF assms(2) label_rep_entry(2) [OF assms(1) this]] assms(1,3)
  show ?thesis by (auto simp: reaches_def label_rep_def)
qed

lemma label_rep_ok:
  assumes rep: "label_rep code lm" and "(l, d) \<in> set lm" and "label_pos l code \<noteq> None"
    and reach: "\<And>u. u \<in> set (usages l 0 code) \<Longrightarrow> reaches 0 code l u"
  shows "label_ok code (field_value 0 code) d"
proof -
  have "usage_ok code (field_value 0 code) (the (label_pos l code)) u" if "u \<in> set (usages l 0 code)" for u
    using field_value_usage [OF that reach [OF that]] reach [OF that] that
    by (auto simp: usage_ok_def reaches_def fields_usages simp del: of_nat_diff)
  with assms(3) label_rep_entry(1) [OF rep assms(2)] show ?thesis
    by (auto simp: label_ok_def list_all_iff)
qed

lemma patch_labels_spec:
  assumes rep: "label_rep code lm" and ok: "patch_labels lm (layout_at K f 0 code) = Ok bc"
  shows "offsets_fit code \<and> bc = layout K code"
proof -
  note reach = label_rep_reaches [OF rep ok]
  have "list_all (\<lambda>(l, d). label_ok code (field_value 0 code) d) lm"
    using label_rep_ok [OF rep _ _ reach] patch_labels_small [OF ok] label_rep_entry(1) [OF rep]
    by (fastforce simp: list_all_iff)
  from patch_labels_layout [OF this, of K f] ok
  have "bc = layout_at K (override_on f (field_value 0 code) (patches lm)) 0 code"
    by simp
  also have "\<dots> = layout_at K (field_value 0 code) 0 code"
    using patches_fields [OF rep] by (intro layout_at_cong) (auto simp: override_on_def)
  also have "\<dots> = layout K code"
    by (rule layout_at_field_value)
  finally show ?thesis
    using offsets_fit_reaches [OF reach] by blast
qed

lemma label_rep_Nil: "label_rep [] []"
  by (simp add: label_rep_def label_info_def)

lemma encode_instructions_spec:
  assumes "encode_instructions is e = Ok (bc, e')"
  shows "ste_extends (code_strings (sym_code is)) e e'"
    and "encoded_symbols e' \<subseteq>\<^sub>m K \<Longrightarrow> bc = layout K (sym_code is)"
    and "list_all inst_ok (sym_code is)" and "distinct (labels_of (sym_code is))"
    and "offsets_fit (sym_code is)"
proof -
  from assms obtain lm bc1 where loop: "encode_loop is [] [] e = Ok (lm, bc1, e')"
    and patch: "patch_labels lm bc1 = Ok bc"
    by (auto simp: encode_instructions_def result_simps)
  from encode_loop_spec [OF loop label_rep_Nil]
  have app: "appends (code_strings (sym_code is)) (\<lambda>K. layout_at K (\<lambda>_. 0) 0 (sym_code is)) [] e bc1 e'"
    and "list_all inst_ok (sym_code is)" and rep: "label_rep (sym_code is) lm"
    by simp_all
  then show "ste_extends (code_strings (sym_code is)) e e'" "list_all inst_ok (sym_code is)"
    "distinct (labels_of (sym_code is))"
    by (simp_all add: appends_def label_rep_def)
  have "offsets_fit (sym_code is) \<and> bc = layout K (sym_code is)" if "encoded_symbols e' \<subseteq>\<^sub>m K" for K
    using app patch that by (intro patch_labels_spec [OF rep]) (simp add: appends_def)
  then show "encoded_symbols e' \<subseteq>\<^sub>m K \<Longrightarrow> bc = layout K (sym_code is)" "offsets_fit (sym_code is)"
    using map_le_refl by blast+
qed

end
