(* ===== verification/Symbolic_Machine.thy ===== *)
theory Symbolic_Machine
  imports Compiler_Sim
begin

text \<open>
  The interface between generated code and the machines that execute it: the bytecode
  interpreter, the debugger for the old bytecode and the offline debugger. A machine executes a
  list of instructions in its own representation. The laws say what one instruction does; they
  are required on \<open>runs\<close>, the code the machine accepts. Every machine that satisfies them
  decides what the symbolic machine decides.
\<close>

section \<open>Machines for instructions with locations\<close>

text \<open>The instructions after the first one whose code is the label \<open>n\<close>.\<close>

fun skip_label :: "('i \<Rightarrow> SymbolicInstruction) \<Rightarrow> u32 \<Rightarrow> 'i list \<Rightarrow> 'i list option" where
  "skip_label code n [] = None"
| "skip_label code n (i # is) = (if code i = SymLabel n then Some is else skip_label code n is)"

lemma skip_to_map: "skip_to n (map code is) = map_option (map code) (skip_label code n is)"
  by (induction "is") auto

lemma skip_label_ident [simp]: "skip_label (\<lambda>i. i) n is = skip_to n is"
  by (induction "is") auto

lemma length_skip_label: "skip_label code n is = Some js \<Longrightarrow> length js < length is"
  by (induction "is") (auto split: if_splits)

lemma skip_label_split: "skip_label code n is = Some js \<Longrightarrow> \<exists>ks. is = ks @ js"
  by (induction "is") (auto split: if_splits intro: exI [of _ "_ # _"])

lemma skip_label_exists: "n \<in> set (labels_of (map code is)) \<Longrightarrow> \<exists>js. skip_label code n is = Some js"
proof (induction "is")
  case (Cons i "is")
  then show ?case by (cases "code i") auto
qed simp

lemma if_swap: "(if \<not> b then x else y) = (if b then y else x)"
  by simp

text \<open>The instruction that ends rules for the old bytecode and for the debuggers.\<close>

definition bind_inst :: SymbolicInstructionInfo where
  "bind_inst = \<lparr>si_location = None, si_instruction = UnconditionalBind\<rparr>"

text \<open>
  A machine may carry a state that grows with what it reports and does not influence decisions:
  the laws hold in every state that satisfies the invariant, and lead to such a state.
\<close>

locale located_machine =
  fixes code :: "'i \<Rightarrow> SymbolicInstruction"
    and eq :: "'e comparison"
    and run :: "'s \<Rightarrow> 'i list \<Rightarrow> (bool, 'e) result"
    and runs :: "'i list \<Rightarrow> bool"
    and inv :: "'s \<Rightarrow> bool"
  assumes runs_tail: "runs (i # is) \<Longrightarrow> runs is"
    and run_Nil: "inv s \<Longrightarrow> run s [] = Ok True"
    and run_AbortIfEqual: "inv s \<Longrightarrow> runs (i # is) \<Longrightarrow> code i = AbortIfEqual l r \<Longrightarrow>
      \<exists>t. inv t \<and> run s (i # is) = and_then (eq l r) (\<lambda>b. if b then Ok False else run t is)"
    and run_AbortIfNotEqual: "inv s \<Longrightarrow> runs (i # is) \<Longrightarrow> code i = AbortIfNotEqual l r \<Longrightarrow>
      \<exists>t. inv t \<and> run s (i # is) = and_then (eq l r) (\<lambda>b. if b then run t is else Ok False)"
    and run_Label: "inv s \<Longrightarrow> runs (i # is) \<Longrightarrow> code i = SymLabel n \<Longrightarrow> \<exists>t. inv t \<and> run s (i # is) = run t is"
    and run_Jump: "inv s \<Longrightarrow> runs (i # is) \<Longrightarrow> code i = UnconditionalJump n \<Longrightarrow>
      \<exists>js t. skip_label code n is = Some js \<and> inv t \<and> run s (i # is) = run t js"
    and run_JumpIfEqual: "inv s \<Longrightarrow> runs (i # is) \<Longrightarrow> code i = JumpIfEqual l r n \<Longrightarrow>
      \<exists>js t t'. skip_label code n is = Some js \<and> inv t \<and> inv t' \<and>
        run s (i # is) = and_then (eq l r) (\<lambda>b. if b then run t js else run t' is)"
    and run_JumpIfNotEqual: "inv s \<Longrightarrow> runs (i # is) \<Longrightarrow> code i = JumpIfNotEqual l r n \<Longrightarrow>
      \<exists>js t t'. skip_label code n is = Some js \<and> inv t \<and> inv t' \<and>
        run s (i # is) = and_then (eq l r) (\<lambda>b. if b then run t is else run t' js)"
    and run_Abort: "inv s \<Longrightarrow> runs (i # is) \<Longrightarrow> code i = UnconditionalAbort \<Longrightarrow> run s (i # is) = Ok False"
    and run_Bind: "inv s \<Longrightarrow> runs (i # is) \<Longrightarrow> code i = UnconditionalBind \<Longrightarrow> run s (i # is) = Ok True"
begin

lemma runs_append: "runs (is @ js) \<Longrightarrow> runs js"
  by (induction "is") (auto dest: runs_tail)

lemma runs_skip_label: "runs is \<Longrightarrow> skip_label code n is = Some js \<Longrightarrow> runs js"
  using skip_label_split runs_append by blast

lemma run_correct: "runs is \<Longrightarrow> inv s \<Longrightarrow> run s is = run_symbolic eq (map code is)"
proof (induction "is" arbitrary: s rule: length_induct)
  case (1 "is")
  show ?case
  proof (cases "is")
    case Nil
    with 1 show ?thesis by (simp add: run_Nil)
  next
    case (Cons i js)
    with 1 have r: "runs (i # js)" and s: "inv s"
      by auto
    have IH: "run t js = run_symbolic eq (map code js)" if "inv t" for t
      using 1 Cons that by (auto dest: runs_tail)
    have jump: "run t ks = run_symbolic eq (map code ks)" if "skip_label code n js = Some ks" "inv t" for n ks t
      using 1 Cons that runs_skip_label [OF runs_tail [OF r] that(1)] length_skip_label [OF that(1)] by auto
    show ?thesis
    proof (cases "code i")
      case (AbortIfEqual lhs rhs)
      with run_AbortIfEqual [OF s r this] IH show ?thesis by (auto simp: Cons cong: if_cong)
    next
      case (AbortIfNotEqual lhs rhs)
      with run_AbortIfNotEqual [OF s r this] IH show ?thesis by (auto simp: Cons cong: if_cong)
    next
      case (SymLabel n)
      with run_Label [OF s r this] IH show ?thesis by (auto simp: Cons)
    next
      case (UnconditionalJump n)
      with run_Jump [OF s r this] jump show ?thesis by (auto simp: Cons skip_to_map)
    next
      case (JumpIfEqual lhs rhs n)
      with run_JumpIfEqual [OF s r this] jump IH show ?thesis by (auto simp: Cons skip_to_map cong: if_cong)
    next
      case (JumpIfNotEqual lhs rhs n)
      with run_JumpIfNotEqual [OF s r this] jump IH show ?thesis by (auto simp: Cons skip_to_map cong: if_cong)
    qed (simp_all add: Cons run_Abort [OF s r] run_Bind [OF s r])
  qed
qed

end

section \<open>Machines for bare instructions\<close>

locale symbolic_machine =
  fixes eq :: "'e comparison"
    and run :: "SymbolicInstruction list \<Rightarrow> (bool, 'e) result"
    and runs :: "SymbolicInstruction list \<Rightarrow> bool"
  assumes bare_tail: "runs (i # is) \<Longrightarrow> runs is"
    and bare_Nil: "run [] = Ok True"
    and bare_AbortIfEqual: "runs (AbortIfEqual l r # is) \<Longrightarrow>
      run (AbortIfEqual l r # is) = and_then (eq l r) (\<lambda>b. if b then Ok False else run is)"
    and bare_AbortIfNotEqual: "runs (AbortIfNotEqual l r # is) \<Longrightarrow>
      run (AbortIfNotEqual l r # is) = and_then (eq l r) (\<lambda>b. if b then run is else Ok False)"
    and bare_Label: "runs (SymLabel n # is) \<Longrightarrow> run (SymLabel n # is) = run is"
    and bare_Jump: "runs (UnconditionalJump n # is) \<Longrightarrow>
      \<exists>js. skip_to n is = Some js \<and> run (UnconditionalJump n # is) = run js"
    and bare_JumpIfEqual: "runs (JumpIfEqual l r n # is) \<Longrightarrow>
      \<exists>js. skip_to n is = Some js \<and>
        run (JumpIfEqual l r n # is) = and_then (eq l r) (\<lambda>b. if b then run js else run is)"
    and bare_JumpIfNotEqual: "runs (JumpIfNotEqual l r n # is) \<Longrightarrow>
      \<exists>js. skip_to n is = Some js \<and>
        run (JumpIfNotEqual l r n # is) = and_then (eq l r) (\<lambda>b. if b then run is else run js)"
    and bare_Abort: "runs (UnconditionalAbort # is) \<Longrightarrow> run (UnconditionalAbort # is) = Ok False"
    and bare_Bind: "runs (UnconditionalBind # is) \<Longrightarrow> run (UnconditionalBind # is) = Ok True"

sublocale symbolic_machine \<subseteq> located: located_machine "\<lambda>i. i" eq "\<lambda>_ :: unit. run" runs "\<lambda>_. True"
  by unfold_locales
    (auto dest: bare_tail bare_Jump bare_JumpIfEqual bare_JumpIfNotEqual
      simp: bare_Nil bare_AbortIfEqual bare_AbortIfNotEqual bare_Label bare_Abort bare_Bind)

end
