(* ===== verification/Matcher_Sim.thy ===== *)
theory Matcher_Sim
  imports Bind_Matcher Encoder_Patch Symbolic_Machine
begin

text \<open>
  The bytecode interpreter on the bytes of the reference layout is a symbolic machine: it decides
  what the symbolic instructions decide, with the comparison \<open>device_equal\<close>.
\<close>

section \<open>Comparing device properties\<close>

text \<open>What the interpreter reads back for an encoded operand: numbers are cut to 32 bits.\<close>

fun interp_value :: "Symbol \<Rightarrow> Symbol" where
  "interp_value (NumberValue v) = NumberValue (ucast (ucast v :: u32))"
| "interp_value (Key s _) = Key s VtStr"
| "interp_value (DeprecatedKey k) = NumberValue (ucast k)"
| "interp_value s = s"

definition device_equal :: "DeviceProperties \<Rightarrow> BytecodeError comparison" where
  "device_equal props l r =
     and_then (property_key (interp_value l)) (\<lambda>key.
       case props key of
         None \<Rightarrow> Ok False
       | Some device_value \<Rightarrow> compare_symbols McEqual device_value (interp_value r))"

text \<open>The symbol table of the bytecode inverts the keys of the encoder.\<close>

definition table_inverts :: "DecodedSymbols \<Rightarrow> (string \<rightharpoonup> u32) \<Rightarrow> string set \<Rightarrow> bool" where
  "table_inverts st K V \<longleftrightarrow> (\<forall>s\<in>V. \<exists>k. K s = Some k \<and> st k = Some s)"

lemma read_value_bytes:
  "table_inverts st K (symbol_strings s) \<Longrightarrow>
   read_next_value st (value_bytes K s @ rest) = Ok (interp_value s, rest)"
  by (cases s) (auto simp: read_next_value_def value_bytes_def table_inverts_def lookup_symbol_table_def
      raw_value_of_def)

lemma read_comparison:
  assumes "table_inverts st K (symbol_strings l \<union> symbol_strings r)" and "comparison_ok l r"
  shows "read_and_evaluate_values props st McEqual (value_bytes K l @ value_bytes K r @ rest) =
      and_then (device_equal props l r) (\<lambda>b. Ok (b, rest))"
    and "read_and_evaluate_values props st McInequal (value_bytes K l @ value_bytes K r @ rest) =
      and_then (device_equal props l r) (\<lambda>b. Ok (\<not> b, rest))"
proof -
  have inv: "table_inverts st K (symbol_strings l)" "table_inverts st K (symbol_strings r)"
    using assms(1) by (auto simp: table_inverts_def)
  have read: "read_and_evaluate_values props st c (value_bytes K l @ value_bytes K r @ rest) =
      and_then (property_key (interp_value l)) (\<lambda>key.
      and_then
        (case props key of
           None \<Rightarrow> Ok (c = McInequal)
         | Some device_value \<Rightarrow> compare_symbols c device_value (interp_value r)) (\<lambda>b. Ok (b, rest)))" for c
    by (simp add: read_and_evaluate_values_def read_value_bytes [OF inv(1)] read_value_bytes [OF inv(2)])
  show "read_and_evaluate_values props st McEqual (value_bytes K l @ value_bytes K r @ rest) =
      and_then (device_equal props l r) (\<lambda>b. Ok (b, rest))"
    using assms(2) unfolding read
    by (cases l) (auto simp: device_equal_def comparison_ok_def split: option.split)
  show "read_and_evaluate_values props st McInequal (value_bytes K l @ value_bytes K r @ rest) =
      and_then (device_equal props l r) (\<lambda>b. Ok (\<not> b, rest))"
    using assms(2) unfolding read
    by (cases l) (auto simp: device_equal_def comparison_ok_def compare_symbols_def split: option.split)
qed

section \<open>Jumps\<close>

lemma layout_skip_to:
  assumes "label_pos l is = Some n"
  shows "\<exists>pre js. skip_to l is = Some js \<and> length pre = n \<and>
    layout K is = pre @ raw_op_byte OpJumpLandPad # layout K js"
  using assms
proof (induction "is" arbitrary: n)
  case (Cons i "is")
  show ?case
  proof (cases "i = SymLabel l")
    case False
    with Cons obtain m where "label_pos l is = Some m" "n = inst_size i + m"
      by auto
    with Cons.IH [of m] False show ?thesis
      by (fastforce intro: exI [of _ "inst_bytes K (jump_offset i is) i @ _"])
  qed (use Cons in \<open>auto intro: exI [of _ "[]"]\<close>)
qed simp

text \<open>The code that the bytecode can express.\<close>

definition encodable :: "DecodedSymbols \<Rightarrow> (string \<rightharpoonup> u32) \<Rightarrow> SymbolicInstruction list \<Rightarrow> bool" where
  "encodable st K is \<longleftrightarrow>
     list_all inst_ok is \<and> offsets_fit is \<and> table_inverts st K (code_strings is)"

lemma take_jump:
  assumes "jump_label i = Some l" and "offsets_fit (i # is)"
  shows "\<exists>js. skip_to l is = Some js \<and>
    and_then (next_bytes (unat (jump_offset i is)) (layout K is)) (\<lambda>(_, it).
      and_then (next_u8 it) (\<lambda>(b, it).
        if b \<noteq> raw_op_byte OpJumpLandPad then Err BeInvalidJumpLocation else Ok it)) = Ok (layout K js)"
proof -
  from assms obtain n where n: "label_pos l is = Some n" "n < 2 ^ 32"
    by (auto split: option.splits)
  from layout_skip_to [OF n(1), of K] obtain pre js where
    "skip_to l is = Some js" "length pre = n" "layout K is = pre @ raw_op_byte OpJumpLandPad # layout K js"
    by blast
  moreover have "unat (jump_offset i is) = n"
    using n assms(1) by (simp add: jump_offset_def del: unat_of_nat)
  ultimately show ?thesis by simp
qed

text \<open>One instruction of the bytecode machine on the layout.\<close>

lemma raw_op_of_values [simp]:
  "raw_op_of 0x01 = Some OpEqualCondition" "raw_op_of 0x02 = Some OpInequalCondition"
  "raw_op_of 0x10 = Some OpUnconditionalJump" "raw_op_of 0x11 = Some OpJumpIfEqual"
  "raw_op_of 0x12 = Some OpJumpIfNotEqual" "raw_op_of 0x20 = Some OpJumpLandPad"
  "raw_op_of 0x30 = Some OpAbort"
  by (simp_all add: raw_op_of_def)

lemma match_jump:
  assumes "jump_label i = Some l" and "offsets_fit (i # is)"
    and "\<And>it. cond \<noteq> McUnconditional \<Longrightarrow>
      read_and_evaluate_values props st cond (ops @ it) = and_then r (\<lambda>b. Ok (b, it))"
    and "cond = McUnconditional \<Longrightarrow> ops = [] \<and> r = Ok True"
  shows "\<exists>js. skip_to l is = Some js \<and>
    evaluate_jump_inst props st cond (to_le_bytes (jump_offset i is) @ ops @ layout K is) =
      and_then r (\<lambda>b. Ok (if b then layout K js else layout K is))"
  using take_jump [OF assms(1,2), of K] assms(3,4)
  by (cases "cond = McUnconditional"; cases r) (auto simp: evaluate_jump_inst_def)

interpretation bytecode: symbolic_machine "device_equal props"
    "\<lambda>is. match_bind_loop props st (layout K is)" "encodable st K" for props st K
proof (unfold_locales, goal_cases)
  case (1 i "is")
  then show ?case by (auto simp: encodable_def table_inverts_def)
next
  case 2
  then show ?case by simp
next
  case (3 l r "is")
  then show ?case
    using read_comparison [of st K l r props "layout K is"]
    by (auto simp: encodable_def table_inverts_def evaluate_condition_inst_def and_then_assoc
        intro!: and_then_cong)
next
  case (4 l r "is")
  then show ?case
    using read_comparison [of st K l r props "layout K is"]
    by (auto simp: encodable_def table_inverts_def evaluate_condition_inst_def and_then_assoc
        intro!: and_then_cong)
next
  case (5 n "is")
  then show ?case by simp
next
  case (6 n "is")
  then show ?case
    using match_jump [of "UnconditionalJump n" n "is" McUnconditional props st "[]" "Ok True" K]
    by (auto simp: encodable_def)
next
  case (7 l r n "is")
  then have c: "table_inverts st K (symbol_strings l \<union> symbol_strings r)" "comparison_ok l r"
      "offsets_fit (JumpIfEqual l r n # is)"
    by (auto simp: encodable_def table_inverts_def)
  show ?case
    using match_jump [of "JumpIfEqual l r n" n "is" McEqual props st "value_bytes K l @ value_bytes K r"
        "device_equal props l r" K] read_comparison(1) [OF c(1,2), of props] c(3)
    by (auto simp: and_then_assoc intro!: and_then_cong)
next
  case (8 l r n "is")
  then have c: "table_inverts st K (symbol_strings l \<union> symbol_strings r)" "comparison_ok l r"
      "offsets_fit (JumpIfNotEqual l r n # is)"
    by (auto simp: encodable_def table_inverts_def)
  show ?case
    using match_jump [of "JumpIfNotEqual l r n" n "is" McInequal props st "value_bytes K l @ value_bytes K r"
        "and_then (device_equal props l r) (\<lambda>b. Ok (\<not> b))" K] read_comparison(2) [OF c(1,2), of props] c(3)
    by (auto simp: and_then_assoc intro!: and_then_cong)
next
  case (9 "is")
  then show ?case by simp
next
  case (10 "is")
  then show ?case by (simp add: encodable_def)
qed

lemma match_correct:
  "encodable st K is \<Longrightarrow> match_bind_loop props st (layout K is) = run_symbolic (device_equal props) is"
  using bytecode.located.run_correct by simp

end
