(* ===== verification/Encode_V2.thy ===== *)
theory Encode_V2
  imports Decoder_Props Matcher_Sim Rust_Format
begin

text \<open>
  \<open>bytecode_encoder/encode_v2.rs\<close>: the new bytecode format, for normal and for composite bind
  rules, and its round trip through the decoder and the interpreter.
\<close>

section \<open>The encoders\<close>

definition encode_to_bytecode_v2 :: "BindRules \<Rightarrow> (u8 list, BindRulesEncodeError) result" where
  "encode_to_bytecode_v2 bind_rules =
     and_then (encode_instructions (br_instructions bind_rules) new_symbol_table_encoder)
       (\<lambda>(instruction_bytecode, e).
         Ok (to_be_bytes BIND_MAGIC_NUM @ to_le_bytes BYTECODE_VERSION
             @ to_be_bytes SYMB_MAGIC_NUM @ to_le_bytes (as_u32 (length (ste_bytecode e)))
             @ ste_bytecode e
             @ to_be_bytes INSTRUCTION_MAGIC_NUM @ to_le_bytes (as_u32 (length instruction_bytecode))
             @ instruction_bytecode))"

definition encode_to_string_v2 :: "BindRules \<Rightarrow> (string \<times> nat, BindRulesEncodeError) result" where
  "encode_to_string_v2 bind_rules =
     and_then (encode_to_bytecode_v2 bind_rules) (\<lambda>bytes.
       Ok (join (map fmt_hex bytes) '','', length bytes))"

definition append_composite_node ::
    "u8 list \<Rightarrow> CompositeNode \<Rightarrow> bool \<Rightarrow> SymbolTableEncoder
     \<Rightarrow> (u8 list \<times> SymbolTableEncoder, BindRulesEncodeError) result" where
  "append_composite_node bytecode nd is_primary e =
     (if cn_name nd = [] then Err EeMissingCompositeNodeName
      else
        let bytecode = bytecode @ [raw_node_byte (if is_primary then RnPrimary else RnAdditional)] in
        and_then (get_key (cn_name nd) e) (\<lambda>(key, e).
        let bytecode = bytecode @ to_le_bytes key in
        and_then (encode_instructions (cn_instructions nd) e) (\<lambda>(inst_bytecode, e).
          Ok (bytecode @ to_le_bytes (as_u32 (length inst_bytecode)) @ inst_bytecode, e))))"

fun append_additional_nodes ::
    "string set \<Rightarrow> u8 list \<Rightarrow> CompositeNode list \<Rightarrow> SymbolTableEncoder
     \<Rightarrow> (u8 list \<times> SymbolTableEncoder, BindRulesEncodeError) result" where
  "append_additional_nodes node_names bytecode [] e = Ok (bytecode, e)"
| "append_additional_nodes node_names bytecode (nd # nds) e =
     (if cn_name nd \<in> node_names then Err (EeDuplicateCompositeNodeName (cn_name nd))
      else
        and_then (append_composite_node bytecode nd False e) (\<lambda>(bytecode, e).
          append_additional_nodes (insert (cn_name nd) node_names) bytecode nds e))"

definition encode_composite_to_bytecode ::
    "CompositeBindRules \<Rightarrow> (u8 list, BindRulesEncodeError) result" where
  "encode_composite_to_bytecode bind_rules =
     (if cbr_device_name bind_rules = [] then Err EeMissingCompositeDeviceName
      else
        and_then (get_key (cbr_device_name bind_rules) new_symbol_table_encoder)
          (\<lambda>(device_name_id, e).
        and_then
          (append_composite_node (to_le_bytes device_name_id) (cbr_primary_node bind_rules) True e)
          (\<lambda>(inst_bytecode, e).
        and_then
          (append_additional_nodes {cn_name (cbr_primary_node bind_rules)} inst_bytecode
             (cbr_additional_nodes bind_rules) e)
          (\<lambda>(inst_bytecode, e).
            Ok (to_be_bytes BIND_MAGIC_NUM @ to_le_bytes BYTECODE_VERSION
                @ to_be_bytes SYMB_MAGIC_NUM @ to_le_bytes (as_u32 (length (ste_bytecode e)))
                @ ste_bytecode e
                @ to_be_bytes COMPOSITE_MAGIC_NUM @ to_le_bytes (as_u32 (length inst_bytecode))
                @ inst_bytecode)))))"

section \<open>Symbol table round trip\<close>

lemma read_symbol_table_loop_bytes:
  assumes "list_all good_string ts" and "Suc (length ss + length ts) < 2 ^ 32"
  shows "read_symbol_table_loop (symbols_of ss) (as_u32 (Suc (length ss))) (symbol_bytes (Suc (length ss)) ts)
    = Ok (symbols_of (ss @ ts))"
  using assms
proof (induction ts arbitrary: ss)
  case Nil
  then show ?case
    by (subst read_symbol_table_loop.simps) (simp add: try_next_u32_def)
next
  case (Cons s ts)
  have k: "unat (as_u32 (Suc (length ss))) = Suc (length ss)"
    using Cons.prems by (intro unat_as_u32) simp
  have "as_u32 (Suc (length ss)) \<noteq> - 1"
  proof
    assume "as_u32 (Suc (length ss)) = - 1"
    with k have "unat (- 1 :: u32) = Suc (length ss)" by metis
    then show False
      using Cons.prems by (simp add: unsigned_minus_1_eq_mask mask_eq_exp_minus_1)
  qed
  then have inc: "checked_inc (as_u32 (Suc (length ss))) = Ok (as_u32 (Suc (length (ss @ [s]))))"
    by (simp add: checked_inc_def)
  show ?case
    using Cons.IH [of "ss @ [s]"] Cons.prems rdstr.read_enc [of s]
    by (subst read_symbol_table_loop.simps)
       (simp add: inc symbols_of_snoc [OF k, symmetric] del: of_nat_Suc)
qed

lemma read_symbol_table_bytes:
  "list_all good_string ss \<Longrightarrow> Suc (length ss) < 2 ^ 32 \<Longrightarrow>
   read_symbol_table (symbol_bytes 1 ss) = Ok (symbols_of ss)"
  using read_symbol_table_loop_bytes [of ss "[]"]
  by (simp add: read_symbol_table_def SYMB_TBL_START_KEY_def)

section \<open>Sections\<close>

text \<open>The frame that both encoders put around the symbol table and the last section.\<close>

definition v2_frame :: "u32 \<Rightarrow> string list \<Rightarrow> u8 list \<Rightarrow> u8 list" where
  "v2_frame magic ss body =
     to_be_bytes BIND_MAGIC_NUM @ to_le_bytes BYTECODE_VERSION
     @ to_be_bytes SYMB_MAGIC_NUM @ to_le_bytes (as_u32 (length (symbol_bytes 1 ss))) @ symbol_bytes 1 ss
     @ to_be_bytes magic @ to_le_bytes (as_u32 (length body)) @ body"

lemma decode_frame:
  assumes "list_all good_string ss" and "Suc (length ss) < 2 ^ 32" and "length (v2_frame magic ss body) < 2 ^ 32"
  shows "get_symbol_table_and_instruction_bytecode (v2_frame magic ss body)
    = Ok (symbols_of ss, to_be_bytes magic @ to_le_bytes (as_u32 (length body)) @ body)"
proof -
  have "unat (as_u32 (length (symbol_bytes 1 ss))) = length (symbol_bytes 1 ss)"
    using assms(3) by (intro unat_as_u32) (simp add: v2_frame_def)
  then show ?thesis
    using read_symbol_table_bytes [OF assms(1,2)]
    by (simp add: get_symbol_table_and_instruction_bytecode_def v2_frame_def MINIMUM_BYTECODE_SZ_def
        HEADER_SZ_def del: unat_of_nat)
qed

text \<open>The keys that the encoder handed out, read back.\<close>

lemma ste_extends_new:
  assumes "ste_extends V new_symbol_table_encoder e"
  obtains ss where "ste_inv e ss" and "set ss = V" and "table_inverts (symbols_of ss) (encoded_symbols e) V"
proof -
  from assms ste_inv_new obtain ss where ss: "ste_inv e ss" "set ss \<subseteq> V" "V \<subseteq> dom (encoded_symbols e)"
    by (fastforce simp: ste_extends_def)
  moreover have "V \<subseteq> set ss"
    using ss ste_inv_mem [OF ss(1)] by auto
  moreover have "table_inverts (symbols_of ss) (encoded_symbols e) V"
    using ss unfolding table_inverts_def ste_inv_def by blast
  ultimately show thesis using that by blast
qed

lemma ste_inv_bytes: "ste_inv e ss \<Longrightarrow> ste_bytecode e = symbol_bytes 1 ss \<and> Suc (length ss) < 2 ^ 32"
  by (simp add: ste_inv_def)

section \<open>Normal rules\<close>

lemma encode_v2_frame:
  assumes "encode_to_bytecode_v2 rules = Ok bytes"
  obtains ss K where "bytes = v2_frame INSTRUCTION_MAGIC_NUM ss (layout K (sym_code (br_instructions rules)))"
    and "set ss = code_strings (sym_code (br_instructions rules))" and "Suc (length ss) < 2 ^ 32"
    and "encodable (symbols_of ss) K (sym_code (br_instructions rules))"
proof -
  from assms obtain inst e where enc: "encode_instructions (br_instructions rules) new_symbol_table_encoder = Ok (inst, e)"
    and bytes: "bytes = to_be_bytes BIND_MAGIC_NUM @ to_le_bytes BYTECODE_VERSION
             @ to_be_bytes SYMB_MAGIC_NUM @ to_le_bytes (as_u32 (length (ste_bytecode e))) @ ste_bytecode e
             @ to_be_bytes INSTRUCTION_MAGIC_NUM @ to_le_bytes (as_u32 (length inst)) @ inst"
    by (auto simp: encode_to_bytecode_v2_def result_simps)
  note spec = encode_instructions_spec [OF enc]
  from ste_extends_new [OF spec(1)] obtain ss where ss: "ste_inv e ss"
    "set ss = code_strings (sym_code (br_instructions rules))"
    "table_inverts (symbols_of ss) (encoded_symbols e) (code_strings (sym_code (br_instructions rules)))"
    by blast
  have "inst = layout (encoded_symbols e) (sym_code (br_instructions rules))"
    by (rule spec(2)) (rule map_le_refl)
  with that [of ss "encoded_symbols e"] bytes ss ste_inv_bytes [OF ss(1)] spec(3,5) show thesis
    by (simp add: v2_frame_def encodable_def)
qed

lemma from_bytecode_v2:
  assumes "encode_to_bytecode_v2 rules = Ok bytes" and "length bytes < 2 ^ 32"
    and "\<forall>s\<in>code_strings (sym_code (br_instructions rules)). good_string s"
  obtains ss K where "from_bytecode bytes = Ok \<lparr>dbr_symbol_table = symbols_of ss,
      dbr_instructions = layout K (sym_code (br_instructions rules))\<rparr>"
    and "new_DecodedRules bytes = Ok (Normal \<lparr>dbr_symbol_table = symbols_of ss,
      dbr_instructions = layout K (sym_code (br_instructions rules))\<rparr>)"
    and "encodable (symbols_of ss) K (sym_code (br_instructions rules))"
proof -
  let ?code = "sym_code (br_instructions rules)"
  from encode_v2_frame [OF assms(1)] obtain ss K where
    f: "bytes = v2_frame INSTRUCTION_MAGIC_NUM ss (layout K ?code)" "set ss = code_strings ?code"
      "Suc (length ss) < 2 ^ 32" "encodable (symbols_of ss) K ?code"
    by blast
  have "list_all good_string ss"
    using f(2) assms(3) by (simp add: list_all_iff)
  from decode_frame [OF this f(3) assms(2) [unfolded f(1)]]
  have table: "get_symbol_table_and_instruction_bytecode bytes = Ok (symbols_of ss,
      to_be_bytes INSTRUCTION_MAGIC_NUM @ to_le_bytes (as_u32 (length (layout K ?code))) @ layout K ?code)"
    by (simp add: f(1))
  have "unat (as_u32 (length (layout K ?code))) = length (layout K ?code)"
    using assms(2) by (intro unat_as_u32) (simp add: f(1) v2_frame_def)
  then have body: "new_DecodedBindRules (symbols_of ss)
      (to_be_bytes INSTRUCTION_MAGIC_NUM @ to_le_bytes (as_u32 (length (layout K ?code))) @ layout K ?code)
    = Ok \<lparr>dbr_symbol_table = symbols_of ss, dbr_instructions = layout K ?code\<rparr>"
    by (simp add: new_DecodedBindRules_def del: unat_of_nat length_layout)
  have "INSTRUCTION_MAGIC_NUM \<noteq> COMPOSITE_MAGIC_NUM"
    by (simp add: INSTRUCTION_MAGIC_NUM_def COMPOSITE_MAGIC_NUM_def)
  with table body f(4) that [of ss K] show thesis
    by (simp add: from_bytecode_def new_DecodedRules_def get_u32_bytes_take del: length_layout)
qed

lemma match_bytecode_v2:
  assumes "encode_to_bytecode_v2 rules = Ok bytes" and "length bytes < 2 ^ 32"
    and "\<forall>s\<in>code_strings (sym_code (br_instructions rules)). good_string s"
  shows "match_bytecode bytes props = run_symbolic (device_equal props) (sym_code (br_instructions rules))"
  using from_bytecode_v2 [OF assms]
  by (metis (no_types, lifting) DecodedBindRules.select_convs and_then_simps(1) match_correct
      match_bytecode_def)

end
