(* ===== verification/Composite_Roundtrip.thy ===== *)
theory Composite_Roundtrip
  imports Encode_V2
begin

text \<open>
  The round trip of composite bind rules: the decoder recovers the device name, the node names
  and the nodes in order, and the interpreter decides for every node what its instructions say.
\<close>

section \<open>Encoding nodes\<close>

abbreviation node_code :: "CompositeNode \<Rightarrow> SymbolicInstruction list" where
  "node_code nd \<equiv> sym_code (cn_instructions nd)"

definition node_strings :: "CompositeNode \<Rightarrow> string set" where
  "node_strings nd = insert (cn_name nd) (code_strings (node_code nd))"

definition node_bytes :: "(string \<rightharpoonup> u32) \<Rightarrow> RawNodeType \<Rightarrow> CompositeNode \<Rightarrow> u8 list" where
  "node_bytes K t nd =
     raw_node_byte t # to_le_bytes (the (K (cn_name nd))) @ to_le_bytes (as_u32 (code_size (node_code nd)))
     @ layout K (node_code nd)"

definition node_ok :: "CompositeNode \<Rightarrow> bool" where
  "node_ok nd \<longleftrightarrow> cn_name nd \<noteq> [] \<and> list_all inst_ok (node_code nd) \<and> offsets_fit (node_code nd)"

abbreviation node_type :: "bool \<Rightarrow> RawNodeType" where
  "node_type is_primary \<equiv> (if is_primary then RnPrimary else RnAdditional)"

lemma append_composite_node_appends:
  assumes "append_composite_node bc nd p e = Ok (bc', e')"
  shows "appends (node_strings nd) (\<lambda>K. node_bytes K (node_type p) nd) bc e bc' e'"
    and "node_ok nd"
proof -
  from assms obtain key e1 inst where name: "cn_name nd \<noteq> []" "get_key (cn_name nd) e = Ok (key, e1)"
    and enc: "encode_instructions (cn_instructions nd) e1 = Ok (inst, e')"
    and bc': "bc' = bc @ raw_node_byte (node_type p) # to_le_bytes key @ to_le_bytes (as_u32 (length inst)) @ inst"
    by (auto simp: append_composite_node_def Let_def result_simps split: if_splits)
  note spec = encode_instructions_spec [OF enc]
  note key = get_key_extends [OF name(2)]
  have "ste_extends ({cn_name nd} \<union> code_strings (node_code nd)) e e'"
    using key spec(1) by (intro ste_extends_trans) auto
  moreover have "bc' = bc @ node_bytes K (node_type p) nd" if "encoded_symbols e' \<subseteq>\<^sub>m K" for K
  proof -
    have "encoded_symbols e1 \<subseteq>\<^sub>m K"
      using spec(1) that map_le_trans by (auto simp: ste_extends_def)
    with key have "K (cn_name nd) = Some key"
      by (auto simp: map_le_def dom_def)
    with spec(2) [OF that] show ?thesis by (simp add: bc' node_bytes_def)
  qed
  ultimately show "appends (node_strings nd) (\<lambda>K. node_bytes K (node_type p) nd) bc e bc' e'"
    by (simp add: appends_def node_strings_def)
  show "node_ok nd"
    using name(1) spec(3,5) by (simp add: node_ok_def)
qed

lemma append_additional_nodes_appends:
  assumes "append_additional_nodes names bc nds e = Ok (bc', e')"
  shows "appends (\<Union>nd\<in>set nds. node_strings nd) (\<lambda>K. concat (map (node_bytes K RnAdditional) nds)) bc e bc' e'
    \<and> list_all node_ok nds \<and> distinct (map cn_name nds) \<and> names \<inter> cn_name ` set nds = {}"
  using assms
proof (induction nds arbitrary: names bc e)
  case Nil
  then show ?case using appends_const [of "[]"] by simp
next
  case (Cons nd nds)
  then obtain bc1 e1 where step: "cn_name nd \<notin> names" "append_composite_node bc nd False e = Ok (bc1, e1)"
    "append_additional_nodes (insert (cn_name nd) names) bc1 nds e1 = Ok (bc', e')"
    by (auto simp: result_simps split: if_splits)
  note head = append_composite_node_appends [OF step(2)]
  note tail = Cons.IH [OF step(3)]
  from appends_trans [OF head(1) tail [THEN conjunct1]] head(2) tail step(1) show ?case
    by auto
qed

section \<open>Decoding nodes\<close>

definition decoded_node :: "(string \<rightharpoonup> u32) \<Rightarrow> CompositeNode \<Rightarrow> DecodedNode" where
  "decoded_node K nd = \<lparr>nd_name_id = the (K (cn_name nd)), nd_instructions = layout K (node_code nd)\<rparr>"

lemma split_off_node_bytes:
  assumes "code_size (node_code nd) < 2 ^ 32" and "st (the (K (cn_name nd))) \<noteq> None"
  shows "split_off_node (node_bytes K t nd @ rest) t st = Ok (decoded_node K nd, rest)"
proof -
  have "unat (as_u32 (code_size (node_code nd))) = code_size (node_code nd)"
    using assms(1) by (rule unat_as_u32)
  then show ?thesis
    using assms(2)
    by (cases t) (auto simp: split_off_node_def verify_and_read_node_header_def node_bytes_def
        NODE_TYPE_HEADER_SZ_def get_u32_bytes_take vec_index_def raw_node_of_def decoded_node_def
        split_off_def simp del: unat_of_nat)
qed

lemma additional_nodes_loop_bytes:
  assumes "\<And>nd. nd \<in> set nds \<Longrightarrow> code_size (node_code nd) < 2 ^ 32 \<and> st (the (K (cn_name nd))) \<noteq> None"
  shows "additional_nodes_loop st acc (concat (map (node_bytes K RnAdditional) nds)) = Ok (acc @ map (decoded_node K) nds)"
  using assms
proof (induction nds arbitrary: acc)
  case Nil
  then show ?case by (subst additional_nodes_loop.simps) simp
next
  case (Cons nd nds)
  have "node_bytes K RnAdditional nd @ concat (map (node_bytes K RnAdditional) nds) \<noteq> []"
    by (simp add: node_bytes_def)
  with Cons show ?case
    by (subst additional_nodes_loop.simps) (simp add: split_off_node_bytes)
qed

section \<open>The round trip\<close>

abbreviation rule_nodes :: "CompositeBindRules \<Rightarrow> CompositeNode list" where
  "rule_nodes rules \<equiv> cbr_primary_node rules # cbr_additional_nodes rules"

definition rule_strings :: "CompositeBindRules \<Rightarrow> string set" where
  "rule_strings rules = insert (cbr_device_name rules) (\<Union>nd\<in>set (rule_nodes rules). node_strings nd)"

definition composite_body :: "(string \<rightharpoonup> u32) \<Rightarrow> CompositeBindRules \<Rightarrow> u8 list" where
  "composite_body K rules =
     to_le_bytes (the (K (cbr_device_name rules))) @ node_bytes K RnPrimary (cbr_primary_node rules)
     @ concat (map (node_bytes K RnAdditional) (cbr_additional_nodes rules))"

lemma encode_composite_frame:
  assumes "encode_composite_to_bytecode rules = Ok bytes"
  obtains ss K where "bytes = v2_frame COMPOSITE_MAGIC_NUM ss (composite_body K rules)"
    and "set ss = rule_strings rules" and "Suc (length ss) < 2 ^ 32"
    and "table_inverts (symbols_of ss) K (rule_strings rules)"
    and "list_all node_ok (rule_nodes rules)" and "distinct (map cn_name (rule_nodes rules))"
proof -
  from assms obtain k e1 bc2 e2 inst e where
    key: "get_key (cbr_device_name rules) new_symbol_table_encoder = Ok (k, e1)"
    and prim: "append_composite_node (to_le_bytes k) (cbr_primary_node rules) True e1 = Ok (bc2, e2)"
    and adds: "append_additional_nodes {cn_name (cbr_primary_node rules)} bc2 (cbr_additional_nodes rules) e2 = Ok (inst, e)"
    and bytes: "bytes = to_be_bytes BIND_MAGIC_NUM @ to_le_bytes BYTECODE_VERSION
        @ to_be_bytes SYMB_MAGIC_NUM @ to_le_bytes (as_u32 (length (ste_bytecode e))) @ ste_bytecode e
        @ to_be_bytes COMPOSITE_MAGIC_NUM @ to_le_bytes (as_u32 (length inst)) @ inst"
    by (auto simp: encode_composite_to_bytecode_def result_simps split: if_splits)
  note p = append_composite_node_appends [OF prim]
  note a = append_additional_nodes_appends [OF adds]
  note pa = appends_trans [OF p(1) a [THEN conjunct1]]
  have "ste_extends ({cbr_device_name rules} \<union> (node_strings (cbr_primary_node rules) \<union>
      (\<Union>nd\<in>set (cbr_additional_nodes rules). node_strings nd))) new_symbol_table_encoder e"
    by (rule ste_extends_trans [OF conjunct1 [OF get_key_extends [OF key]]
        conjunct1 [OF pa [unfolded appends_def if_True]]])
  then have ext: "ste_extends (rule_strings rules) new_symbol_table_encoder e"
    by (simp add: rule_strings_def)
  from ste_extends_new [OF this] obtain ss where ss: "ste_inv e ss" "set ss = rule_strings rules"
    "table_inverts (symbols_of ss) (encoded_symbols e) (rule_strings rules)"
    by blast
  have "encoded_symbols e (cbr_device_name rules) = Some k"
    using get_key_extends [OF key] pa by (auto simp: appends_def ste_extends_def map_le_def dom_def)
  moreover have "inst = to_le_bytes k @ node_bytes (encoded_symbols e) RnPrimary (cbr_primary_node rules)
      @ concat (map (node_bytes (encoded_symbols e) RnAdditional) (cbr_additional_nodes rules))"
    using pa unfolding appends_def by (auto dest: spec [of _ "encoded_symbols e"])
  ultimately have "bytes = v2_frame COMPOSITE_MAGIC_NUM ss (composite_body (encoded_symbols e) rules)"
    using ste_inv_bytes [OF ss(1)] by (simp add: bytes v2_frame_def composite_body_def)
  with that [of ss "encoded_symbols e"] ss ste_inv_bytes [OF ss(1)] p(2) a show thesis by auto
qed

lemma length_composite_body:
  assumes "nd \<in> set (rule_nodes rules)"
  shows "code_size (node_code nd) < length (composite_body K rules)"
proof -
  have node: "code_size (node_code nd) < length (node_bytes K t nd)" for t
    by (simp add: node_bytes_def)
  have "length (node_bytes K RnAdditional nd) \<le> length (concat (map (node_bytes K RnAdditional) nds))"
    if "nd \<in> set nds" for nds
    using that by (induction nds) auto
  with node [of RnAdditional] have "nd \<in> set (cbr_additional_nodes rules) \<Longrightarrow> ?thesis"
    by (simp add: composite_body_def) (meson less_le_trans trans_less_add2)
  moreover have "nd = cbr_primary_node rules \<Longrightarrow> ?thesis"
    using node [of RnPrimary] by (simp add: composite_body_def)
  ultimately show ?thesis using assms by auto
qed

lemma decode_composite_body:
  assumes "length (composite_body K rules) < 2 ^ 32" and "table_inverts st K (rule_strings rules)"
  shows "new_DecodedCompositeBindRules st (to_be_bytes COMPOSITE_MAGIC_NUM
      @ to_le_bytes (as_u32 (length (composite_body K rules))) @ composite_body K rules)
    = Ok \<lparr>dcr_symbol_table = st, dcr_device_name_id = the (K (cbr_device_name rules)),
          dcr_primary_node = decoded_node K (cbr_primary_node rules),
          dcr_additional_nodes = map (decoded_node K) (cbr_additional_nodes rules)\<rparr>"
proof -
  have nodes: "code_size (node_code nd) < 2 ^ 32 \<and> st (the (K (cn_name nd))) \<noteq> None"
    if "nd \<in> set (rule_nodes rules)" for nd
  proof
    show "code_size (node_code nd) < 2 ^ 32"
      using length_composite_body [OF that, of K] assms(1) by simp
    have "cn_name nd \<in> rule_strings rules"
      using that by (auto simp: rule_strings_def node_strings_def)
    with assms(2) show "st (the (K (cn_name nd))) \<noteq> None"
      by (auto simp: table_inverts_def)
  qed
  have "st (the (K (cbr_device_name rules))) \<noteq> None"
    using assms(2) by (auto simp: table_inverts_def rule_strings_def)
  moreover have "unat (as_u32 (length (composite_body K rules))) = length (composite_body K rules)"
    using assms(1) by (rule unat_as_u32)
  moreover have "get_u32_bytes (composite_body K rules) 0 = Ok (to_le_bytes (the (K (cbr_device_name rules))))"
    "(split_off (composite_body K rules) 4 :: (_, BytecodeError) result) =
      Ok (to_le_bytes (the (K (cbr_device_name rules))), node_bytes K RnPrimary (cbr_primary_node rules)
      @ concat (map (node_bytes K RnAdditional) (cbr_additional_nodes rules)))"
    by (simp_all add: composite_body_def get_u32_bytes_take split_off_def)
  moreover have "split_off_node (node_bytes K RnPrimary (cbr_primary_node rules) @ rest) RnPrimary st
      = Ok (decoded_node K (cbr_primary_node rules), rest)" for rest
    using nodes [of "cbr_primary_node rules"] by (simp add: split_off_node_bytes)
  moreover have "additional_nodes_loop st [] (concat (map (node_bytes K RnAdditional) (cbr_additional_nodes rules)))
      = Ok (map (decoded_node K) (cbr_additional_nodes rules))"
    using additional_nodes_loop_bytes [of "cbr_additional_nodes rules" st K "[]"] nodes by simp
  ultimately show ?thesis
    by (auto simp: new_DecodedCompositeBindRules_def Let_def simp del: unat_of_nat)
qed

text \<open>Which decoded node stands for which node of the rules.\<close>

definition decodes_node :: "DecodedSymbols \<Rightarrow> CompositeNode \<Rightarrow> DecodedNode \<Rightarrow> bool" where
  "decodes_node st nd d \<longleftrightarrow>
     st (nd_name_id d) = Some (cn_name nd)
     \<and> (\<forall>props. match_bind \<lparr>mbd_symbol_table = st, mbd_instructions = nd_instructions d\<rparr> props
           = run_symbolic (device_equal props) (node_code nd))"

lemma decodes_decoded_node:
  assumes "table_inverts st K (node_strings nd)" and "node_ok nd"
  shows "decodes_node st nd (decoded_node K nd)"
proof -
  have "encodable st K (node_code nd)"
    using assms by (auto simp: encodable_def node_ok_def table_inverts_def node_strings_def)
  then have "match_bind_loop props st (layout K (node_code nd)) = run_symbolic (device_equal props) (node_code nd)"
    for props
    by (rule match_correct)
  moreover have "st (the (K (cn_name nd))) = Some (cn_name nd)"
    using assms(1) by (auto simp: table_inverts_def node_strings_def)
  ultimately show ?thesis
    by (simp add: decodes_node_def decoded_node_def match_bind_def)
qed

lemma composite_roundtrip_lemma:
  assumes "encode_composite_to_bytecode rules = Ok bytes" and "length bytes < 2 ^ 32"
    and "\<forall>s\<in>rule_strings rules. good_string s"
  shows "\<exists>d. new_DecodedRules bytes = Ok (Composite d)
    \<and> dcr_symbol_table d (dcr_device_name_id d) = Some (cbr_device_name rules)
    \<and> decodes_node (dcr_symbol_table d) (cbr_primary_node rules) (dcr_primary_node d)
    \<and> list_all2 (decodes_node (dcr_symbol_table d)) (cbr_additional_nodes rules) (dcr_additional_nodes d)
    \<and> composite_from_bytecode bytes = Ok d"
proof -
  obtain ss K where
    f: "bytes = v2_frame COMPOSITE_MAGIC_NUM ss (composite_body K rules)" "set ss = rule_strings rules"
      "Suc (length ss) < 2 ^ 32" "table_inverts (symbols_of ss) K (rule_strings rules)"
      "list_all node_ok (rule_nodes rules)" "distinct (map cn_name (rule_nodes rules))"
    by (rule encode_composite_frame [OF assms(1)])
  let ?d = "\<lparr>dcr_symbol_table = symbols_of ss, dcr_device_name_id = the (K (cbr_device_name rules)),
          dcr_primary_node = decoded_node K (cbr_primary_node rules),
          dcr_additional_nodes = map (decoded_node K) (cbr_additional_nodes rules)\<rparr>"
  have good: "list_all good_string ss"
    using f(2) assms(3) by (simp add: list_all_iff)
  have "length (composite_body K rules) < 2 ^ 32"
    using assms(2) by (simp add: f(1) v2_frame_def)
  note body = decode_composite_body [OF this f(4)]
  have tab: "get_symbol_table_and_instruction_bytecode bytes = Ok (symbols_of ss, to_be_bytes COMPOSITE_MAGIC_NUM
      @ to_le_bytes (as_u32 (length (composite_body K rules))) @ composite_body K rules)"
    unfolding f(1) by (rule decode_frame [OF good f(3) assms(2) [unfolded f(1)]])
  have dec: "new_DecodedRules bytes = Ok (Composite ?d)" "composite_from_bytecode bytes = Ok ?d"
    unfolding new_DecodedRules_def composite_from_bytecode_def tab and_then_simps prod.case body
    by (simp_all add: get_u32_bytes_take)
  have "decodes_node (symbols_of ss) nd (decoded_node K nd)" if "nd \<in> set (rule_nodes rules)" for nd
    using f(4,5) that by (intro decodes_decoded_node) (auto simp: rule_strings_def table_inverts_def list_all_iff)
  moreover have "symbols_of ss (the (K (cbr_device_name rules))) = Some (cbr_device_name rules)"
    using f(4) by (auto simp: table_inverts_def rule_strings_def)
  ultimately show ?thesis
    using dec by (intro exI [of _ ?d]) (simp add: list_all2_conv_all_nth)
qed

end
