(* ===== verification/Compile_Rules.thy ===== *)
theory Compile_Rules
  imports Bind_Grammar Symbol_Table Encode_V1 Composite_Roundtrip Compiler_Total
begin

text \<open>
  The entry points of the compiler (\<open>compiler/compiler.rs\<close>): from the text of bind rules and
  libraries to compiled rules and their bytecode. The parameter \<open>ord\<close> is the order in which the
  dependency graph visits the edges of a node.
\<close>

section \<open>The entry points\<close>

definition parse_library :: "bool \<Rightarrow> string \<Rightarrow> (LibraryAst, CompilerError) result" where
  "parse_library lint lib =
     and_then (map_err CeBindParserError (library_try_from lib)) (\<lambda>ast.
     and_then (if lint then map_err CeLinterError (lint_library ast) else Ok ()) (\<lambda>_. Ok ast))"

definition get_symbol_table_from_libraries ::
    "(nat \<Rightarrow> nat list \<Rightarrow> nat list) \<Rightarrow> Include list \<Rightarrow> string list \<Rightarrow> bool
     \<Rightarrow> (SymbolTable, CompilerError) result" where
  "get_symbol_table_from_libraries ord using libraries lint =
     and_then (collect_results (parse_library lint) libraries) (\<lambda>library_asts.
     and_then (resolve_dependencies ord using library_asts) construct_symbol_table)"

definition compile_bind ::
    "(nat \<Rightarrow> nat list \<Rightarrow> nat list) \<Rightarrow> string \<Rightarrow> string list \<Rightarrow> bool \<Rightarrow> bool \<Rightarrow> bool
     \<Rightarrow> (BindRules, CompilerError) result" where
  "compile_bind ord rules_str libraries lint disable_autobind use_new_bytecode =
     and_then (map_err CeBindParserError (rules_try_from rules_str)) (\<lambda>ast.
     and_then (get_symbol_table_from_libraries ord (ast_using ast) libraries lint) (\<lambda>symbol_table.
     and_then (compile_statements (ast_statements ast) symbol_table use_new_bytecode) (\<lambda>insts.
       Ok \<lparr>br_symbol_table = symbol_table,
           br_instructions = (if disable_autobind then disable_autobind_inst # insts else insts),
           br_use_new_bytecode = use_new_bytecode\<rparr>)))"

definition compile_node ::
    "SymbolTable \<Rightarrow> bool \<Rightarrow> CompositeAstNode \<Rightarrow> (CompositeNode, CompilerError) result" where
  "compile_node symbol_table use_new_bytecode nd =
     and_then (compile_statements (can_statements nd) symbol_table use_new_bytecode) (\<lambda>inst.
       Ok \<lparr>cn_name = can_name nd, cn_instructions = inst\<rparr>)"

definition compile_bind_composite ::
    "(nat \<Rightarrow> nat list \<Rightarrow> nat list) \<Rightarrow> string \<Rightarrow> string list \<Rightarrow> bool \<Rightarrow> bool
     \<Rightarrow> (CompositeBindRules, CompilerError) result" where
  "compile_bind_composite ord rules_str libraries lint use_new_bytecode =
     and_then (map_err CeBindParserError (composite_try_from rules_str)) (\<lambda>ast.
     and_then (get_symbol_table_from_libraries ord (cast_using ast) libraries lint) (\<lambda>symbol_table.
     and_then (compile_node symbol_table use_new_bytecode (cast_primary_node ast)) (\<lambda>primary_node.
     and_then (collect_results (compile_node symbol_table use_new_bytecode) (cast_nodes ast)) (\<lambda>additional_nodes.
       Ok \<lparr>cbr_device_name = ci_to_string (cast_name ast), cbr_symbol_table = symbol_table,
           cbr_primary_node = primary_node, cbr_additional_nodes = additional_nodes\<rparr>))))"

definition compile ::
    "(nat \<Rightarrow> nat list \<Rightarrow> nat list) \<Rightarrow> string \<Rightarrow> string list \<Rightarrow> bool \<Rightarrow> bool \<Rightarrow> bool
     \<Rightarrow> (CompiledBindRules, CompilerError) result" where
  "compile ord rules_str libraries lint disable_autobind use_new_bytecode =
     (case composite_try_from rules_str of
        Ok _ \<Rightarrow>
          and_then (compile_bind_composite ord rules_str libraries lint use_new_bytecode)
            (\<lambda>r. Ok (CompositeBind r))
      | Err _ \<Rightarrow>
          and_then (compile_bind ord rules_str libraries lint disable_autobind use_new_bytecode)
            (\<lambda>r. Ok (Bind r))
      | Panic \<Rightarrow> Panic)"

fun encode_to_bytecode :: "CompiledBindRules \<Rightarrow> (u8 list, BindRulesEncodeError) result" where
  "encode_to_bytecode (Bind bind_rules) =
     (if br_use_new_bytecode bind_rules then encode_to_bytecode_v2 bind_rules
      else encode_to_bytecode_v1 bind_rules)"
| "encode_to_bytecode (CompositeBind composite_bind) = encode_composite_to_bytecode composite_bind"

definition empty_bind_rules :: "bool \<Rightarrow> bool \<Rightarrow> CompiledBindRules" where
  "empty_bind_rules use_new_bytecode disable_autobind =
     Bind
       \<lparr>br_symbol_table = Map.empty,
        br_instructions =
          (if disable_autobind then [disable_autobind_inst] else [])
          @ (if use_new_bytecode then [] else [\<lparr>si_location = None, si_instruction = UnconditionalBind\<rparr>]),
        br_use_new_bytecode = use_new_bytecode\<rparr>"

section \<open>What compiled rules decide\<close>

lemma compile_bind_Ok:
  assumes "compile_bind ord rules_str libraries lint disable_autobind use_new = Ok br"
  obtains ast st "is" where "rules_try_from rules_str = Ok ast"
    and "get_symbol_table_from_libraries ord (ast_using ast) libraries lint = Ok st"
    and "compile_statements (ast_statements ast) st use_new = Ok is"
    and "br = \<lparr>br_symbol_table = st,
           br_instructions = (if disable_autobind then disable_autobind_inst # is else is),
           br_use_new_bytecode = use_new\<rparr>"
  using assms by (auto simp: compile_bind_def result_simps)

text \<open>The meaning of rules on a device; \<open>disable_autobind\<close> adds a condition on \<open>BIND_AUTOBIND\<close>.\<close>

definition sem_rules :: "'e comparison \<Rightarrow> bool \<Rightarrow> SymbolTable \<Rightarrow> Statement list \<Rightarrow> (bool, 'e) result" where
  "sem_rules eq disable_autobind st ss =
     (if disable_autobind
      then and_also (eq (DeprecatedKey BIND_AUTOBIND) (NumberValue 0)) (sem_block eq st ss)
      else sem_block eq st ss)"

lemma compile_bind_match:
  assumes "compile_bind ord rules_str libraries lint disable_autobind True = Ok br"
    and "encode_to_bytecode (Bind br) = Ok bytes" and "length bytes < 2 ^ 32"
    and "\<forall>s\<in>code_strings (sym_code (br_instructions br)). good_string s"
  shows "\<exists>ast st. rules_try_from rules_str = Ok ast
    \<and> get_symbol_table_from_libraries ord (ast_using ast) libraries lint = Ok st
    \<and> match_bytecode bytes props = sem_rules (device_equal props) disable_autobind st (ast_statements ast)"
proof -
  obtain ast st "is" where c: "rules_try_from rules_str = Ok ast"
    "get_symbol_table_from_libraries ord (ast_using ast) libraries lint = Ok st"
    "compile_statements (ast_statements ast) st True = Ok is"
    "br = \<lparr>br_symbol_table = st,
       br_instructions = (if disable_autobind then disable_autobind_inst # is else is), br_use_new_bytecode = True\<rparr>"
    by (rule compile_bind_Ok [OF assms(1)])
  from assms(2) have "encode_to_bytecode_v2 br = Ok bytes"
    by (simp add: c(4))
  from match_bytecode_v2 [OF this assms(3,4)] compile_statements_run [OF c(3), of "device_equal props"] c(1,2)
  show ?thesis
    by (auto simp: c(4) sem_rules_def disable_autobind_inst_def and_also_def cong: if_cong)
qed

text \<open>
  C2. From source to decision. Rules are compiled from their text for the new bytecode, encoded, and
  the bytes are matched against the properties of a device. The decision is the meaning of the
  statements that the text parses to, in the symbol table of the libraries it uses, with the
  condition on \<open>BIND_AUTOBIND\<close> in front when automatic binding is disabled. Numbers are compared
  as the bytecode holds them, cut to 32 bits.
\<close>

theorem compile_bind_match_correct:
  assumes "compile_bind ord rules_str libraries lint disable_autobind True = Ok br"
    and "encode_to_bytecode (Bind br) = Ok bytes" and "length bytes < 2 ^ 32"
    and "\<forall>s\<in>code_strings (sym_code (br_instructions br)). good_string s"
  shows "\<exists>ast st. rules_try_from rules_str = Ok ast
    \<and> get_symbol_table_from_libraries ord (ast_using ast) libraries lint = Ok st
    \<and> match_bytecode bytes props = sem_rules (device_equal props) disable_autobind st (ast_statements ast)"
  by (rule compile_bind_match [OF assms])

definition ex_source :: string where
  "ex_source = ''fuchsia.BIND_PROTOCOL == 5;''"

definition ex_protocol :: CompoundIdentifier where
  "ex_protocol = make_identifier [''fuchsia'', ''BIND_PROTOCOL'']"

definition ex_ast :: Ast where
  "ex_ast =
     \<lparr>ast_using = [],
      ast_statements =
        [ConditionStatement \<lparr>sp_offset = 0, sp_line = 1, sp_fragment = ''fuchsia.BIND_PROTOCOL == 5;''\<rparr>
           \<lparr>cond_span = \<lparr>sp_offset = 0, sp_line = 1, sp_fragment = ''fuchsia.BIND_PROTOCOL == 5''\<rparr>,
            cond_lhs = ex_protocol, cond_op = Equals, cond_rhs = NumericLiteral 5\<rparr>]\<rparr>"

lemma ex_source_parses: "rules_try_from ex_source = Ok ex_ast"
  by code_simp

lemma ex_table_protocol: "get_deprecated_symbols ex_protocol = Some (DeprecatedKey 1)"
  by code_simp

lemma no_libraries: "get_symbol_table_from_libraries (\<lambda>_ xs. xs) [] [] lint = Ok get_deprecated_symbols"
proof -
  have "resolve_dependencies (\<lambda>_ xs. xs) [] [] = Ok []"
    by code_simp
  then show ?thesis
    by (simp add: get_symbol_table_from_libraries_def construct_symbol_table_def)
qed

definition ex_compiled :: BindRules where
  "ex_compiled =
     \<lparr>br_symbol_table = get_deprecated_symbols,
      br_instructions =
        [disable_autobind_inst,
         \<lparr>si_location = Some (LocConditionStatement (hd (ast_statements ex_ast))),
          si_instruction = AbortIfNotEqual (DeprecatedKey 1) (NumberValue 5)\<rparr>],
      br_use_new_bytecode = True\<rparr>"

lemma ex_compiles: "compile_bind (\<lambda>_ xs. xs) ex_source [] True True True = Ok ex_compiled"
  by (simp add: compile_bind_def ex_source_parses no_libraries ex_compiled_def ex_ast_def compile_statements_def
      compile_statements_in_def compile_block_def new_compiler_def lookup_identifier_def ex_table_protocol
      push_inst_def)

lemma ex_compiled_bytes:
  obtains bytes where "encode_to_bytecode (Bind ex_compiled) = Ok bytes" and "length bytes < 2 ^ 32"
  by (simp add: ex_compiled_def encode_to_bytecode_v2_def encode_instructions_def to_instruction_info_def
      disable_autobind_inst_def append_value_def append_value_comparison_def new_symbol_table_encoder_def)

lemma ex_compiled_good: "\<forall>s\<in>code_strings (sym_code (br_instructions ex_compiled)). good_string s"
  by (simp add: ex_compiled_def disable_autobind_inst_def)

theorem compile_bind_match_correct_witness:
  "\<exists>bytes. encode_to_bytecode (Bind ex_compiled) = Ok bytes \<and>
     match_bytecode bytes [NumberKey 1 \<mapsto> NumberValue 5, NumberKey 2 \<mapsto> NumberValue 0] = Ok True \<and>
     match_bytecode bytes [NumberKey 1 \<mapsto> NumberValue 6, NumberKey 2 \<mapsto> NumberValue 0] = Ok False"
proof -
  obtain bytes where bytes: "encode_to_bytecode (Bind ex_compiled) = Ok bytes" "length bytes < 2 ^ 32"
    by (rule ex_compiled_bytes)
  note match = compile_bind_match_correct [OF ex_compiles bytes ex_compiled_good]
  have "sem_rules (device_equal [NumberKey 1 \<mapsto> NumberValue v, NumberKey 2 \<mapsto> NumberValue 0]) True
      get_deprecated_symbols (ast_statements ex_ast) = Ok (v = 5)" if "v < 0x100000000" for v :: u64
    using that
    by (simp add: sem_rules_def ex_ast_def sem_condition_def sem_equal_def value_symbol_def ex_table_protocol
        device_equal_def BIND_AUTOBIND_def compare_symbols_def)
  from this [of 5] this [of 6] match [of "[NumberKey 1 \<mapsto> NumberValue 5, NumberKey 2 \<mapsto> NumberValue 0]"]
    match [of "[NumberKey 1 \<mapsto> NumberValue 6, NumberKey 2 \<mapsto> NumberValue 0]"] bytes(1)
  show ?thesis
    by (auto simp: ex_source_parses no_libraries ex_ast_def)
qed

section \<open>What compiled composite rules decide\<close>

text \<open>A decoded node that carries the name of a node of the source and decides what its statements mean.\<close>

definition node_decides :: "SymbolTable \<Rightarrow> DecodedSymbols \<Rightarrow> CompositeAstNode \<Rightarrow> DecodedNode \<Rightarrow> bool" where
  "node_decides st symbols nd d \<longleftrightarrow>
     symbols (nd_name_id d) = Some (can_name nd)
     \<and> (\<forall>props. match_bind \<lparr>mbd_symbol_table = symbols, mbd_instructions = nd_instructions d\<rparr> props
           = sem_block (device_equal props) st (can_statements nd))"

lemma compile_node_decides:
  assumes "compile_node st use_new nd = Ok nd'" and "decodes_node symbols nd' d"
  shows "node_decides st symbols nd d"
  using assms compile_statements_run [where eq = "device_equal _"]
  by (auto simp: compile_node_def result_simps decodes_node_def node_decides_def)

text \<open>
  C3. Composite rules from source to decision. Composite rules are compiled from their text and
  encoded. The bytes decode to composite rules with the name of the device and, in order, the nodes
  of the source. Matching the instructions of a node against a device decides what the
  statements of that node mean. Numbers are compared as the bytecode holds them, cut to 32 bits.
\<close>

theorem compile_composite_match_correct:
  assumes "compile_bind_composite ord rules_str libraries lint True = Ok cbr"
    and "encode_to_bytecode (CompositeBind cbr) = Ok bytes" and "length bytes < 2 ^ 32"
    and "\<forall>s\<in>rule_strings cbr. good_string s"
  shows "\<exists>ast st d. composite_try_from rules_str = Ok ast
    \<and> get_symbol_table_from_libraries ord (cast_using ast) libraries lint = Ok st
    \<and> new_DecodedRules bytes = Ok (Composite d)
    \<and> dcr_symbol_table d (dcr_device_name_id d) = Some (ci_to_string (cast_name ast))
    \<and> node_decides st (dcr_symbol_table d) (cast_primary_node ast) (dcr_primary_node d)
    \<and> list_all2 (node_decides st (dcr_symbol_table d)) (cast_nodes ast) (dcr_additional_nodes d)"
proof -
  from assms(1) obtain ast st p ns where c: "composite_try_from rules_str = Ok ast"
    "get_symbol_table_from_libraries ord (cast_using ast) libraries lint = Ok st"
    "compile_node st True (cast_primary_node ast) = Ok p"
    "list_all2 (\<lambda>nd nd'. compile_node st True nd = Ok nd') (cast_nodes ast) ns"
    "cbr = \<lparr>cbr_device_name = ci_to_string (cast_name ast), cbr_symbol_table = st,
       cbr_primary_node = p, cbr_additional_nodes = ns\<rparr>"
    by (auto simp: compile_bind_composite_def result_simps collect_results_Ok)
  from assms(2) have "encode_composite_to_bytecode cbr = Ok bytes" by simp
  from composite_roundtrip_lemma [OF this assms(3,4)] obtain d where
    d: "new_DecodedRules bytes = Ok (Composite d)"
      "dcr_symbol_table d (dcr_device_name_id d) = Some (ci_to_string (cast_name ast))"
      "decodes_node (dcr_symbol_table d) p (dcr_primary_node d)"
      "list_all2 (decodes_node (dcr_symbol_table d)) ns (dcr_additional_nodes d)"
    by (auto simp: c(5))
  have "list_all2 (node_decides st (dcr_symbol_table d)) (cast_nodes ast) (dcr_additional_nodes d)"
    using c(4) d(4) compile_node_decides by (rule list_all2_trans [rotated])
  with c(1,2) d(1,2) compile_node_decides [OF c(3) d(3)] show ?thesis by blast
qed

definition quoted_name :: "string \<Rightarrow> string" where
  "quoted_name s = [CHR 0x22] @ s @ [CHR 0x22]"

definition ex_composite_source :: string where
  "ex_composite_source =
     ''composite dev; primary node '' @ quoted_name ''a'' @ '' { fuchsia.BIND_PROTOCOL == 5; } node ''
     @ quoted_name ''b'' @ '' { true; }''"

definition ex_composite_ast :: CompositeAst where
  "ex_composite_ast =
     \<lparr>cast_name = make_identifier [''dev''], cast_using = [],
      cast_primary_node =
        \<lparr>can_name = ''a'',
         can_statements =
           [ConditionStatement \<lparr>sp_offset = 34, sp_line = 1, sp_fragment = ''fuchsia.BIND_PROTOCOL == 5;''\<rparr>
              \<lparr>cond_span = \<lparr>sp_offset = 34, sp_line = 1, sp_fragment = ''fuchsia.BIND_PROTOCOL == 5''\<rparr>,
               cond_lhs = ex_protocol, cond_op = Equals, cond_rhs = NumericLiteral 5\<rparr>]\<rparr>,
      cast_nodes =
        [\<lparr>can_name = ''b'',
          can_statements = [TrueStatement \<lparr>sp_offset = 75, sp_line = 1, sp_fragment = ''true;''\<rparr>]\<rparr>]\<rparr>"

lemma ex_composite_parses: "composite_try_from ex_composite_source = Ok ex_composite_ast"
  by code_simp

definition ex_composite_compiled :: CompositeBindRules where
  "ex_composite_compiled =
     \<lparr>cbr_device_name = ''dev'', cbr_symbol_table = get_deprecated_symbols,
      cbr_primary_node =
        \<lparr>cn_name = ''a'',
         cn_instructions =
           [\<lparr>si_location = Some (LocConditionStatement (hd (can_statements (cast_primary_node ex_composite_ast)))),
             si_instruction = AbortIfNotEqual (DeprecatedKey 1) (NumberValue 5)\<rparr>]\<rparr>,
      cbr_additional_nodes = [\<lparr>cn_name = ''b'', cn_instructions = []\<rparr>]\<rparr>"

lemma ex_composite_compiles:
  "compile_bind_composite (\<lambda>_ xs. xs) ex_composite_source [] True True = Ok ex_composite_compiled"
  by (simp add: compile_bind_composite_def ex_composite_parses no_libraries ex_composite_compiled_def
      ex_composite_ast_def compile_node_def compile_statements_def compile_statements_in_def compile_block_def
      new_compiler_def lookup_identifier_def ex_table_protocol push_inst_def ci_to_string_def)

lemma ex_composite_bytes:
  obtains bytes where "encode_to_bytecode (CompositeBind ex_composite_compiled) = Ok bytes" and "length bytes < 2 ^ 32"
  by (simp add: ex_composite_compiled_def encode_composite_to_bytecode_def append_composite_node_def
      encode_instructions_def to_instruction_info_def append_value_def append_value_comparison_def
      new_symbol_table_encoder_def get_key_def add_symbol_def checked_inc_def MAX_STRING_LENGTH_def
      SYMB_TBL_START_KEY_def Let_def)

lemma ex_composite_good: "\<forall>s\<in>rule_strings ex_composite_compiled. good_string s"
proof -
  have "good_string ''dev''" "good_string ''a''" "good_string ''b''"
    by code_simp+
  then show ?thesis
    by (simp add: rule_strings_def node_strings_def ex_composite_compiled_def)
qed

theorem compile_composite_match_correct_witness:
  "\<exists>bytes d. encode_to_bytecode (CompositeBind ex_composite_compiled) = Ok bytes
     \<and> new_DecodedRules bytes = Ok (Composite d)
     \<and> dcr_symbol_table d (dcr_device_name_id d) = Some ''dev''
     \<and> node_decides get_deprecated_symbols (dcr_symbol_table d) (cast_primary_node ex_composite_ast) (dcr_primary_node d)
     \<and> length (dcr_additional_nodes d) = 1"
proof -
  obtain bytes where bytes: "encode_to_bytecode (CompositeBind ex_composite_compiled) = Ok bytes" "length bytes < 2 ^ 32"
    by (rule ex_composite_bytes)
  from compile_composite_match_correct [OF ex_composite_compiles bytes ex_composite_good] bytes(1) show ?thesis
    by (auto simp: ex_composite_parses no_libraries list_all2_conv_all_nth)
      (simp_all add: ex_composite_ast_def no_libraries ci_to_string_def)
qed

end
