(* ===== verification/Offline_Debugger.thy ===== *)
theory Offline_Debugger
  imports Bind_Grammar Bind_Compiler Rust_Format
begin

text \<open>
  The debugger that runs before encoding (\<open>debugger/offline_debugger.rs\<close>): it executes symbolic
  instructions on a device that is described in a file (\<open>debugger/device_specification.rs\<close>), and
  explains the outcome with the identifiers of the source. Printed lines are collected in a list.
\<close>

section \<open>Device specifications (\<open>debugger/device_specification.rs\<close>)\<close>

record Property =
  prop_key :: CompoundIdentifier
  prop_value :: Value

record DeviceSpecification =
  spec_properties :: "Property list"

definition new_specification :: DeviceSpecification where
  "new_specification = \<lparr>spec_properties = []\<rparr>"

definition property_p :: "Property bind_parser" where
  "property_p i =
     and_then
       (separated_pair (ws compound_identifier) (ws (keyword_tag ''='' PeAssignment)) condition_value i)
       (\<lambda>(i, key, v). Ok (i, \<lparr>prop_key = key, prop_value = v\<rparr>))"

definition device_specification :: "DeviceSpecification bind_parser" where
  "device_specification i =
     and_then (many_until_eof (ws property_p) i) (\<lambda>(i, properties). Ok (i, \<lparr>spec_properties = properties\<rparr>))"

definition specification_from_str :: "string \<Rightarrow> (DeviceSpecification, BindParserError) result" where
  "specification_from_str input = parse_outcome (device_specification (new_span input))"

definition property_from_pair ::
    "NomSpan \<Rightarrow> NomSpan \<Rightarrow> ((NomSpan \<times> NomSpan) \<times> Property, BindParserError NomErr) result" where
  "property_from_pair key v =
     and_then (compound_identifier key) (\<lambda>(key_remaining, key).
       if ns_fragment key_remaining \<noteq> [] then Err (NomError (PeEof (ns_fragment key_remaining)))
       else
         and_then (condition_value v) (\<lambda>(value_remaining, v).
           if ns_fragment value_remaining \<noteq> [] then Err (NomError (PeEof (ns_fragment value_remaining)))
           else Ok ((key_remaining, value_remaining), \<lparr>prop_key = key, prop_value = v\<rparr>)))"

definition add_property ::
    "string \<Rightarrow> string \<Rightarrow> DeviceSpecification \<Rightarrow> (DeviceSpecification, BindParserError) result" where
  "add_property key v spec =
     (case property_from_pair (new_span key) (new_span v) of
        Ok (_, property) \<Rightarrow> Ok (spec\<lparr>spec_properties := spec_properties spec @ [property]\<rparr>)
      | Err (NomError e) \<Rightarrow> Err e
      | Err (NomFailure e) \<Rightarrow> Err e
      | Err NomIncomplete \<Rightarrow> Panic
      | Panic \<Rightarrow> Panic)"

section \<open>The debugger\<close>

datatype OdError =
    OdParserError BindParserError
  | OdCompilerError CompilerError
  | OdDuplicateKey CompoundIdentifier
  | OdMissingLabel
  | OdNoOutcome
  | OdIncorrectAstLocation
  | OdInvalidAstLocation
  | OdUnknownKey CompoundIdentifier
  | OdInvalidValueSymbol Symbol

record DeviceValue =
  dv_symbol :: "Symbol option"
  dv_identifier :: "CompoundIdentifier option"

type_synonym OdPropertyMap = "Symbol \<rightharpoonup> DeviceValue"

datatype OdOutput =
    OoConditionStatement Statement bool
  | OoFalseStatement Statement
  | OoAcceptStatementSuccess CompoundIdentifier Value Symbol Span
  | OoAcceptStatementFailure CompoundIdentifier Span
  | OoIfCondition Condition bool

record OfflineDebugger =
  od_properties :: OdPropertyMap
  od_symbol_table :: SymbolTable
  od_instructions :: "SymbolicInstructionInfo list"
  od_output :: "OdOutput list"

fun device_value_of :: "SymbolTable \<Rightarrow> Value \<Rightarrow> DeviceValue" where
  "device_value_of symbol_table (NumericLiteral n) = \<lparr>dv_symbol = Some (NumberValue n), dv_identifier = None\<rparr>"
| "device_value_of symbol_table (StringLiteral s) = \<lparr>dv_symbol = Some (StringValue s), dv_identifier = None\<rparr>"
| "device_value_of symbol_table (BoolLiteral b) = \<lparr>dv_symbol = Some (BoolValue b), dv_identifier = None\<rparr>"
| "device_value_of symbol_table (Identifier i) =
     (case symbol_table i of
        Some s \<Rightarrow> \<lparr>dv_symbol = Some s, dv_identifier = Some i\<rparr>
      | None \<Rightarrow> \<lparr>dv_symbol = None, dv_identifier = Some i\<rparr>)"

fun od_insert_properties ::
    "SymbolTable \<Rightarrow> Property list \<Rightarrow> CompoundIdentifier set \<Rightarrow> OdPropertyMap \<Rightarrow> (OdPropertyMap, OdError) result" where
  "od_insert_properties symbol_table [] keys_seen property_map = Ok property_map"
| "od_insert_properties symbol_table (p # ps) keys_seen property_map =
     (if prop_key p \<in> keys_seen then Err (OdDuplicateKey (prop_key p))
      else
        od_insert_properties symbol_table ps (insert (prop_key p) keys_seen)
          (case symbol_table (prop_key p) of
             Some key_symbol \<Rightarrow> property_map(key_symbol \<mapsto> device_value_of symbol_table (prop_value p))
           | None \<Rightarrow> property_map))"

definition od_construct_property_map :: "Property list \<Rightarrow> SymbolTable \<Rightarrow> (OdPropertyMap, OdError) result" where
  "od_construct_property_map properties symbol_table = od_insert_properties symbol_table properties {} Map.empty"

definition new_offline_debugger ::
    "Property list \<Rightarrow> SymbolTable \<Rightarrow> SymbolicInstructionInfo list \<Rightarrow> (OfflineDebugger, OdError) result" where
  "new_offline_debugger properties symbol_table insts =
     and_then (od_construct_property_map properties symbol_table) (\<lambda>device_properties.
       Ok \<lparr>od_properties = device_properties, od_symbol_table = symbol_table, od_instructions = insts, od_output = []\<rparr>)"

section \<open>Execution\<close>

definition device_property_matches :: "OfflineDebugger \<Rightarrow> Symbol \<Rightarrow> Symbol \<Rightarrow> bool" where
  "device_property_matches d lhs rhs =
     (case od_properties d lhs of
        Some v \<Rightarrow> (case dv_symbol v of Some symb \<Rightarrow> symb = rhs | None \<Rightarrow> False)
      | None \<Rightarrow> False)"

definition od_push :: "OdOutput \<Rightarrow> OfflineDebugger \<Rightarrow> OfflineDebugger" where
  "od_push x d = d\<lparr>od_output := od_output d @ [x]\<rparr>"

definition output_abort_if :: "AstLocation option \<Rightarrow> bool \<Rightarrow> OfflineDebugger \<Rightarrow> (OfflineDebugger, OdError) result" where
  "output_abort_if location aborts d =
     (case location of
        Some (LocConditionStatement stmt) \<Rightarrow> Ok (od_push (OoConditionStatement stmt (\<not> aborts)) d)
      | _ \<Rightarrow> Err OdIncorrectAstLocation)"

definition output_jump_if_equal ::
    "AstLocation option \<Rightarrow> Symbol \<Rightarrow> bool \<Rightarrow> OfflineDebugger \<Rightarrow> (OfflineDebugger, OdError) result" where
  "output_jump_if_equal location rhs jump_succeeds d =
     (case location of
        Some (LocAcceptStatementValue identifier v span) \<Rightarrow>
          Ok (if jump_succeeds then od_push (OoAcceptStatementSuccess identifier v rhs span) d else d)
      | Some (LocIfCondition condition) \<Rightarrow> Ok (od_push (OoIfCondition condition (\<not> jump_succeeds)) d)
      | _ \<Rightarrow> Err OdIncorrectAstLocation)"

definition output_jump_if_not_equal ::
    "AstLocation option \<Rightarrow> bool \<Rightarrow> OfflineDebugger \<Rightarrow> (OfflineDebugger, OdError) result" where
  "output_jump_if_not_equal location jump_succeeds d =
     (case location of
        Some (LocIfCondition condition) \<Rightarrow> Ok (od_push (OoIfCondition condition (\<not> jump_succeeds)) d)
      | _ \<Rightarrow> Err OdIncorrectAstLocation)"

definition output_unconditional_abort :: "AstLocation option \<Rightarrow> OfflineDebugger \<Rightarrow> (OfflineDebugger, OdError) result" where
  "output_unconditional_abort location d =
     (case location of
        Some (LocFalseStatement stmt) \<Rightarrow> Ok (od_push (OoFalseStatement stmt) d)
      | Some (LocAcceptStatementFailure identifier _ span) \<Rightarrow> Ok (od_push (OoAcceptStatementFailure identifier span) d)
      | _ \<Rightarrow> Err OdIncorrectAstLocation)"

fun od_skip_to_label :: "u32 \<Rightarrow> SymbolicInstructionInfo list \<Rightarrow> (SymbolicInstructionInfo list, OdError) result" where
  "od_skip_to_label label [] = Err OdMissingLabel"
| "od_skip_to_label label (i # is) = (if si_instruction i = SymLabel label then Ok is else od_skip_to_label label is)"

lemma length_od_skip_to_label [termination_simp]: "od_skip_to_label l is = Ok js \<Longrightarrow> length js < length is"
  by (induction l "is" rule: od_skip_to_label.induct) (auto split: if_splits)

function od_evaluate_bind_rules ::
    "SymbolicInstructionInfo list \<Rightarrow> OfflineDebugger \<Rightarrow> (bool \<times> OfflineDebugger, OdError) result" where
  "od_evaluate_bind_rules [] d = Err OdNoOutcome"
| "od_evaluate_bind_rules (i # is) d =
     (case si_instruction i of
        AbortIfEqual lhs rhs \<Rightarrow>
          let aborts = device_property_matches d lhs rhs in
          and_then (output_abort_if (si_location i) aborts d) (\<lambda>d.
            if aborts then Ok (False, d) else od_evaluate_bind_rules is d)
      | AbortIfNotEqual lhs rhs \<Rightarrow>
          let aborts = \<not> device_property_matches d lhs rhs in
          and_then (output_abort_if (si_location i) aborts d) (\<lambda>d.
            if aborts then Ok (False, d) else od_evaluate_bind_rules is d)
      | SymLabel _ \<Rightarrow> od_evaluate_bind_rules is d
      | UnconditionalJump label \<Rightarrow>
          and_then (od_skip_to_label label is) (\<lambda>rest. od_evaluate_bind_rules rest d)
      | JumpIfEqual lhs rhs label \<Rightarrow>
          let jump_succeeds = device_property_matches d lhs rhs in
          and_then (output_jump_if_equal (si_location i) rhs jump_succeeds d) (\<lambda>d.
            if jump_succeeds
            then and_then (od_skip_to_label label is) (\<lambda>rest. od_evaluate_bind_rules rest d)
            else od_evaluate_bind_rules is d)
      | JumpIfNotEqual lhs rhs label \<Rightarrow>
          let jump_succeeds = \<not> device_property_matches d lhs rhs in
          and_then (output_jump_if_not_equal (si_location i) jump_succeeds d) (\<lambda>d.
            if jump_succeeds
            then and_then (od_skip_to_label label is) (\<lambda>rest. od_evaluate_bind_rules rest d)
            else od_evaluate_bind_rules is d)
      | UnconditionalAbort \<Rightarrow>
          and_then (output_unconditional_abort (si_location i) d) (\<lambda>d. Ok (False, d))
      | UnconditionalBind \<Rightarrow> Ok (True, d))"
  by pat_completeness auto
termination
  by (relation "measure (\<lambda>(is, _). length is)") (auto dest: length_od_skip_to_label)

section \<open>Explanations\<close>

fun od_condition_needs_actual_value :: "bool \<Rightarrow> ConditionOp \<Rightarrow> bool" where
  "od_condition_needs_actual_value success Equals = (\<not> success)"
| "od_condition_needs_actual_value success NotEquals = success"

definition double_quoted :: "string \<Rightarrow> string" where
  "double_quoted s = [CHR 0x22] @ s @ [CHR 0x22]"

definition back_quoted :: "string \<Rightarrow> string" where
  "back_quoted s = ''`'' @ s @ ''`''"

fun value_symbol_string :: "Symbol \<Rightarrow> (string, OdError) result" where
  "value_symbol_string (DeprecatedKey k) = Err (OdInvalidValueSymbol (DeprecatedKey k))"
| "value_symbol_string (Key k t) = Err (OdInvalidValueSymbol (Key k t))"
| "value_symbol_string (NumberValue n) = Ok (''0x'' @ digits 16 (uint n))"
| "value_symbol_string (StringValue s) = Ok (double_quoted s)"
| "value_symbol_string (BoolValue b) = Ok (if b then ''true'' else ''false'')"
| "value_symbol_string (EnumValue s) = Ok (double_quoted s)"

definition od_actual_value_string :: "OfflineDebugger \<Rightarrow> CompoundIdentifier \<Rightarrow> (string, OdError) result" where
  "od_actual_value_string d key_identifier =
     and_then (ok_or (od_symbol_table d key_identifier) (OdUnknownKey key_identifier)) (\<lambda>key_symbol.
       let key = back_quoted (ci_to_string key_identifier);
           v = (case od_properties d key_symbol of Some v \<Rightarrow> v | None \<Rightarrow> \<lparr>dv_symbol = None, dv_identifier = None\<rparr>)
       in
         (case (dv_symbol v, dv_identifier v) of
            (Some symbol, Some identifier) \<Rightarrow>
              and_then (value_symbol_string symbol) (\<lambda>s.
                Ok (''Actual value of '' @ key @ '' was '' @ back_quoted (ci_to_string identifier) @ '' ['' @ s @ ''].''))
          | (Some symbol, None) \<Rightarrow>
              and_then (value_symbol_string symbol) (\<lambda>s.
                Ok (''Actual value of '' @ key @ '' was literal '' @ s @ ''.''))
          | (None, Some identifier) \<Rightarrow>
              Ok (''Actual value of '' @ key @ '' was '' @ back_quoted (ci_to_string identifier) @ ''.'')
          | (None, None) \<Rightarrow> Ok (''Device had no value for '' @ key @ ''.'')))"

definition outcome_line :: "string \<Rightarrow> bool \<Rightarrow> Span \<Rightarrow> string" where
  "outcome_line what success span =
     ''Line '' @ fmt_dec (sp_line span) @ '': '' @ what @ '' '' @ (if success then ''succeeded'' else ''failed'') @ '': ''
     @ sp_fragment span"

definition od_log_outcome ::
    "OfflineDebugger \<Rightarrow> string \<Rightarrow> bool \<Rightarrow> Span \<Rightarrow> Condition \<Rightarrow> (string list, OdError) result" where
  "od_log_outcome d what success span condition =
     and_then
       (if od_condition_needs_actual_value success (cond_op condition)
        then and_then (od_actual_value_string d (cond_lhs condition)) (\<lambda>s. Ok [CHR 0x09 # s])
        else Ok [])
       (\<lambda>actual. Ok (outcome_line what success span # actual))"

fun od_log_condition_statement :: "OfflineDebugger \<Rightarrow> Statement \<Rightarrow> bool \<Rightarrow> (string list, OdError) result" where
  "od_log_condition_statement d (ConditionStatement span condition) success =
     od_log_outcome d ''Condition statement'' success span condition"
| "od_log_condition_statement d _ success = Err OdInvalidAstLocation"

fun log_abort_statement :: "Statement \<Rightarrow> string list" where
  "log_abort_statement (FalseStatement span) = [''Line '' @ fmt_dec (sp_line span) @ '': Abort statement reached.'']"
| "log_abort_statement _ = []"

definition od_log_accept_statement_success ::
    "OfflineDebugger \<Rightarrow> CompoundIdentifier \<Rightarrow> Value \<Rightarrow> Symbol \<Rightarrow> Span \<Rightarrow> (string list, OdError) result" where
  "od_log_accept_statement_success d identifier v value_symb span =
     (let value_identifier_prog = (case v of Identifier i \<Rightarrow> Some i | _ \<Rightarrow> None) in
      and_then (ok_or (od_symbol_table d identifier) (OdUnknownKey identifier)) (\<lambda>key_symbol.
      and_then (unwrap (od_properties d key_symbol)) (\<lambda>device_value.
      and_then (value_symbol_string value_symb) (\<lambda>value_literal.
        let value_string =
          (case (value_identifier_prog, dv_identifier device_value) of
             (Some identifier_prog, Some identifier_value) \<Rightarrow>
               if identifier_prog = identifier_value
               then back_quoted (ci_to_string identifier_prog) @ '' ['' @ value_literal @ '']''
               else back_quoted (ci_to_string identifier_prog) @ '' ('' @ back_quoted (ci_to_string identifier_value)
                    @ '') ['' @ value_literal @ '']''
           | (Some identifier_prog, None) \<Rightarrow> back_quoted (ci_to_string identifier_prog) @ '' ['' @ value_literal @ '']''
           | (None, Some identifier_value) \<Rightarrow> back_quoted (ci_to_string identifier_value) @ '' ['' @ value_literal @ '']''
           | (None, None) \<Rightarrow> value_literal)
        in
          Ok [''Line '' @ fmt_dec (sp_line span) @ '': Accept statement succeeded.'' @ [CHR 0x0A, CHR 0x09]
              @ ''Value of '' @ back_quoted (ci_to_string identifier) @ '' was '' @ value_string @ ''.'']))))"

definition od_log_accept_statement_failure ::
    "OfflineDebugger \<Rightarrow> CompoundIdentifier \<Rightarrow> Span \<Rightarrow> (string list, OdError) result" where
  "od_log_accept_statement_failure d identifier span =
     and_then (od_actual_value_string d identifier) (\<lambda>s.
       Ok [''Line '' @ fmt_dec (sp_line span) @ '': Accept statement failed.'' @ [CHR 0x0A, CHR 0x09] @ s])"

definition od_log_if_condition :: "OfflineDebugger \<Rightarrow> Condition \<Rightarrow> bool \<Rightarrow> (string list, OdError) result" where
  "od_log_if_condition d condition success =
     od_log_outcome d ''If statement condition'' success (cond_span condition) condition"

fun od_log_one :: "OfflineDebugger \<Rightarrow> OdOutput \<Rightarrow> (string list, OdError) result" where
  "od_log_one d (OoConditionStatement stmt success) = od_log_condition_statement d stmt success"
| "od_log_one d (OoFalseStatement stmt) = Ok (log_abort_statement stmt)"
| "od_log_one d (OoAcceptStatementSuccess identifier v value_symb span) =
     od_log_accept_statement_success d identifier v value_symb span"
| "od_log_one d (OoAcceptStatementFailure identifier span) = od_log_accept_statement_failure d identifier span"
| "od_log_one d (OoIfCondition condition success) = od_log_if_condition d condition success"

definition od_log_output :: "OfflineDebugger \<Rightarrow> (string list, OdError) result" where
  "od_log_output d = and_then (collect_results (od_log_one d) (od_output d)) (\<lambda>lines. Ok (concat lines))"

section \<open>Entry points\<close>

text \<open>The decision, with the lines printed on the way.\<close>

definition debug_from_device_specification ::
    "SymbolTable \<Rightarrow> SymbolicInstructionInfo list \<Rightarrow> DeviceSpecification \<Rightarrow> (bool \<times> string list, OdError) result" where
  "debug_from_device_specification symbol_table insts spec =
     and_then (new_offline_debugger (spec_properties spec) symbol_table insts) (\<lambda>d.
     and_then (od_evaluate_bind_rules (od_instructions d) d) (\<lambda>(binds, d).
     and_then (od_log_output d) (\<lambda>lines. Ok (binds, lines))))"

definition debug_from_str :: "BindRules \<Rightarrow> string \<Rightarrow> (bool \<times> string list, OdError) result" where
  "debug_from_str bind_rules device_file =
     and_then (map_err OdParserError (specification_from_str device_file))
       (debug_from_device_specification (br_symbol_table bind_rules) (br_instructions bind_rules))"

end
