(* ===== verification/Offline_Debugger_Sim.thy ===== *)
theory Offline_Debugger_Sim
  imports Offline_Debugger Symbolic_Machine Compiler_Total
begin

text \<open>The offline debugger decides what the rules mean on the device of the specification.\<close>

section \<open>Execution\<close>

definition spec_equal :: "OdPropertyMap \<Rightarrow> OdError comparison" where
  "spec_equal m l r =
     Ok (case m l of Some v \<Rightarrow> (case dv_symbol v of Some s \<Rightarrow> s = r | None \<Rightarrow> False) | None \<Rightarrow> False)"

lemma spec_equal_matches: "od_properties d = m \<Longrightarrow> spec_equal m l r = Ok (device_property_matches d l r)"
  by (simp add: spec_equal_def device_property_matches_def)

lemma od_push_properties [simp]: "od_properties (od_push x d) = od_properties d"
  by (simp add: od_push_def)

definition od_run :: "OfflineDebugger \<Rightarrow> SymbolicInstructionInfo list \<Rightarrow> (bool, OdError) result" where
  "od_run d is = and_then (od_evaluate_bind_rules (is @ [bind_inst]) d) (\<lambda>(b, _). Ok b)"

definition od_code :: "SymbolicInstructionInfo list \<Rightarrow> bool" where
  "od_code is \<longleftrightarrow> list_all well_located is \<and> jumps_forward (sym_code is)"

lemma od_code_Cons:
  assumes "od_code (i # is)"
  shows "well_located i" and "od_code is"
    and "si_instruction i = UnconditionalJump n \<Longrightarrow> n \<in> set (labels_of (sym_code is))"
    and "si_instruction i = JumpIfEqual l r n \<Longrightarrow> n \<in> set (labels_of (sym_code is))"
    and "si_instruction i = JumpIfNotEqual l r n \<Longrightarrow> n \<in> set (labels_of (sym_code is))"
  using assms by (cases "si_instruction i"; auto simp: od_code_def)+

lemma od_skip_to_label_code:
  "skip_label si_instruction n is = Some js \<Longrightarrow> od_skip_to_label n (is @ [bind_inst]) = Ok (js @ [bind_inst])"
  by (induction "is") (auto split: if_splits)

lemma od_jump:
  assumes "n \<in> set (labels_of (sym_code is))"
  obtains js where "skip_label si_instruction n is = Some js" "od_skip_to_label n (is @ [bind_inst]) = Ok (js @ [bind_inst])"
  using skip_label_exists [OF assms] od_skip_to_label_code by blast

lemma output_located:
  assumes "well_located i"
  shows "si_instruction i = AbortIfEqual l r \<or> si_instruction i = AbortIfNotEqual l r \<Longrightarrow>
      \<exists>d'. output_abort_if (si_location i) b d = Ok d' \<and> od_properties d' = od_properties d"
    and "si_instruction i = JumpIfEqual l r n \<Longrightarrow>
      \<exists>d'. output_jump_if_equal (si_location i) s b d = Ok d' \<and> od_properties d' = od_properties d"
    and "si_instruction i = JumpIfNotEqual l r n \<Longrightarrow>
      \<exists>d'. output_jump_if_not_equal (si_location i) b d = Ok d' \<and> od_properties d' = od_properties d"
    and "si_instruction i = UnconditionalAbort \<Longrightarrow>
      \<exists>d'. output_unconditional_abort (si_location i) d = Ok d'"
  using assms
  by (auto simp: output_abort_if_def output_jump_if_equal_def output_jump_if_not_equal_def output_unconditional_abort_def)

interpretation offline: located_machine "si_instruction :: SymbolicInstructionInfo \<Rightarrow> _" "spec_equal m" od_run od_code
  "\<lambda>d. od_properties d = m" for m
proof (unfold_locales, goal_cases)
  case (3 d i "is" l r)
  obtain d' where "output_abort_if (si_location i) (device_property_matches d l r) d = Ok d'" "od_properties d' = m"
    using output_located(1) [OF od_code_Cons(1) [OF 3(2)], of l r] 3 by metis
  then show ?case
    using 3 by (intro exI [of _ d']) (simp add: od_run_def spec_equal_matches [OF 3(1)] Let_def)
next
  case (4 d i "is" l r)
  obtain d' where "output_abort_if (si_location i) (\<not> device_property_matches d l r) d = Ok d'" "od_properties d' = m"
    using output_located(1) [OF od_code_Cons(1) [OF 4(2)], of l r] 4 by metis
  then show ?case
    using 4 by (intro exI [of _ d']) (simp add: od_run_def spec_equal_matches [OF 4(1)] Let_def)
next
  case (6 d i "is" n)
  obtain js where "skip_label si_instruction n is = Some js" "od_skip_to_label n (is @ [bind_inst]) = Ok (js @ [bind_inst])"
    by (rule od_jump [OF od_code_Cons(3) [OF 6(2,3)]])
  then show ?case
    using 6 by (intro exI [of _ js] exI [of _ d]) (simp add: od_run_def)
next
  case (7 d i "is" l r n)
  obtain js where js: "skip_label si_instruction n is = Some js" "od_skip_to_label n (is @ [bind_inst]) = Ok (js @ [bind_inst])"
    by (rule od_jump [OF od_code_Cons(4) [OF 7(2,3)]])
  obtain d' where "output_jump_if_equal (si_location i) r (device_property_matches d l r) d = Ok d'" "od_properties d' = m"
    using output_located(2) [OF od_code_Cons(1) [OF 7(2)] 7(3)] 7(1) by metis
  then show ?case
    using 7 js by (intro exI [of _ js] exI [of _ d']) (simp add: od_run_def spec_equal_matches [OF 7(1)] Let_def)
next
  case (8 d i "is" l r n)
  obtain js where js: "skip_label si_instruction n is = Some js" "od_skip_to_label n (is @ [bind_inst]) = Ok (js @ [bind_inst])"
    by (rule od_jump [OF od_code_Cons(5) [OF 8(2,3)]])
  obtain d' where "output_jump_if_not_equal (si_location i) (\<not> device_property_matches d l r) d = Ok d'" "od_properties d' = m"
    using output_located(3) [OF od_code_Cons(1) [OF 8(2)] 8(3)] 8(1) by metis
  then show ?case
    using 8 js by (intro exI [of _ js] exI [of _ d']) (simp add: od_run_def spec_equal_matches [OF 8(1)] Let_def)
next
  case (9 d i "is")
  then show ?case
    using output_located(4) [OF od_code_Cons(1) [OF 9(2)] 9(3), of d] by (auto simp: od_run_def)
qed (auto simp: od_run_def bind_inst_def dest: od_code_Cons(2))

section \<open>Locations resolve\<close>

text \<open>The identifiers in the location of an instruction name the key that the instruction compares.\<close>

definition resolved_in :: "SymbolTable \<Rightarrow> SymbolicInstructionInfo \<Rightarrow> bool" where
  "resolved_in st i =
     (case si_location i of
        Some (LocConditionStatement s) \<Rightarrow> \<exists>sp c. s = ConditionStatement sp c \<and> st (cond_lhs c) \<noteq> None
      | Some (LocAcceptStatementValue x v sp) \<Rightarrow>
          (\<exists>l r n. si_instruction i = JumpIfEqual l r n \<and> st x = Some l)
      | Some (LocAcceptStatementFailure x s sp) \<Rightarrow> st x \<noteq> None
      | Some (LocIfCondition c) \<Rightarrow> st (cond_lhs c) \<noteq> None
      | _ \<Rightarrow> True)"

definition emits_resolved :: "SymbolTable \<Rightarrow> (Compiler, CompilerError) result \<Rightarrow> Compiler \<Rightarrow> bool" where
  "emits_resolved st r c \<longleftrightarrow>
     (\<forall>c'. r = Ok c' \<longrightarrow> list_all (resolved_in st) (instructions c) \<longrightarrow> list_all (resolved_in st) (instructions c'))"

lemma emits_resolved_Ok: "emits_resolved st (Ok c) c"
  by (simp add: emits_resolved_def)

lemma emits_resolved_Err: "emits_resolved st (Err e) c"
  by (simp add: emits_resolved_def)

lemma emits_resolved_and_then:
  "emits_resolved st r c \<Longrightarrow> (\<And>c'. r = Ok c' \<Longrightarrow> emits_resolved st (f c') c') \<Longrightarrow> emits_resolved st (and_then r f) c"
  by (fastforce simp: emits_resolved_def result_simps)

lemma emits_resolved_lookup:
  "(\<And>l. st x = Some l \<Longrightarrow> emits_resolved st (f l) c) \<Longrightarrow> emits_resolved st (and_then (lookup_identifier st x) f) c"
  "(\<And>r. emits_resolved st (f r) c) \<Longrightarrow> emits_resolved st (and_then (lookup_value st v) f) c"
  by (auto simp: emits_resolved_def result_simps lookup_identifier_def)

lemma emits_resolved_label:
  "(\<And>l c1. get_unique_label c = Ok (l, c1) \<Longrightarrow> emits_resolved st (f (l, c1)) c1) \<Longrightarrow>
   emits_resolved st (and_then (get_unique_label c) f) c"
  by (fastforce simp: emits_resolved_def result_simps get_unique_label_def)

lemma emits_resolved_push:
  "resolved_in st \<lparr>si_location = loc, si_instruction = i\<rparr> \<Longrightarrow> emits_resolved st r (push_inst loc i c) = emits_resolved st r c"
  by (auto simp: emits_resolved_def push_inst_def)

lemma resolved_unlocated [simp]: "resolved_in st \<lparr>si_location = None, si_instruction = i\<rparr>"
  by (simp add: resolved_in_def)

lemmas emits_resolved_intros =
  emits_resolved_and_then emits_resolved_lookup emits_resolved_label emits_resolved_Err

lemma emits_resolved_pushed:
  "resolved_in st \<lparr>si_location = loc, si_instruction = i\<rparr> \<Longrightarrow> emits_resolved st (Ok (push_inst loc i c)) c"
  using emits_resolved_push [of st loc i "Ok (push_inst loc i c)" c] by (simp add: emits_resolved_Ok)

lemma accept_values_resolved:
  "st x = Some l \<Longrightarrow> emits_resolved st (compile_accept_values st x sp l lab vs c) c"
proof (induction vs arbitrary: c)
  case (Cons v vs)
  have "emits_resolved st (compile_accept_values st x sp l lab vs
      (push_inst (Some (LocAcceptStatementValue x v sp)) (JumpIfEqual l r lab) c)) c" for r
    using Cons.IH [of "push_inst (Some (LocAcceptStatementValue x v sp)) (JumpIfEqual l r lab) c"] Cons.prems
    by (simp add: emits_resolved_push resolved_in_def)
  then show ?case
    by (auto intro!: emits_resolved_lookup)
qed (simp add: emits_resolved_Ok)

lemma compile_resolved:
  "emits_resolved st (compile_block_loop st n ss c) c"
  "emits_resolved st (compile_if_blocks st fl bs c) c"
proof (induction st n ss c and st fl bs c rule: compile_block_loop_compile_if_blocks.induct)
  case (2 st n s rest c)
  show ?case
    unfolding compile_block_loop.simps(2)
  proof (rule emits_resolved_and_then, goal_cases)
    case 1
    show ?case
    proof (cases s)
      case (ConditionStatement sp cond)
      then show ?thesis
        by (auto intro!: emits_resolved_lookup emits_resolved_pushed simp: resolved_in_def)
    next
      case (Accept sp x vs)
      have "emits_resolved st (Ok (push_inst None (SymLabel lab) (push_inst (Some (LocAcceptStatementFailure x l sp)) UnconditionalAbort c))) c"
        if "st x = Some l" for lab l c
        using emits_resolved_pushed [of st None "SymLabel lab" "push_inst (Some (LocAcceptStatementFailure x l sp)) UnconditionalAbort c"] that
        by (simp add: emits_resolved_push resolved_in_def)
      with Accept show ?thesis
        by (auto intro!: emits_resolved_lookup emits_resolved_label emits_resolved_and_then accept_values_resolved)
    next
      case (IfStatement sp blocks els)
      with "2.IH"(1,2) show ?thesis
        by (auto intro!: emits_resolved_label emits_resolved_and_then emits_resolved_Err emits_resolved_pushed)
    qed (auto intro!: emits_resolved_Err emits_resolved_Ok emits_resolved_pushed simp: resolved_in_def)
  next
    case (2 c')
    then show ?case by (rule "2.IH"(3))
  qed
next
  case (4 st fl cond b bs c)
  let ?i = "\<lambda>l r lab. case cond_op cond of Equals \<Rightarrow> JumpIfNotEqual l r lab | NotEquals \<Rightarrow> JumpIfEqual l r lab"
  have "emits_resolved st (and_then (compile_block_loop st (length b) b (push_inst (Some (LocIfCondition cond)) (?i l r lab) c1)) (\<lambda>c.
       compile_if_blocks st fl bs (push_inst None (SymLabel lab) (push_inst None (UnconditionalJump fl) c)))) c1"
    if "lookup_identifier st (cond_lhs cond) = Ok l" "lookup_value st (cond_rhs cond) = Ok r"
      "get_unique_label c = Ok (lab, c1)" for l r lab c1
  proof (rule emits_resolved_and_then)
    have "resolved_in st \<lparr>si_location = Some (LocIfCondition cond), si_instruction = ?i l r lab\<rparr>"
      using that(1) by (simp add: resolved_in_def lookup_identifier_def result_simps)
    with "4.IH"(1) [OF that(1-3) refl]
    show "emits_resolved st (compile_block_loop st (length b) b (push_inst (Some (LocIfCondition cond)) (?i l r lab) c1)) c1"
      by (simp add: emits_resolved_push)
  qed (use "4.IH"(2) [OF that(1-3) refl] in \<open>simp add: emits_resolved_push\<close>)
  then show ?case
    by (cases "lookup_identifier st (cond_lhs cond)"; cases "lookup_value st (cond_rhs cond)")
      (auto intro!: emits_resolved_label emits_resolved_Err simp: lookup_identifier_def)
qed (simp_all add: emits_resolved_Ok)

lemma compile_statements_resolved:
  assumes "compile_statements ss st use_new = Ok is"
  shows "list_all (resolved_in st) is"
  using assms compile_resolved(1) [of st "length ss" ss new_compiler]
  by (auto simp: compile_statements_instructions compile_block_def emits_resolved_def new_compiler_def)

section \<open>Explanations\<close>

text \<open>An outcome that can be explained: its identifiers are keys, and an accepted key has a value.\<close>

fun explained :: "SymbolTable \<Rightarrow> OdPropertyMap \<Rightarrow> OdOutput \<Rightarrow> bool" where
  "explained st m (OoConditionStatement s _) = (\<exists>sp c. s = ConditionStatement sp c \<and> st (cond_lhs c) \<noteq> None)"
| "explained st m (OoFalseStatement _) = True"
| "explained st m (OoAcceptStatementSuccess x _ _ _) = (\<exists>k. st x = Some k \<and> m k \<noteq> None)"
| "explained st m (OoAcceptStatementFailure x _) = (st x \<noteq> None)"
| "explained st m (OoIfCondition c _) = (st (cond_lhs c) \<noteq> None)"

definition od_ready :: "SymbolTable \<Rightarrow> OdPropertyMap \<Rightarrow> OfflineDebugger \<Rightarrow> bool" where
  "od_ready st m d \<longleftrightarrow> od_symbol_table d = st \<and> od_properties d = m \<and> list_all (explained st m) (od_output d)"

lemma od_ready_push [simp]: "od_ready st m (od_push x d) \<longleftrightarrow> od_ready st m d \<and> explained st m x"
  by (auto simp: od_ready_def od_push_def)

lemma matches_present: "od_ready st m d \<Longrightarrow> device_property_matches d l r \<Longrightarrow> m l \<noteq> None"
  by (auto simp: od_ready_def device_property_matches_def split: option.splits)

lemma output_ready:
  assumes "resolved_in st i" and "od_ready st m d"
  shows "output_abort_if (si_location i) b d = Ok d' \<Longrightarrow> od_ready st m d'"
    and "output_jump_if_equal (si_location i) r b d = Ok d' \<Longrightarrow> si_instruction i = JumpIfEqual l r n \<Longrightarrow>
      (b \<Longrightarrow> device_property_matches d l r) \<Longrightarrow> od_ready st m d'"
    and "output_jump_if_not_equal (si_location i) b d = Ok d' \<Longrightarrow> od_ready st m d'"
    and "output_unconditional_abort (si_location i) d = Ok d' \<Longrightarrow> od_ready st m d'"
  using assms matches_present [OF assms(2), of l r]
  by (auto simp: output_abort_if_def output_jump_if_equal_def output_jump_if_not_equal_def output_unconditional_abort_def
      resolved_in_def split: option.splits AstLocation.splits if_splits)

lemma od_skip_to_label_suffix: "od_skip_to_label n is = Ok js \<Longrightarrow> list_all P is \<Longrightarrow> list_all P js \<and> length js < length is"
  by (induction n "is" rule: od_skip_to_label.induct) (auto split: if_splits)

lemma od_evaluate_ready:
  "od_evaluate_bind_rules is d = Ok (b, d') \<Longrightarrow> list_all (resolved_in st) is \<Longrightarrow> od_ready st m d \<Longrightarrow> od_ready st m d'"
proof (induction "is" arbitrary: d rule: length_induct)
  case (1 "is")
  show ?case
  proof (cases "is")
    case (Cons i js)
    have IH: "od_evaluate_bind_rules ks e = Ok (b, d') \<Longrightarrow> od_ready st m e \<Longrightarrow> length ks \<le> length js \<Longrightarrow>
        list_all (resolved_in st) ks \<Longrightarrow> od_ready st m d'" for ks e
      using 1(1) Cons by (auto simp: less_Suc_eq_le)
    have i: "resolved_in st i" "list_all (resolved_in st) js"
      using 1(3) Cons by simp_all
    note outs = output_ready [OF i(1) 1(4)] and suffix = od_skip_to_label_suffix [OF _ i(2)]
    show ?thesis
      using 1(2,4) i(2)
      unfolding Cons od_evaluate_bind_rules.simps
      by (cases "si_instruction i")
        (auto simp: Let_def result_simps split: if_splits
          dest!: suffix outs(1) outs(2) [rotated 1, rotated -1] outs(3,4) intro: IH)
  qed (use 1 in simp)
qed

lemma value_symbol_string_Err:
  "value_symbol_string s \<noteq> Panic" "value_symbol_string s = Err e \<Longrightarrow> e = OdInvalidValueSymbol s"
  by (cases s; simp)+

lemma od_actual_value_string_Err:
  assumes "od_symbol_table d x \<noteq> None"
  shows "od_actual_value_string d x \<noteq> Panic"
    and "od_actual_value_string d x = Err e \<Longrightarrow> \<exists>s. e = OdInvalidValueSymbol s"
  using assms value_symbol_string_Err
  by (auto simp: od_actual_value_string_def Let_def result_simps split: option.splits)

lemma od_log_outcome_Err:
  assumes "od_symbol_table d (cond_lhs c) \<noteq> None"
  shows "od_log_outcome d what b sp c \<noteq> Panic"
    and "od_log_outcome d what b sp c = Err e \<Longrightarrow> \<exists>s. e = OdInvalidValueSymbol s"
  using od_actual_value_string_Err [OF assms] by (auto simp: od_log_outcome_def result_simps split: if_splits)

lemma od_log_one_Err:
  assumes "od_ready st m d" and "explained st m x"
  shows "od_log_one d x \<noteq> Panic"
    and "od_log_one d x = Err e \<Longrightarrow> \<exists>s. e = OdInvalidValueSymbol s"
proof -
  have st: "od_symbol_table d = st" "od_properties d = m"
    using assms(1) by (simp_all add: od_ready_def)
  note defs = st od_log_accept_statement_failure_def od_log_if_condition_def od_log_accept_statement_success_def Let_def result_simps
  show "od_log_one d x \<noteq> Panic"
    using assms(2) od_log_outcome_Err(1) [of d] od_actual_value_string_Err(1) [of d] value_symbol_string_Err(1)
    by (cases x) (auto simp: defs)
  have out: "od_log_outcome d what b sp c = Err e \<Longrightarrow> st (cond_lhs c) = Some y \<Longrightarrow> \<exists>s. e = OdInvalidValueSymbol s"
    and act: "od_actual_value_string d i = Err e \<Longrightarrow> st i = Some y \<Longrightarrow> \<exists>s. e = OdInvalidValueSymbol s" for what b sp c y i
    using od_log_outcome_Err(2) [of d c] od_actual_value_string_Err(2) [of d i] st(1) by auto
  show "od_log_one d x = Err e \<Longrightarrow> \<exists>s. e = OdInvalidValueSymbol s"
    using assms(2) by (cases x) (auto simp: defs dest: out act value_symbol_string_Err(2))
qed

lemma od_log_output_Err:
  assumes "od_ready st m d"
  shows "od_log_output d \<noteq> Panic"
    and "od_log_output d = Err e \<Longrightarrow> \<exists>s. e = OdInvalidValueSymbol s"
proof -
  have "list_all (explained st m) xs \<Longrightarrow> collect_results (od_log_one d) xs \<noteq> Panic \<and>
    (\<forall>e. collect_results (od_log_one d) xs = Err e \<longrightarrow> (\<exists>s. e = OdInvalidValueSymbol s))" for xs
    by (induction xs) (auto simp: result_simps od_log_one_Err(1) [OF assms] dest: od_log_one_Err(2) [OF assms])
  moreover have "list_all (explained st m) (od_output d)"
    using assms by (simp add: od_ready_def)
  ultimately have "collect_results (od_log_one d) (od_output d) \<noteq> Panic \<and>
    (\<forall>e. collect_results (od_log_one d) (od_output d) = Err e \<longrightarrow> (\<exists>s. e = OdInvalidValueSymbol s))"
    by blast
  then show "od_log_output d \<noteq> Panic" and "od_log_output d = Err e \<Longrightarrow> \<exists>s. e = OdInvalidValueSymbol s"
    by (auto simp: od_log_output_def result_simps)
qed

section \<open>The debugger on compiled rules\<close>

lemma od_evaluate_compiled:
  assumes "compile_statements ss st False = Ok is" and "od_properties d = m"
  shows "and_then (od_evaluate_bind_rules is d) (\<lambda>(b, _). Ok b) = sem_block (spec_equal m) st ss"
proof -
  from assms(1) obtain c where c: "compile_block st ss new_compiler = Ok c" "is = instructions c @ [bind_inst]"
    by (auto simp: compile_statements_instructions bind_inst_def)
  with compile_block_sim [OF c(1), of "spec_equal m"] have "od_code (instructions c)"
    by (auto simp: od_code_def block_code_def)
  from offline.run_correct [OF this assms(2)] show ?thesis
    using compile_block_sim [OF c(1), of "spec_equal m"] by (simp add: od_run_def c(2) block_sim_run)
qed

lemma skip_to_forward:
  "n \<in> set (labels_of is) \<Longrightarrow> jumps_forward is \<Longrightarrow> \<exists>js. skip_to n is = Some js \<and> jumps_forward js \<and> length js < length is"
proof (induction "is")
  case (Cons i "is")
  then show ?case by (cases i) (auto intro: less_SucI)
qed simp

lemma run_symbolic_total: "jumps_forward is \<Longrightarrow> \<exists>b. run_symbolic (\<lambda>l r. Ok (g l r) :: (bool, 'e) result) is = Ok b"
proof (induction "is" rule: length_induct)
  case (1 "is")
  show ?case
  proof (cases "is")
    case (Cons i js)
    have IH: "jumps_forward ks \<Longrightarrow> length ks \<le> length js \<Longrightarrow> \<exists>b. run_symbolic (\<lambda>l r. Ok (g l r) :: (bool, 'e) result) ks = Ok b" for ks
      using 1(1) Cons by (auto simp: less_Suc_eq_le)
    have jump: "\<exists>ks. skip_to n js = Some ks \<and> (\<exists>b. run_symbolic (\<lambda>l r. Ok (g l r) :: (bool, 'e) result) ks = Ok b)"
      if "n \<in> set (labels_of js)" "jumps_forward js" for n
      using skip_to_forward [OF that] IH by fastforce
    show ?thesis
      using 1(2) IH [of js] unfolding Cons by (cases i) (auto dest!: jump)
  qed auto
qed

lemma spec_sem_total:
  assumes "compile_statements ss st False = Ok is"
  shows "\<exists>b. sem_block (spec_equal m) st ss = Ok b"
proof -
  from assms obtain c where c: "compile_block st ss new_compiler = Ok c"
    by (auto simp: compile_statements_instructions)
  from compile_block_sim [OF c, of "spec_equal m"] have
    "run_symbolic (spec_equal m) (sym_code (instructions c)) = sem_block (spec_equal m) st ss" "jumps_forward (sym_code (instructions c))"
    by (simp_all add: block_sim_run block_code_def)
  with run_symbolic_total show ?thesis
    unfolding spec_equal_def [abs_def] by metis
qed

lemma offline_debugger_decides:
  assumes "compile_statements ss st False = Ok is"
    and "od_construct_property_map (spec_properties spec) st = Ok m"
  shows "case debug_from_device_specification st is spec of
      Ok (binds, _) \<Rightarrow> sem_block (spec_equal m) st ss = Ok binds
    | Err e \<Rightarrow> (\<exists>s. e = OdInvalidValueSymbol s)
    | Panic \<Rightarrow> False"
proof -
  let ?d = "\<lparr>od_properties = m, od_symbol_table = st, od_instructions = is, od_output = []\<rparr>"
  let ?r = "od_evaluate_bind_rules is ?d"
  have sem: "and_then ?r (\<lambda>(b, _). Ok b) = sem_block (spec_equal m) st ss"
    by (rule od_evaluate_compiled [OF assms(1)]) simp
  have "debug_from_device_specification st is spec =
      and_then ?r (\<lambda>(b, d). and_then (od_log_output d) (\<lambda>lines. Ok (b, lines)))"
    by (simp add: debug_from_device_specification_def new_offline_debugger_def assms(2))
  moreover have "od_ready st m d" if "?r = Ok (b, d)" for b d
    by (rule od_evaluate_ready [OF that compile_statements_resolved [OF assms(1)]]) (simp add: od_ready_def)
  ultimately show ?thesis
    using sem spec_sem_total [OF assms(1), of m] od_log_output_Err
    by (cases ?r) (auto simp: result_simps split: result.split)
qed

text \<open>
  C12. The offline debugger. On the instructions compiled for it and a device specification without
  duplicate keys, the debugger decides what the statements mean on that device. It can only fail
  where a key stands as a value that it would print. It does not panic: in particular an accepted
  key always has a value on the device.
\<close>

theorem offline_debugger_correct:
  assumes "compile_statements ss st False = Ok is"
    and "od_construct_property_map (spec_properties spec) st = Ok m"
  shows "case debug_from_device_specification st is spec of
      Ok (binds, _) \<Rightarrow> sem_block (spec_equal m) st ss = Ok binds
    | Err e \<Rightarrow> (\<exists>s. e = OdInvalidValueSymbol s)
    | Panic \<Rightarrow> False"
  by (rule offline_debugger_decides [OF assms])

definition ex_specification :: DeviceSpecification where
  "ex_specification = \<lparr>spec_properties = [\<lparr>prop_key = ex_key, prop_value = NumericLiteral 7\<rparr>]\<rparr>"

theorem offline_debugger_correct_witness:
  "compile_statements ex_block ex_table False = Ok ex_code \<and>
   (case debug_from_device_specification ex_table ex_code ex_specification of
      Ok (binds, _) \<Rightarrow> binds
    | Err e \<Rightarrow> (\<exists>s. e = OdInvalidValueSymbol s)
    | Panic \<Rightarrow> False)"
proof
  let ?m = "[Key ''k'' VtNumber \<mapsto> \<lparr>dv_symbol = Some (NumberValue 7), dv_identifier = None\<rparr>]"
  show ok: "compile_statements ex_block ex_table False = Ok ex_code"
    by (rule ex_block_compiles)
  have map: "od_construct_property_map (spec_properties ex_specification) ex_table = Ok ?m"
    by (simp add: od_construct_property_map_def ex_specification_def ex_table_def ex_key_def)
  have "sem_block (spec_equal ?m) ex_table ex_block = Ok True"
    by (simp add: ex_block_def ex_table_def ex_condition_def sem_condition_def sem_equal_def value_symbol_def
        ex_key_def spec_equal_def)
  with offline_debugger_correct [OF ok map]
  show "case debug_from_device_specification ex_table ex_code ex_specification of
      Ok (binds, _) \<Rightarrow> binds
    | Err e \<Rightarrow> (\<exists>s. e = OdInvalidValueSymbol s)
    | Panic \<Rightarrow> False"
    by (auto split: result.splits)
qed

end
