(* ===== verification/Bind_Test.thy ===== *)
theory Bind_Test
  imports Compile_Rules Offline_Debugger_Sim
begin

text \<open>
  \<open>test.rs\<close>: bind rules are tested against a file that lists devices with the decision expected on
  each. Parsing and validating JSON are parameters. A \<open>HashMap\<close> is the list of its entries in the
  order of its iteration.
\<close>

section \<open>Test files\<close>

datatype ExpectedResult = ExMatch | ExAbort

record BindSpec =
  bs_name :: string
  bs_expected :: ExpectedResult
  bs_device :: "(string \<times> string) list"

record CompositeNodeSpec =
  cs_node :: string
  cs_tests :: "BindSpec list"

datatype TestSpec = TsBind "BindSpec list" | TsCompositeBind "CompositeNodeSpec list"

datatype TestError =
    TeBindParserError BindParserError
  | TeDeviceSpecParserError BindParserError
  | TeDebuggerError OdError
  | TeCompilerError CompilerError
  | TeInvalidSchema
  | TeJsonParserError string
  | TeCompositeNodeMissing string
  | TeInvalidJsonError

record ('j, 's) JsonOps =
  json_from_str :: "string \<Rightarrow> ('j, string) result"
  compile_and_return :: "'j \<Rightarrow> 's option"
  is_strictly_valid :: "'s \<Rightarrow> 'j \<Rightarrow> bool"
  bind_specs_from_value :: "'j \<Rightarrow> (BindSpec list, string) result"
  composite_specs_from_value :: "'j \<Rightarrow> (CompositeNodeSpec list, string) result"
  BIND_SCHEMA :: string
  COMPOSITE_SCHEMA :: string

definition validate_spec :: "('j, 's) JsonOps \<Rightarrow> string \<Rightarrow> string \<Rightarrow> ('j, TestError) result" where
  "validate_spec json input schema =
     and_then (map_err TeJsonParserError (json_from_str json schema)) (\<lambda>schema.
     and_then (ok_or (compile_and_return json schema) TeInvalidSchema) (\<lambda>compiled_schema.
     and_then (map_err TeJsonParserError (json_from_str json input)) (\<lambda>spec.
       if \<not> is_strictly_valid json compiled_schema spec then Err TeInvalidJsonError else Ok spec)))"

definition parse_bind_spec :: "('j, 's) JsonOps \<Rightarrow> string \<Rightarrow> (TestSpec, TestError) result" where
  "parse_bind_spec json input =
     and_then (validate_spec json input (BIND_SCHEMA json)) (\<lambda>spec.
     and_then (map_err TeJsonParserError (bind_specs_from_value json spec)) (\<lambda>bind_specs.
       Ok (TsBind bind_specs)))"

definition suite_try_from :: "('j, 's) JsonOps \<Rightarrow> string \<Rightarrow> (TestSpec, TestError) result" where
  "suite_try_from json input =
     (case parse_bind_spec json input of
        Ok specs \<Rightarrow> Ok specs
      | Panic \<Rightarrow> Panic
      | Err _ \<Rightarrow>
          and_then (validate_spec json input (COMPOSITE_SCHEMA json)) (\<lambda>spec.
          and_then (map_err TeJsonParserError (composite_specs_from_value json spec)) (\<lambda>composite_specs.
            Ok (TsCompositeBind composite_specs))))"

section \<open>Running tests\<close>

fun add_properties :: "(string \<times> string) list \<Rightarrow> DeviceSpecification \<Rightarrow> (DeviceSpecification, TestError) result" where
  "add_properties [] spec = Ok spec"
| "add_properties ((key, v) # device) spec =
     and_then (map_err TeDeviceSpecParserError (add_property key v spec)) (add_properties device)"

text \<open>The lines that the debugger prints on the way are left out.\<close>

fun run_bind_test_specs ::
    "BindSpec list \<Rightarrow> SymbolTable \<Rightarrow> SymbolicInstructionInfo list \<Rightarrow> (bool, TestError) result" where
  "run_bind_test_specs [] symbol_table insts = Ok True"
| "run_bind_test_specs (test # specs) symbol_table insts =
     and_then (add_properties (bs_device test) new_specification) (\<lambda>device_specification.
     and_then
       (map_err TeDebuggerError (debug_from_device_specification symbol_table insts device_specification))
       (\<lambda>(res, _).
         case (bs_expected test, res) of
           (ExMatch, False) \<Rightarrow> Ok False
         | (ExAbort, True) \<Rightarrow> Ok False
         | _ \<Rightarrow> run_bind_test_specs specs symbol_table insts))"

definition node_map :: "CompositeBindRules \<Rightarrow> string \<rightharpoonup> SymbolicInstructionInfo list" where
  "node_map composite_bind =
     foldl (\<lambda>m nd. m(cn_name nd \<mapsto> cn_instructions nd))
       [cn_name (cbr_primary_node composite_bind) \<mapsto> cn_instructions (cbr_primary_node composite_bind)]
       (cbr_additional_nodes composite_bind)"

fun run_node_specs ::
    "SymbolTable \<Rightarrow> (string \<rightharpoonup> SymbolicInstructionInfo list) \<Rightarrow> CompositeNodeSpec list \<Rightarrow> (bool, TestError) result" where
  "run_node_specs symbol_table nodes [] = Ok True"
| "run_node_specs symbol_table nodes (node_spec # specs) =
     (case nodes (cs_node node_spec) of
        None \<Rightarrow> Err (TeCompositeNodeMissing (cs_node node_spec))
      | Some insts \<Rightarrow>
          and_then (run_bind_test_specs (cs_tests node_spec) symbol_table insts) (\<lambda>passed.
            if \<not> passed then Ok False else run_node_specs symbol_table nodes specs))"

definition run_composite_bind_test_specs ::
    "(nat \<Rightarrow> nat list \<Rightarrow> nat list) \<Rightarrow> CompositeNodeSpec list \<Rightarrow> string \<Rightarrow> string list \<Rightarrow> (bool, TestError) result" where
  "run_composite_bind_test_specs ord specs rules_str libraries =
     and_then (map_err TeCompilerError (compile_bind_composite ord rules_str libraries False False)) (\<lambda>composite_bind.
       run_node_specs (cbr_symbol_table composite_bind) (node_map composite_bind) specs)"

fun run_suite ::
    "(nat \<Rightarrow> nat list \<Rightarrow> nat list) \<Rightarrow> TestSpec \<Rightarrow> string \<Rightarrow> string list \<Rightarrow> (bool, TestError) result" where
  "run_suite ord (TsBind test_specs) rules_str libraries =
     and_then (map_err TeCompilerError (compile_bind ord rules_str libraries False False False)) (\<lambda>bind_rules.
       run_bind_test_specs test_specs (br_symbol_table bind_rules) (br_instructions bind_rules))"
| "run_suite ord (TsCompositeBind test_specs) rules_str libraries =
     run_composite_bind_test_specs ord test_specs rules_str libraries"

definition run_tests ::
    "(nat \<Rightarrow> nat list \<Rightarrow> nat list) \<Rightarrow> ('j, 's) JsonOps \<Rightarrow> string \<Rightarrow> string list \<Rightarrow> string \<Rightarrow> (bool, TestError) result" where
  "run_tests ord json rules_str libraries tests =
     and_then (suite_try_from json tests) (\<lambda>suite. run_suite ord suite rules_str libraries)"

section \<open>What a verdict means\<close>

text \<open>The statements decide \<open>b\<close> on the device of the test.\<close>

definition test_decision :: "SymbolTable \<Rightarrow> Statement list \<Rightarrow> BindSpec \<Rightarrow> bool \<Rightarrow> bool" where
  "test_decision st ss t b \<longleftrightarrow>
     (\<exists>spec m. add_properties (bs_device t) new_specification = Ok spec
        \<and> od_construct_property_map (spec_properties spec) st = Ok m
        \<and> sem_block (spec_equal m) st ss = Ok b)"

definition tests_verdict :: "SymbolTable \<Rightarrow> Statement list \<Rightarrow> BindSpec list \<Rightarrow> bool \<Rightarrow> bool" where
  "tests_verdict st ss specs passed \<longleftrightarrow>
     (if passed then \<forall>t\<in>set specs. test_decision st ss t (bs_expected t = ExMatch)
      else \<exists>t\<in>set specs. test_decision st ss t (bs_expected t \<noteq> ExMatch))"

lemma debug_decision:
  assumes "compile_statements ss st False = Ok is"
    and "debug_from_device_specification st is spec = Ok (res, lines)"
    and "add_properties (bs_device t) new_specification = Ok spec"
  shows "test_decision st ss t res"
proof -
  from assms(2) obtain m where m: "od_construct_property_map (spec_properties spec) st = Ok m"
    by (auto simp: debug_from_device_specification_def new_offline_debugger_def result_simps)
  from offline_debugger_decides [OF assms(1) m] assms(2,3) m show ?thesis
    by (auto simp: test_decision_def)
qed

lemma run_bind_test_specs_verdict:
  assumes "compile_statements ss st False = Ok is"
  shows "run_bind_test_specs specs st is = Ok passed \<Longrightarrow> tests_verdict st ss specs passed"
proof (induction specs)
  case (Cons t specs)
  from Cons.prems obtain spec res lines where spec: "add_properties (bs_device t) new_specification = Ok spec"
    and debug: "debug_from_device_specification st is spec = Ok (res, lines)"
    and rest: "(case (bs_expected t, res) of
       (ExMatch, False) \<Rightarrow> Ok False | (ExAbort, True) \<Rightarrow> Ok False | _ \<Rightarrow> run_bind_test_specs specs st is) = Ok passed"
    by (auto simp: result_simps)
  have decision: "test_decision st ss t res"
    by (rule debug_decision [OF assms debug spec])
  show ?case
  proof (cases "res = (bs_expected t = ExMatch)")
    case True
    with rest have "run_bind_test_specs specs st is = Ok passed"
      by (auto split: ExpectedResult.splits)
    with Cons.IH True decision show ?thesis by (auto simp: tests_verdict_def split: if_splits)
  next
    case False
    with rest have "\<not> passed" by (auto split: ExpectedResult.splits bool.splits)
    with False decision show ?thesis by (auto simp: tests_verdict_def)
  qed
qed (simp add: tests_verdict_def)

text \<open>
  C24. What a test run says. Tests of bind rules pass only if on the device of every test the rules
  decide what the test expects. They fail only if on the device of some test the rules decide the
  opposite.
\<close>

theorem run_tests_verdict:
  assumes "suite_try_from json tests = Ok (TsBind specs)"
    and "run_tests ord json rules_str libraries tests = Ok passed"
  shows "\<exists>ast st. rules_try_from rules_str = Ok ast
    \<and> get_symbol_table_from_libraries ord (ast_using ast) libraries False = Ok st
    \<and> tests_verdict st (ast_statements ast) specs passed"
proof -
  from assms obtain br where "compile_bind ord rules_str libraries False False False = Ok br"
    and run: "run_bind_test_specs specs (br_symbol_table br) (br_instructions br) = Ok passed"
    by (auto simp: run_tests_def result_simps)
  then obtain ast st "is" where "rules_try_from rules_str = Ok ast"
    "get_symbol_table_from_libraries ord (ast_using ast) libraries False = Ok st"
    "compile_statements (ast_statements ast) st False = Ok is"
    "br = \<lparr>br_symbol_table = st, br_instructions = is, br_use_new_bytecode = False\<rparr>"
    by (elim compile_bind_Ok) auto
  with run show ?thesis
    using run_bind_test_specs_verdict by force
qed

definition ex_test :: BindSpec where
  "ex_test = \<lparr>bs_name = ''a'', bs_expected = ExMatch, bs_device = [(''fuchsia.BIND_PROTOCOL'', ''5'')]\<rparr>"

definition ex_json :: "(string, unit) JsonOps" where
  "ex_json =
     \<lparr>json_from_str = Ok, compile_and_return = (\<lambda>_. Some ()), is_strictly_valid = (\<lambda>_ _. True),
      bind_specs_from_value = (\<lambda>_. Ok [ex_test]), composite_specs_from_value = (\<lambda>_. Err []),
      BIND_SCHEMA = [], COMPOSITE_SCHEMA = []\<rparr>"

lemma ex_suite: "suite_try_from ex_json tests = Ok (TsBind [ex_test])"
  by (simp add: suite_try_from_def parse_bind_spec_def validate_spec_def ex_json_def)

lemma ex_device: "add_properties (bs_device ex_test) new_specification =
    Ok \<lparr>spec_properties = [\<lparr>prop_key = ex_protocol, prop_value = NumericLiteral 5\<rparr>]\<rparr>"
  by code_simp

lemma ex_expected: "bs_expected ex_test = ExMatch"
  by (simp add: ex_test_def)

lemmas ex_run_simps = no_libraries compile_statements_def compile_statements_in_def compile_block_def
  new_compiler_def lookup_identifier_def ex_table_protocol push_inst_def ex_device ex_expected
  debug_from_device_specification_def new_offline_debugger_def od_construct_property_map_def
  device_property_matches_def output_abort_if_def od_push_def od_log_output_def od_log_outcome_def

lemma ex_run_tests: "run_tests (\<lambda>_ xs. xs) ex_json ex_source [] tests = Ok True"
  by (simp add: run_tests_def ex_suite compile_bind_def ex_source_parses ex_ast_def ex_run_simps)

theorem run_tests_verdict_witness:
  "\<exists>ast st. rules_try_from ex_source = Ok ast \<and> tests_verdict st (ast_statements ast) [ex_test] True"
  using run_tests_verdict [OF ex_suite ex_run_tests] by blast

section \<open>What a verdict on composite rules means\<close>

lemma list_all2_source: "list_all2 P xs ys \<Longrightarrow> y \<in> set ys \<Longrightarrow> \<exists>x\<in>set xs. P x y"
  by (induction rule: list_all2_induct) auto

lemma node_map_node:
  assumes "node_map cbr name = Some insts"
  shows "\<exists>nd\<in>set (cbr_primary_node cbr # cbr_additional_nodes cbr). cn_name nd = name \<and> cn_instructions nd = insts"
proof -
  have "foldl (\<lambda>m nd. m(cn_name nd \<mapsto> cn_instructions nd)) m nds name = Some insts \<Longrightarrow>
      m name = Some insts \<or> (\<exists>nd\<in>set nds. cn_name nd = name \<and> cn_instructions nd = insts)" for m and nds :: "CompositeNode list"
    by (induction nds arbitrary: m) (fastforce split: if_splits)+
  from this [OF assms [unfolded node_map_def]] show ?thesis
    by (auto split: if_splits)
qed

text \<open>The verdict on the tests of one node, for a node of the rules with that name.\<close>

definition node_verdict :: "SymbolTable \<Rightarrow> CompositeAst \<Rightarrow> CompositeNodeSpec \<Rightarrow> bool \<Rightarrow> bool" where
  "node_verdict st ast spec passed \<longleftrightarrow>
     (\<exists>nd\<in>set (cast_primary_node ast # cast_nodes ast).
        can_name nd = cs_node spec \<and> tests_verdict st (can_statements nd) (cs_tests spec) passed)"

lemma run_node_specs_verdict:
  assumes "\<And>name insts. nodes name = Some insts \<Longrightarrow>
      \<exists>nd\<in>set (cast_primary_node ast # cast_nodes ast). can_name nd = name \<and> compile_statements (can_statements nd) st False = Ok insts"
  shows "run_node_specs st nodes specs = Ok passed \<Longrightarrow>
    (if passed then \<forall>spec\<in>set specs. node_verdict st ast spec True else \<exists>spec\<in>set specs. node_verdict st ast spec False)"
proof (induction specs)
  case (Cons spec specs)
  from Cons.prems obtain insts ok where insts: "nodes (cs_node spec) = Some insts"
    and ok: "run_bind_test_specs (cs_tests spec) st insts = Ok ok"
    and rest: "(if \<not> ok then Ok False else run_node_specs st nodes specs) = Ok passed"
    by (auto simp: result_simps split: option.splits)
  from assms [OF insts] ok have "node_verdict st ast spec ok"
    unfolding node_verdict_def using run_bind_test_specs_verdict by blast
  with Cons.IH rest show ?case by (cases ok) (auto split: if_splits)
qed simp

text \<open>
  C25. What a test run says of composite rules. The tests pass only if for every node that is tested
  the rules have a node with that name, whose statements decide what is expected on the device of
  every test. They fail only if the statements of some tested node decide the opposite of what one
  of its tests expects.
\<close>

theorem run_composite_tests_verdict:
  assumes "suite_try_from json tests = Ok (TsCompositeBind specs)"
    and "run_tests ord json rules_str libraries tests = Ok passed"
  shows "\<exists>ast st. composite_try_from rules_str = Ok ast
    \<and> get_symbol_table_from_libraries ord (cast_using ast) libraries False = Ok st
    \<and> (if passed then \<forall>spec\<in>set specs. node_verdict st ast spec True
       else \<exists>spec\<in>set specs. node_verdict st ast spec False)"
proof -
  from assms obtain cbr where "compile_bind_composite ord rules_str libraries False False = Ok cbr"
    and run: "run_node_specs (cbr_symbol_table cbr) (node_map cbr) specs = Ok passed"
    by (auto simp: run_tests_def run_composite_bind_test_specs_def result_simps)
  then obtain ast where ast: "composite_try_from rules_str = Ok ast"
    "get_symbol_table_from_libraries ord (cast_using ast) libraries False = Ok (cbr_symbol_table cbr)"
    and primary: "compile_node (cbr_symbol_table cbr) False (cast_primary_node ast) = Ok (cbr_primary_node cbr)"
    and additional: "collect_results (compile_node (cbr_symbol_table cbr) False) (cast_nodes ast) = Ok (cbr_additional_nodes cbr)"
    by (auto simp: compile_bind_composite_def result_simps)
  have "\<exists>nd\<in>set (cast_primary_node ast # cast_nodes ast). can_name nd = name
      \<and> compile_statements (can_statements nd) (cbr_symbol_table cbr) False = Ok insts"
    if node: "node_map cbr name = Some insts" for name insts
  proof -
    have nodes: "list_all2 (\<lambda>x y. compile_node (cbr_symbol_table cbr) False x = Ok y)
        (cast_primary_node ast # cast_nodes ast) (rule_nodes cbr)"
      using primary additional by (simp add: collect_results_Ok)
    obtain nd where nd: "nd \<in> set (rule_nodes cbr)" "cn_name nd = name" "cn_instructions nd = insts"
      using node_map_node [OF node] by blast
    obtain nd' where "nd' \<in> set (cast_primary_node ast # cast_nodes ast)"
      "compile_node (cbr_symbol_table cbr) False nd' = Ok nd"
      using list_all2_source [OF nodes nd(1)] by blast
    moreover from this have "can_name nd' = name"
      "compile_statements (can_statements nd') (cbr_symbol_table cbr) False = Ok insts"
      using nd(2,3) by (auto simp: compile_node_def result_simps simp del: set_simps)
    ultimately show ?thesis by blast
  qed
  from run_node_specs_verdict [OF this run] ast show ?thesis by blast
qed

definition ex_composite_json :: "(string, unit) JsonOps" where
  "ex_composite_json =
     ex_json\<lparr>bind_specs_from_value := (\<lambda>_. Err []),
       composite_specs_from_value := (\<lambda>_. Ok [\<lparr>cs_node = ''a'', cs_tests = [ex_test]\<rparr>])\<rparr>"

lemma ex_composite_suite:
  "suite_try_from ex_composite_json tests = Ok (TsCompositeBind [\<lparr>cs_node = ''a'', cs_tests = [ex_test]\<rparr>])"
  by (simp add: suite_try_from_def parse_bind_spec_def validate_spec_def ex_composite_json_def ex_json_def)

lemma ex_run_composite_tests: "run_tests (\<lambda>_ xs. xs) ex_composite_json ex_composite_source [] tests = Ok True"
  by (simp add: run_tests_def ex_composite_suite run_composite_bind_test_specs_def compile_bind_composite_def
      ex_composite_parses ex_composite_ast_def compile_node_def node_map_def ex_run_simps)

theorem run_composite_tests_verdict_witness:
  "\<exists>ast st. composite_try_from ex_composite_source = Ok ast
     \<and> node_verdict st ast \<lparr>cs_node = ''a'', cs_tests = [ex_test]\<rparr> True"
  using run_composite_tests_verdict [OF ex_composite_suite ex_run_composite_tests] by auto

end
