(* ===== verification/V1_Debugger.thy ===== *)
theory V1_Debugger
  imports Encode_V1 Symbol_Table
begin

text \<open>
  \<open>debugger/debugger.rs\<close>: the debugger for the old bytecode. It executes raw instructions on the
  properties of a device and explains each step. What it prints is part of the result: the lines
  printed by a run that does not fail.
\<close>

section \<open>Data\<close>

record DeviceProperty =
  dp_key :: u32
  dp_value :: u32

definition device_property_to_string :: "DeviceProperty \<Rightarrow> string" where
  "device_property_to_string p = fmt_hex_width 6 (dp_key p) @ '' = '' @ fmt_hex_width 10 (dp_value p)"

datatype DebuggerError =
    DbBindFlagsNotSupported
  | DbInvalidCondition u32
  | DbIncorrectCondition
  | DbInvalidOperation u32
  | DbInvalidAstLocation u32
  | DbIncorrectAstLocation
  | DbMissingLabel
  | DbMissingBindProtocol
  | DbNoOutcome
  | DbDuplicateKey u32
  | DbInvalidDeprecatedKey u32

type_synonym DevicePropertyMap = "u32 \<rightharpoonup> u32"

datatype DebuggerOutput =
    DoConditionStatement u32 RawCondition bool u32
  | DoFalseStatement u32
  | DoAcceptStatementSuccess u32 u32 u32
  | DoAcceptStatementFailure u32 u32
  | DoIfCondition u32 RawCondition bool u32

record Debugger =
  dbg_instructions :: "RawInstruction list"
  dbg_properties :: DevicePropertyMap
  dbg_output :: "DebuggerOutput list"
  dbg_identifiers :: "u32 \<rightharpoonup> string"
  dbg_printed :: "string list"

section \<open>Construction\<close>

fun insert_properties :: "DeviceProperty list \<Rightarrow> DevicePropertyMap \<Rightarrow> (DevicePropertyMap, DebuggerError) result" where
  "insert_properties [] m = Ok m"
| "insert_properties (p # ps) m =
     (if m (dp_key p) \<noteq> None then Err (DbDuplicateKey (dp_key p))
      else insert_properties ps (m(dp_key p \<mapsto> dp_value p)))"

definition construct_property_map :: "DeviceProperty list \<Rightarrow> (DevicePropertyMap, DebuggerError) result" where
  "construct_property_map properties = insert_properties properties Map.empty"

definition new_debugger :: "RawInstruction list \<Rightarrow> DeviceProperty list \<Rightarrow> (Debugger, DebuggerError) result" where
  "new_debugger insts properties =
     and_then (construct_property_map properties) (\<lambda>m.
       Ok \<lparr>dbg_instructions = insts, dbg_properties = m, dbg_output = [],
           dbg_identifiers = get_deprecated_key_identifiers, dbg_printed = []\<rparr>)"

section \<open>Properties of the device\<close>

definition key_string :: "Debugger \<Rightarrow> u32 \<Rightarrow> (string, DebuggerError) result" where
  "key_string d key =
     (case dbg_identifiers d key of
        Some identifier \<Rightarrow> Ok (''`'' @ identifier @ ''` ['' @ fmt_hex_width 6 key @ '']'')
      | None \<Rightarrow> Err (DbInvalidDeprecatedKey key))"

definition print_line :: "string \<Rightarrow> Debugger \<Rightarrow> Debugger" where
  "print_line s d = d\<lparr>dbg_printed := dbg_printed d @ [s]\<rparr>"

definition push_output :: "DebuggerOutput \<Rightarrow> Debugger \<Rightarrow> Debugger" where
  "push_output x d = d\<lparr>dbg_output := dbg_output d @ [x]\<rparr>"

definition get_device_property :: "Debugger \<Rightarrow> u32 \<Rightarrow> (DeviceProperty \<times> Debugger, DebuggerError) result" where
  "get_device_property d key =
     (case dbg_properties d key of
        Some v \<Rightarrow> Ok (\<lparr>dp_key = key, dp_value = v\<rparr>, d)
      | None \<Rightarrow>
          if key = BIND_PROTOCOL then Err DbMissingBindProtocol
          else if key = BIND_AUTOBIND then
            Ok (\<lparr>dp_key = BIND_AUTOBIND, dp_value = 0\<rparr>,
                print_line
                  (''WARNING: Driver has BI_ABORT_IF_AUTOBIND. ''
                   @ ''This bind rules will fail in autobind contexts.'') d)
          else
            and_then (key_string d key) (\<lambda>s.
              Ok (\<lparr>dp_key = key, dp_value = 0\<rparr>,
                  print_line (''WARNING: Device has no value for '' @ s @ ''. The value will be set to 0.'') d)))"

section \<open>Execution\<close>

definition output_of ::
    "RawOpV1 \<Rightarrow> RawCondition \<Rightarrow> RawAstLocation \<Rightarrow> RawInstruction \<Rightarrow> bool
     \<Rightarrow> (DebuggerOutput list, DebuggerError) result" where
  "output_of operation condition ast_location instruction condition_succeeds =
     (case (operation, condition) of
        (OpAbort, CondEqual) \<Rightarrow>
          if ast_location \<noteq> AlConditionStatement then Err DbIncorrectAstLocation
          else Ok [DoConditionStatement (parameter_b instruction) CondNotEqual (\<not> condition_succeeds) (line_field instruction)]
      | (OpAbort, CondNotEqual) \<Rightarrow>
          if ast_location \<noteq> AlConditionStatement then Err DbIncorrectAstLocation
          else Ok [DoConditionStatement (parameter_b instruction) CondEqual (\<not> condition_succeeds) (line_field instruction)]
      | (OpAbort, CondAlways) \<Rightarrow>
          (case ast_location of
             AlAcceptStatementFailure \<Rightarrow> Ok [DoAcceptStatementFailure (extra_field instruction) (line_field instruction)]
           | AlFalseStatement \<Rightarrow> Ok [DoFalseStatement (line_field instruction)]
           | _ \<Rightarrow> Err DbIncorrectAstLocation)
      | (OpGoto, CondEqual) \<Rightarrow>
          (case ast_location of
             AlAcceptStatementValue \<Rightarrow>
               Ok (if condition_succeeds
                   then [DoAcceptStatementSuccess (parameter_b instruction) (value_field instruction) (line_field instruction)]
                   else [])
           | AlIfCondition \<Rightarrow>
               Ok [DoIfCondition (parameter_b instruction) CondNotEqual (\<not> condition_succeeds) (line_field instruction)]
           | _ \<Rightarrow> Err DbIncorrectAstLocation)
      | (OpGoto, CondNotEqual) \<Rightarrow>
          if ast_location \<noteq> AlIfCondition then Err DbIncorrectAstLocation
          else Ok [DoIfCondition (parameter_b instruction) CondEqual (\<not> condition_succeeds) (line_field instruction)]
      | _ \<Rightarrow> Ok [])"

definition output_instruction :: "RawInstruction \<Rightarrow> bool \<Rightarrow> Debugger \<Rightarrow> (Debugger, DebuggerError) result" where
  "output_instruction instruction condition_succeeds d =
     and_then (ok_or (raw_condition_of (condition_field instruction)) (DbInvalidCondition (condition_field instruction))) (\<lambda>condition.
     and_then (ok_or (raw_op_v1_of (operation_field instruction)) (DbInvalidOperation (operation_field instruction))) (\<lambda>operation.
     and_then (ok_or (raw_ast_location_of (ast_location_field instruction)) (DbInvalidAstLocation (ast_location_field instruction))) (\<lambda>ast_location.
     and_then (output_of operation condition ast_location instruction condition_succeeds) (\<lambda>out.
       Ok (fold push_output out d)))))"

fun skip_to_label :: "u32 \<Rightarrow> RawInstruction list \<Rightarrow> (RawInstruction list, DebuggerError) result" where
  "skip_to_label label [] = Err DbMissingLabel"
| "skip_to_label label (i # is) =
     (if raw_op_v1_of (operation_field i) = Some OpLabel \<and> parameter_a i = label then Ok is
      else skip_to_label label is)"

lemma length_skip_to_label [termination_simp]: "skip_to_label l is = Ok js \<Longrightarrow> length js < length is"
  by (induction l "is" rule: skip_to_label.induct) (auto split: if_splits)

text \<open>The condition of an instruction, with the property it read.\<close>

definition evaluate_condition ::
    "RawCondition \<Rightarrow> RawInstruction \<Rightarrow> DeviceProperty set \<Rightarrow> Debugger
     \<Rightarrow> (bool \<times> DeviceProperty set \<times> Debugger, DebuggerError) result" where
  "evaluate_condition condition instruction matched d =
     (if condition = CondAlways then Ok (True, matched, d)
      else
        let key = parameter_b instruction in
        if key = BIND_FLAGS then Err DbBindFlagsNotSupported
        else
          and_then (get_device_property d key) (\<lambda>(p, d).
            Ok ((condition = CondEqual) = (dp_value p = value_field instruction), insert p matched, d)))"

function evaluate_bind_rules ::
    "RawInstruction list \<Rightarrow> DeviceProperty set \<Rightarrow> Debugger
     \<Rightarrow> (DeviceProperty set option \<times> Debugger, DebuggerError) result" where
  "evaluate_bind_rules [] matched d = Err DbNoOutcome"
| "evaluate_bind_rules (instruction # insts) matched d =
     and_then (ok_or (raw_condition_of (condition_field instruction)) (DbInvalidCondition (condition_field instruction))) (\<lambda>condition.
     and_then (ok_or (raw_op_v1_of (operation_field instruction)) (DbInvalidOperation (operation_field instruction))) (\<lambda>operation.
     and_then (evaluate_condition condition instruction matched d) (\<lambda>(condition_succeeds, matched, d).
     and_then (output_instruction instruction condition_succeeds d) (\<lambda>d.
       if \<not> condition_succeeds then evaluate_bind_rules insts matched d
       else
         (case operation of
            OpAbort \<Rightarrow> Ok (None, d)
          | OpMatch \<Rightarrow> Ok (Some matched, d)
          | OpGoto \<Rightarrow>
              and_then (skip_to_label (parameter_a instruction) insts) (\<lambda>rest.
                evaluate_bind_rules rest matched d)
          | OpLabel \<Rightarrow> evaluate_bind_rules insts matched d)))))"
  by pat_completeness auto
termination
  by (relation "measure (\<lambda>(is, _, _). length is)") (auto dest: length_skip_to_label)

section \<open>Explanations\<close>

fun condition_needs_actual_value :: "bool \<Rightarrow> RawCondition \<Rightarrow> (bool, DebuggerError) result" where
  "condition_needs_actual_value success CondEqual = Ok (\<not> success)"
| "condition_needs_actual_value success CondNotEqual = Ok success"
| "condition_needs_actual_value success CondAlways = Err DbIncorrectCondition"

definition actual_value_string :: "Debugger \<Rightarrow> u32 \<Rightarrow> (string, DebuggerError) result" where
  "actual_value_string d key =
     and_then (key_string d key) (\<lambda>s.
       Ok (case dbg_properties d key of
             Some v \<Rightarrow> ''Actual value of '' @ s @ '' was '' @ fmt_hex_width 10 v @ ''.''
           | None \<Rightarrow> ''Device had no value for '' @ s @ ''.''))"

definition outcome_string :: "bool \<Rightarrow> string" where
  "outcome_string success = (if success then ''succeeded'' else ''failed'')"

definition log_outcome ::
    "string \<Rightarrow> u32 \<Rightarrow> RawCondition \<Rightarrow> bool \<Rightarrow> u32 \<Rightarrow> Debugger \<Rightarrow> (string list, DebuggerError) result" where
  "log_outcome what key condition success line d =
     and_then (condition_needs_actual_value success condition) (\<lambda>needed.
     and_then (if needed then and_then (actual_value_string d key) (\<lambda>s. Ok [CHR 0x09 # s]) else Ok []) (\<lambda>actual.
       Ok ((''Line '' @ fmt_dec line @ '': '' @ what @ '' '' @ outcome_string success @ ''.'') # actual)))"

definition log_condition_statement ::
    "u32 \<Rightarrow> RawCondition \<Rightarrow> bool \<Rightarrow> u32 \<Rightarrow> Debugger \<Rightarrow> (string list, DebuggerError) result" where
  "log_condition_statement = log_outcome ''Condition statement''"

definition log_if_condition ::
    "u32 \<Rightarrow> RawCondition \<Rightarrow> bool \<Rightarrow> u32 \<Rightarrow> Debugger \<Rightarrow> (string list, DebuggerError) result" where
  "log_if_condition = log_outcome ''If statement condition''"

definition log_false_statement :: "u32 \<Rightarrow> string list" where
  "log_false_statement line = [''Line '' @ fmt_dec line @ '': False statement reached.'']"

definition log_accept_statement_success ::
    "u32 \<Rightarrow> u32 \<Rightarrow> u32 \<Rightarrow> Debugger \<Rightarrow> (string list, DebuggerError) result" where
  "log_accept_statement_success key v line d =
     and_then (key_string d key) (\<lambda>s.
       Ok [''Line '' @ fmt_dec line @ '': Accept statement succeeded.'' @ [CHR 0x0A, CHR 0x09]
           @ ''The value of '' @ s @ '' was '' @ fmt_hex_width 10 v @ ''.''])"

definition log_accept_statement_failure :: "u32 \<Rightarrow> u32 \<Rightarrow> Debugger \<Rightarrow> (string list, DebuggerError) result" where
  "log_accept_statement_failure key line d =
     and_then (actual_value_string d key) (\<lambda>s.
       Ok [''Line '' @ fmt_dec line @ '': Accept statement failed.'' @ [CHR 0x0A, CHR 0x09] @ s])"

fun log_one :: "Debugger \<Rightarrow> DebuggerOutput \<Rightarrow> (string list, DebuggerError) result" where
  "log_one d (DoConditionStatement key condition success line) = log_condition_statement key condition success line d"
| "log_one d (DoFalseStatement line) = Ok (log_false_statement line)"
| "log_one d (DoAcceptStatementSuccess key v line) = log_accept_statement_success key v line d"
| "log_one d (DoAcceptStatementFailure key line) = log_accept_statement_failure key line d"
| "log_one d (DoIfCondition key condition success line) = log_if_condition key condition success line d"

definition log_output :: "Debugger \<Rightarrow> (Debugger, DebuggerError) result" where
  "log_output d =
     and_then (collect_results (log_one d) (dbg_output d)) (\<lambda>lines. Ok (fold print_line (concat lines) d))"

definition debug ::
    "RawInstruction list \<Rightarrow> DeviceProperty list
     \<Rightarrow> (DeviceProperty set option \<times> string list, DebuggerError) result" where
  "debug insts properties =
     and_then (new_debugger insts properties) (\<lambda>d.
     and_then (evaluate_bind_rules (dbg_instructions d) {} d) (\<lambda>(matched_properties, d).
     and_then (log_output d) (\<lambda>d. Ok (matched_properties, dbg_printed d))))"

end
