(* ===== verification/User_Errors.thy ===== *)
theory User_Errors
  imports Bind_Test V1_Debugger Encode_V1
begin

text \<open>
  \<open>errors.rs\<close>: the messages for users, one function for each \<open>impl From<..> for UserError\<close>. The
  parameter \<open>dbg\<close> is the \<open>Debug\<close> format of strings.
\<close>

section \<open>User errors\<close>

record UserError =
  ue_index :: string
  ue_message :: string
  ue_span :: "string option"
  ue_is_compiler_bug :: bool

definition new_user_error :: "string \<Rightarrow> string \<Rightarrow> string option \<Rightarrow> bool \<Rightarrow> UserError" where
  "new_user_error index message span is_compiler_bug =
     \<lparr>ue_index = index, ue_message = message, ue_span = span, ue_is_compiler_bug = is_compiler_bug\<rparr>"

definition writeln :: "string \<Rightarrow> string" where
  "writeln s = s @ [CHR 0x0A]"

definition user_error_to_string :: "UserError \<Rightarrow> string" where
  "user_error_to_string e =
     writeln (''['' @ ue_index e @ '']: '' @ ue_message e)
     @ (if ue_is_compiler_bug e then writeln ''This is a bind compiler bug, please report it!'' else [])
     @ (case ue_span e of Some span \<Rightarrow> writeln span | None \<Rightarrow> [])"

section \<open>Debug formats\<close>

fun debug_error_kind :: "ErrorKind \<Rightarrow> string" where
  "debug_error_kind EkTag = ''Tag''"
| "debug_error_kind EkMapRes = ''MapRes''"
| "debug_error_kind EkAlt = ''Alt''"
| "debug_error_kind EkIsNot = ''IsNot''"
| "debug_error_kind EkSeparatedList = ''SeparatedList''"
| "debug_error_kind EkMany0 = ''Many0''"
| "debug_error_kind EkMany1 = ''Many1''"
| "debug_error_kind EkTakeUntil = ''TakeUntil''"
| "debug_error_kind EkDigit = ''Digit''"
| "debug_error_kind EkHexDigit = ''HexDigit''"
| "debug_error_kind EkMultiSpace = ''MultiSpace''"
| "debug_error_kind EkOneOf = ''OneOf''"
| "debug_error_kind EkChar = ''Char''"
| "debug_error_kind EkCrLf = ''CrLf''"
| "debug_error_kind EkEscaped = ''Escaped''"

fun debug_value_type :: "ValueType \<Rightarrow> string" where
  "debug_value_type VtNumber = ''Number''"
| "debug_value_type VtStr = ''Str''"
| "debug_value_type VtBool = ''Bool''"
| "debug_value_type VtEnum = ''Enum''"

fun debug_symbol :: "(string \<Rightarrow> string) \<Rightarrow> Symbol \<Rightarrow> string" where
  "debug_symbol dbg (DeprecatedKey k) = ''DeprecatedKey('' @ fmt_dec k @ '')''"
| "debug_symbol dbg (Key s t) = ''Key('' @ dbg s @ '', '' @ debug_value_type t @ '')''"
| "debug_symbol dbg (NumberValue n) = ''NumberValue('' @ fmt_dec n @ '')''"
| "debug_symbol dbg (StringValue s) = ''StringValue('' @ dbg s @ '')''"
| "debug_symbol dbg (BoolValue b) = ''BoolValue('' @ (if b then ''true'' else ''false'') @ '')''"
| "debug_symbol dbg (EnumValue s) = ''EnumValue('' @ dbg s @ '')''"

section \<open>Parser errors\<close>

fun user_error_of_parser :: "BindParserError \<Rightarrow> UserError" where
  "user_error_of_parser (PeType span) =
     new_user_error ''E001'' ''Expected a type keyword.'' (Some span) False"
| "user_error_of_parser (PeStringLiteral span) =
     new_user_error ''E002'' ''Expected a string literal.'' (Some span) False"
| "user_error_of_parser (PeNumericLiteral span) =
     new_user_error ''E003'' ''Expected a numerical literal.'' (Some span) False"
| "user_error_of_parser (PeBoolLiteral span) =
     new_user_error ''E004'' ''Expected a boolean literal.'' (Some span) False"
| "user_error_of_parser (PeIdentifier span) =
     new_user_error ''E005'' ''Expected an identifier.'' (Some span) False"
| "user_error_of_parser (PeSemicolon span) =
     new_user_error ''E006'' ''Missing semicolon (;).'' (Some span) False"
| "user_error_of_parser (PeAssignment span) =
     new_user_error ''E007'' ''Expected an assignment. Are you missing a '='?'' (Some span) False"
| "user_error_of_parser (PeListStart span) =
     new_user_error ''E008'' ''Expected a list. Are you missing a '{'?'' (Some span) False"
| "user_error_of_parser (PeListEnd span) =
     new_user_error ''E009'' ''List does not terminate. Are you missing a '}'?'' (Some span) False"
| "user_error_of_parser (PeListSeparator span) =
     new_user_error ''E010'' ''Expected a list separator. Are you missing a ','?'' (Some span) False"
| "user_error_of_parser (PeLibraryKeyword span) =
     new_user_error ''E011'' ''Expected 'library' keyword.'' (Some span) False"
| "user_error_of_parser (PeUsingKeyword span) =
     new_user_error ''E012'' ''Expected 'using' keyword.'' (Some span) False"
| "user_error_of_parser (PeAsKeyword span) =
     new_user_error ''E013'' ''Expected 'as' keyword'' (Some span) False"
| "user_error_of_parser (PeIfBlockStart span) =
     new_user_error ''E014'' ''Expected '{' to begin if statement block.'' (Some span) False"
| "user_error_of_parser (PeIfBlockEnd span) =
     new_user_error ''E015'' ''Expected '}' to end if statement block.'' (Some span) False"
| "user_error_of_parser (PeIfKeyword span) =
     new_user_error ''E016'' ''Expected 'if' keyword.'' (Some span) False"
| "user_error_of_parser (PeElseKeyword span) =
     new_user_error ''E017'' ''Expected 'else' keyword'' (Some span) False"
| "user_error_of_parser (PeConditionOp span) =
     new_user_error ''E018'' ''Expected a condition operation ('==' or '!='.)'' (Some span) False"
| "user_error_of_parser (PeConditionValue span) =
     new_user_error ''E019'' ''Expected a condition value: string, number, boolean, or identifier'' (Some span) False"
| "user_error_of_parser (PeAcceptKeyword span) =
     new_user_error ''E020'' ''Expected 'accept' keyword.'' (Some span) False"
| "user_error_of_parser (PeFalseKeyword span) =
     new_user_error ''E026'' ''Expected 'false' keyword.'' (Some span) False"
| "user_error_of_parser (PeNoStatements span) =
     new_user_error ''E021'' ''Bind rules must contain at least one statement.'' (Some span) False"
| "user_error_of_parser (PeNoNodes span) =
     new_user_error ''E028'' ''Composite bind rules must contain at least one node.'' (Some span) False"
| "user_error_of_parser (PeEof span) =
     new_user_error ''E025'' ''Expected end of file.'' (Some span) False"
| "user_error_of_parser (PeCompositeKeyword span) =
     new_user_error ''E029'' ''Expected 'composite' keyword.'' (Some span) False"
| "user_error_of_parser (PeNodeKeyword span) =
     new_user_error ''E030'' ''Expected 'node' keyword.'' (Some span) False"
| "user_error_of_parser (PePrimaryKeyword span) =
     new_user_error ''E031'' ''Expected 'primary' keyword.'' (Some span) False"
| "user_error_of_parser (PeOnePrimaryNode span) =
     new_user_error ''E032'' ''Composite bind rules must contain exactly one primary node.'' (Some span) False"
| "user_error_of_parser (PeInvalidNodeName span) =
     new_user_error ''E032'' ''Expected node name string literal'' (Some span) False"
| "user_error_of_parser (PeDuplicateNodeName span) =
     new_user_error ''E033'' ''Node names should be unique'' (Some span) False"
| "user_error_of_parser PeUnterminatedComment =
     new_user_error ''E023'' ''Found an unterminated multiline comment.'' None False"
| "user_error_of_parser (PeTrueKeyword span) =
     new_user_error ''E027'' ''Expected 'true' keyword.'' (Some span) False"
| "user_error_of_parser (PeUnknown span kind) =
     new_user_error ''E022'' (''Unexpected parser error: '' @ debug_error_kind kind @ ''.'') (Some span) True"

section \<open>Linter, dependency and compiler errors\<close>

fun user_error_of_linter :: "LinterError \<Rightarrow> UserError" where
  "user_error_of_linter (LibraryNameMustNotContainUnderscores name) =
     new_user_error ''E501''
       (''Library names should not contain underscores: `'' @ ci_to_string name @ ''`.'')
       None False"

fun user_error_of_dependency :: "CompoundIdentifier DependencyError \<Rightarrow> UserError" where
  "user_error_of_dependency (MissingDependency lib) =
     new_user_error ''E200'' (''Missing dependency: '' @ ci_to_string lib) None False"
| "user_error_of_dependency CircularDependency =
     new_user_error ''E201'' ''Cicular dependency'' None False"

fun user_error_of_compiler :: "CompilerError \<Rightarrow> UserError" where
  "user_error_of_compiler (CeBindParserError e) =
     user_error_of_parser e"
| "user_error_of_compiler (CeDependencyError e) =
     user_error_of_dependency e"
| "user_error_of_compiler (CeLinterError e) =
     user_error_of_linter e"
| "user_error_of_compiler (CeDuplicateIdentifier ident) =
     new_user_error ''E102''
       (''The identifier `'' @ ci_to_string ident @ ''` is defined multiple times.'')
       None False"
| "user_error_of_compiler (CeTypeMismatch ident) =
     new_user_error ''E103''
       (''The identifier `'' @ ci_to_string ident @ ''` is extended with a mismatched type.'')
       None False"
| "user_error_of_compiler (CeUnresolvedQualification ident) =
     new_user_error ''E104'' (''Could not resolve the qualifier on `'' @ ci_to_string ident @ ''`.'') None False"
| "user_error_of_compiler (CeUndeclaredKey ident) =
     new_user_error ''E105''
       (''Could not find previous definition of extended key `'' @ ci_to_string ident @ ''`.'')
       None False"
| "user_error_of_compiler (CeMissingExtendsKeyword ident) =
     new_user_error ''E106''
       (''Cannot define a key with a namespace: `'' @ ci_to_string ident @ ''`. Are you missing an `extend`?'')
       None False"
| "user_error_of_compiler (CeInvalidExtendsKeyword ident) =
     new_user_error ''E107'' (''Cannot extend a key with no namespace: `'' @ ci_to_string ident @ ''`.'') None False"
| "user_error_of_compiler (CeUnknownKey ident) =
     new_user_error ''E108''
       (''Bind rules refers to undefined identifier: `'' @ ci_to_string ident @ ''`.'')
       None False"
| "user_error_of_compiler CeIfStatementMustBeTerminal =
     new_user_error ''E109'' ''If statements must be the last statement in a block'' None False"
| "user_error_of_compiler CeTrueStatementMustBeIsolated =
     new_user_error ''E110'' ''`true` must be the only statement in a block'' None False"
| "user_error_of_compiler CeFalseStatementMustBeIsolated =
     new_user_error ''E111'' ''`true` must be the only statement in a block'' None False"

section \<open>Debugger errors\<close>

fun user_error_of_offline_debugger :: "(string \<Rightarrow> string) \<Rightarrow> OdError \<Rightarrow> UserError" where
  "user_error_of_offline_debugger dbg (OdParserError e) =
     user_error_of_parser e"
| "user_error_of_offline_debugger dbg (OdCompilerError e) =
     user_error_of_compiler e"
| "user_error_of_offline_debugger dbg (OdDuplicateKey ident) =
     new_user_error ''E300''
       (''The key `'' @ ci_to_string ident @ ''` appears multiple times in the device specification.'')
       None False"
| "user_error_of_offline_debugger dbg OdMissingLabel =
     new_user_error ''E301'' ''Missing label in the bind rules symbolic instructions.'' None True"
| "user_error_of_offline_debugger dbg OdNoOutcome =
     new_user_error ''E302'' ''Reached the end of the symbolic instructions without binding or aborting.'' None True"
| "user_error_of_offline_debugger dbg OdIncorrectAstLocation =
     new_user_error ''E303'' ''Symbolic instruction has an incorrect AST location.'' None True"
| "user_error_of_offline_debugger dbg OdInvalidAstLocation =
     new_user_error ''E304'' ''AST location contains an incorrect statement type.'' None True"
| "user_error_of_offline_debugger dbg (OdUnknownKey ident) =
     new_user_error ''E305''
       (''Statement contains an undefined identifier: `'' @ ci_to_string ident @ ''`.'')
       None True"
| "user_error_of_offline_debugger dbg (OdInvalidValueSymbol symb) =
     new_user_error ''E306'' (''Symbol is not a valid value type: `'' @ debug_symbol dbg symb @ ''`.'') None True"

fun user_error_of_debugger :: "DebuggerError \<Rightarrow> UserError" where
  "user_error_of_debugger DbBindFlagsNotSupported =
     new_user_error ''E001'' ''The BIND_FLAGS property is not supported.'' None False"
| "user_error_of_debugger (DbInvalidCondition condition) =
     new_user_error ''E002''
       (''A bind rules instruction contained an invalid condition: '' @ fmt_dec condition @ ''.'')
       None True"
| "user_error_of_debugger (DbInvalidOperation operation) =
     new_user_error ''E003''
       (''A bind rules instruction contained an invalid operation: '' @ fmt_dec operation @ ''.'')
       None True"
| "user_error_of_debugger (DbInvalidAstLocation ast_location) =
     new_user_error ''E004''
       (''A bind rules instruction contained an invalid AST location: '' @ fmt_dec ast_location @ ''.'')
       None True"
| "user_error_of_debugger DbIncorrectAstLocation =
     new_user_error ''E005'' ''The debugger only works with bind rules written in the new bind language.'' None False"
| "user_error_of_debugger DbMissingLabel =
     new_user_error ''E006'' ''The bind rules contained a GOTO with no matching LABEL.'' None True"
| "user_error_of_debugger DbMissingBindProtocol =
     new_user_error ''E007''
       ''Device doesn't have a BIND_PROTOCOL property. The outcome of the bind rules would depend on the device's protocol_id.''
       None False"
| "user_error_of_debugger DbNoOutcome =
     new_user_error ''E008'' ''Reached the end of the instructions without binding or aborting.'' None True"
| "user_error_of_debugger (DbDuplicateKey key) =
     new_user_error ''E009''
       (''The device has multiple values for the key '' @ fmt_hex_width 6 key @ ''.'')
       None False"
| "user_error_of_debugger DbIncorrectCondition =
     new_user_error ''E010'' ''An incorrect condition type was encountered.'' None True"
| "user_error_of_debugger (DbInvalidDeprecatedKey key) =
     new_user_error ''E011''
       (''The bind rules contained an invalid deprecated key: '' @ fmt_hex_width 6 key @ ''.'')
       None True"

section \<open>Bytecode errors\<close>

fun user_error_of_encode :: "BindRulesEncodeError \<Rightarrow> UserError" where
  "user_error_of_encode (EeInvalidStringLength s) =
     new_user_error ''E600''
       (''The bind rules contains a string that exceeds 255 characters: '' @ s @ ''.'')
       None True"
| "user_error_of_encode EeUnsupportedSymbol =
     new_user_error ''E601'' ''Symbol is not supported in the old bytecode format.'' None True"
| "user_error_of_encode EeIntegerOutOfRange =
     new_user_error ''E602'' (''Integer out of range'') None True"
| "user_error_of_encode (EeMismatchValueTypes lhs rhs) =
     new_user_error ''E603''
       (''Cannot compare different value types for '' @ debug_value_type lhs @ '' and '' @ debug_value_type rhs)
       None True"
| "user_error_of_encode EeIncorrectTypesInValueComparison =
     new_user_error ''E604''
       (''The LHS value must represent a key and the RHS value must represent a bool,'' @ [CHR 0x0A] @ ''                 string, number or enum value'')
       None True"
| "user_error_of_encode (EeDuplicateLabel label_id) =
     new_user_error ''E605'' (''Duplicate label '' @ fmt_dec label_id @ '' in instructions'') None True"
| "user_error_of_encode (EeMissingLabel label_id) =
     new_user_error ''E606'' (''Missing label '' @ fmt_dec label_id @ '' in instructions'') None True"
| "user_error_of_encode (EeInvalidGotoLocation label_id) =
     new_user_error ''E607''
       (''Bind rules cannot move backwards. Label '' @ fmt_dec label_id @ '' appears before Goto statement'')
       None True"
| "user_error_of_encode (EeJumpOffsetOutOfRange label_id) =
     new_user_error ''E608'' (''The jump offset for label '' @ fmt_dec label_id @ '' exceeds 32 bits'') None True"
| "user_error_of_encode EeMatchNotSupported =
     new_user_error ''E609'' ''Match instructions are not supported in the new bytecode'' None True"
| "user_error_of_encode EeMissingCompositeDeviceName =
     new_user_error ''E610'' ''Composite bind rules missing a device name'' None True"
| "user_error_of_encode EeMissingCompositeNodeName =
     new_user_error ''E611'' ''Composite bind rules missing a node name'' None True"
| "user_error_of_encode (EeDuplicateCompositeNodeName name) =
     new_user_error ''E612'' (''Node name '' @ name @ '' is duplicate'') None True"

fun user_error_of_decode :: "BindRulesDecodeError \<Rightarrow> UserError" where
  "user_error_of_decode DeInvalidBinaryLength =
     new_user_error ''E700''
       (''The bind binary cannot be divided into instructions. The binary size must be divisible by 12'')
       None False"

fun user_error_of_bytecode :: "BytecodeError \<Rightarrow> UserError" where
  "user_error_of_bytecode BeUnexpectedEnd =
     new_user_error ''E801'' ''Unexpected end of bytecode'' None False"
| "user_error_of_bytecode (BeInvalidHeader expected actual) =
     new_user_error ''E802''
       (''Invalid header magic number. Expected '' @ digits 16 (uint expected) @ '', found '' @ digits 16 (uint actual))
       None False"
| "user_error_of_bytecode (BeInvalidVersion version) =
     new_user_error ''E803'' (''Invalid bytecode version '' @ fmt_dec version) None False"
| "user_error_of_bytecode BeInvalidStringLength =
     new_user_error ''E804'' ''String exceeds 255 characters'' None False"
| "user_error_of_bytecode BeEmptyString =
     new_user_error ''E805'' ''Symbol table contains empty string'' None False"
| "user_error_of_bytecode BeUtf8ConversionFailure =
     new_user_error ''E806'' ''Error converting bytes to UTF-8'' None False"
| "user_error_of_bytecode (BeInvalidSymbolTableKey key_id) =
     new_user_error ''E807'' (''Invalid key '' @ fmt_dec key_id @ '' in symbol table'') None False"
| "user_error_of_bytecode BeIncorrectSectionSize =
     new_user_error ''E808'' ''Section bytecode does not match size listed in the header'' None False"
| "user_error_of_bytecode (BeInvalidOp operation) =
     new_user_error ''E809'' (''Invalid operation value: '' @ fmt_dec operation) None False"
| "user_error_of_bytecode (BeInvalidValueType val_type) =
     new_user_error ''E810'' (''Invalid value type: '' @ fmt_dec val_type) None False"
| "user_error_of_bytecode (BeInvalidBoolValue v) =
     new_user_error ''E811'' (''Invalid boolean value: '' @ fmt_dec v) None False"
| "user_error_of_bytecode BeMismatchValueTypes =
     new_user_error ''E812'' ''Comparing different value types'' None False"
| "user_error_of_bytecode (BeMissingEntryInSymbolTable key_id) =
     new_user_error ''E813'' (''Missing entry for key '' @ fmt_dec key_id @ '' in symbol table'') None False"
| "user_error_of_bytecode BeInvalidJumpLocation =
     new_user_error ''E814'' ''Jump offset did not land on a jumping pad'' None False"
| "user_error_of_bytecode BeInvalidKeyType =
     new_user_error ''E815'' ''Only number-based and string-based keys are supported.'' None False"
| "user_error_of_bytecode BeInvalidPrimaryNode =
     new_user_error ''E816''
       ''There must be a primary node at the beginning of the composite node instructions''
       None False"
| "user_error_of_bytecode BeMultiplePrimaryNodes =
     new_user_error ''E817'' ''There must only be one primary node'' None False"
| "user_error_of_bytecode (BeInvalidNodeType nt) =
     new_user_error ''E818'' (''Invalid node type: '' @ fmt_dec nt) None False"
| "user_error_of_bytecode BeIncorrectNodeSectionSize =
     new_user_error ''E819'' ''Incorrect node section size'' None False"
| "user_error_of_bytecode BeMissingDeviceNameInSymbolTable =
     new_user_error ''E820'' ''Missing device name ID in the symbol table'' None False"
| "user_error_of_bytecode BeMissingNodeIdInSymbolTable =
     new_user_error ''E821'' ''Missing node name ID in the symbol table'' None False"

section \<open>Test errors\<close>

fun user_error_of_test :: "(string \<Rightarrow> string) \<Rightarrow> TestError \<Rightarrow> UserError" where
  "user_error_of_test dbg (TeBindParserError e) =
     user_error_of_parser e"
| "user_error_of_test dbg (TeDeviceSpecParserError e) =
     user_error_of_parser e"
| "user_error_of_test dbg (TeDebuggerError e) =
     user_error_of_offline_debugger dbg e"
| "user_error_of_test dbg (TeCompilerError e) =
     user_error_of_compiler e"
| "user_error_of_test dbg TeInvalidSchema =
     new_user_error ''E401'' ''The test specification JSON schema is invalid.'' None True"
| "user_error_of_test dbg TeInvalidJsonError =
     new_user_error ''E402'' ''The test specification is invalid according to the schema.'' None False"
| "user_error_of_test dbg (TeCompositeNodeMissing node) =
     new_user_error ''E404'' (''The composite node '' @ node @ '' is not included in the bind rules.'') None False"
| "user_error_of_test dbg (TeJsonParserError e) =
     new_user_error ''E403'' (''Failed to parse JSON: '' @ e @ ''.'') None False"

end
