(* ===== verification/Parser_Errors.thy ===== *)
theory Parser_Errors
  imports Rules_Size User_Errors
begin

text \<open>
  The parsers of the bind language never report \<open>BindParserError::Unknown\<close>, the error that users
  are told is a bug of the compiler. The combinators of \<open>nom\<close> build it when a loop makes no
  progress or when nothing wraps the error of a basic parser.
\<close>

section \<open>The contract\<close>

fun known :: "BindParserError \<Rightarrow> bool" where
  "known (PeUnknown _ _) = False"
| "known _ = True"

definition failures_known :: "'a bind_parser \<Rightarrow> bool" where
  "failures_known p \<longleftrightarrow> (\<forall>i e. p i = Err (NomFailure e) \<longrightarrow> known e)"

definition reports_known :: "'a bind_parser \<Rightarrow> bool" where
  "reports_known p \<longleftrightarrow> failures_known p \<and> (\<forall>i e. p i = Err (NomError e) \<longrightarrow> known e)"

abbreviation consumes :: "('a, 'e) parser \<Rightarrow> bool" where
  "consumes p \<equiv> sized (\<lambda>_. Suc 0) p"

named_theorems known_intros \<open>parsers that report known errors\<close>

lemma reports_failures: "reports_known p \<Longrightarrow> failures_known p"
  by (simp add: reports_known_def)

lemma reportsD:
  "p i = Err (NomError e) \<Longrightarrow> reports_known p \<Longrightarrow> known e"
  "p i = Err (NomFailure e) \<Longrightarrow> reports_known p \<Longrightarrow> known e"
  by (simp_all add: reports_known_def failures_known_def)

lemma reportsI:
  "(\<And>i e. p i = Err (NomError e) \<or> p i = Err (NomFailure e) \<Longrightarrow> known e) \<Longrightarrow> reports_known p"
  by (auto simp: reports_known_def failures_known_def)

lemma consumes_progress: "p i = Ok (j, x) \<Longrightarrow> consumes p \<Longrightarrow> j \<noteq> i"
  using sizedD [of p i j x "\<lambda>_. Suc 0"] by auto

section \<open>Combinators\<close>

lemma known_map_err [known_intros]: "(\<And>s. known (f s)) \<Longrightarrow> reports_known (map_err_p p f)"
  by (rule reportsI) (auto simp: map_err_p_def split: result.splits NomErr.splits prod.splits)

lemma known_then:
  assumes "reports_known p" and "reports_known q"
  shows known_preceded: "reports_known (preceded p q)"
    and known_pair: "reports_known (pair p q)"
    and known_terminated: "reports_known (terminated p q)"
  by (rule reportsI, auto simp: preceded_def pair_def terminated_def result_simps dest: reportsD [OF _ assms(1)] reportsD [OF _ assms(2)])+

lemma known_delimited [known_intros]:
  assumes "reports_known p" and "reports_known q" and "reports_known r"
  shows "reports_known (delimited p q r)"
    and "reports_known (separated_pair p q r)"
  by (rule reportsI, auto simp: delimited_def separated_pair_def result_simps
      dest: reportsD [OF _ assms(1)] reportsD [OF _ assms(2)] reportsD [OF _ assms(3)])+

lemma known_map [known_intros]: "reports_known p \<Longrightarrow> reports_known (map_p p f)"
  by (rule reportsI) (auto simp: map_p_def result_simps dest: reportsD)

lemma known_value [known_intros]: "reports_known p \<Longrightarrow> reports_known (value_p v p)"
  by (rule reportsI) (auto simp: value_p_def result_simps dest: reportsD)

lemma known_opt [known_intros]: "failures_known p \<Longrightarrow> reports_known (opt p)"
  by (rule reportsI) (auto simp: opt_def failures_known_def split: result.splits NomErr.splits)

lemma alt_from_errors:
  "alt_from err ps i = Err (NomError e) \<Longrightarrow> err = Some e \<or> (\<exists>p\<in>set ps. p i = Err (NomError e))"
  "alt_from err ps i = Err (NomFailure e) \<Longrightarrow> \<exists>p\<in>set ps. p i = Err (NomFailure e)"
proof (induction ps arbitrary: err)
  case Nil
  { case 1 then show ?case by (cases err) simp_all }
  { case 2 then show ?case by (cases err) simp_all }
next
  case (Cons p ps)
  { case 1 with Cons.IH(1) show ?case by (auto split: result.splits NomErr.splits) }
  { case 2 with Cons.IH(2) show ?case by (auto split: result.splits NomErr.splits) }
qed

lemma known_alt [known_intros]: "list_all reports_known ps \<Longrightarrow> reports_known (alt ps)"
  by (rule reportsI) (auto simp: alt_def list_all_iff dest!: alt_from_errors dest: reportsD)

lemma failures_alt: "list_all failures_known ps \<Longrightarrow> failures_known (alt ps)"
  by (auto simp: failures_known_def alt_def list_all_iff dest!: alt_from_errors(2))

section \<open>Loops\<close>

lemma many_loop_known:
  assumes "failures_known p" and "consumes p"
  shows "many_loop mk k p n acc i \<noteq> Err (NomError e)"
    and "many_loop mk k p n acc i = Err (NomFailure e) \<Longrightarrow> known e"
proof (induction n arbitrary: acc i)
  case (Suc n)
  { case 1
    then show ?case
      using Suc.IH(1) consumes_progress [OF _ assms(2)] by (auto split: result.splits NomErr.splits) }
  { case 2
    then show ?case
      using Suc.IH(2) consumes_progress [OF _ assms(2)] assms(1)
      by (auto simp: failures_known_def split: result.splits NomErr.splits if_splits) }
qed simp_all

lemma known_many0 [known_intros]: "failures_known p \<Longrightarrow> consumes p \<Longrightarrow> reports_known (many0 mk p)"
  by (rule reportsI) (auto simp: many0_def simp del: many_loop.simps dest: many_loop_known)

lemma known_many1 [known_intros]: "reports_known p \<Longrightarrow> consumes p \<Longrightarrow> reports_known (many1 mk p)"
  by (rule reportsI)
    (auto simp: many1_def result_simps simp del: many_loop.simps dest: reportsD many_loop_known [OF reports_failures])

lemma separated_loop_known:
  assumes "failures_known sep" and "consumes sep" and "failures_known p" and "sized (\<lambda>_. 0) p"
  shows "separated_loop mk sep p n acc i \<noteq> Err (NomError e)"
    and "separated_loop mk sep p n acc i = Err (NomFailure e) \<Longrightarrow> known e"
proof (induction n arbitrary: acc i)
  case (Suc n)
  have "i1 \<noteq> i" "p i1 \<noteq> Ok (i, x)" if "sep i = Ok (i1, y)" for i i1 x y
    using sizedD [OF that assms(2)] sizedD [OF _ assms(4), of i1 i x] by auto
  then have progress: "\<forall>i i1 y. sep i = Ok (i1, y) \<longrightarrow> i1 \<noteq> i \<and> (\<forall>x. p i1 \<noteq> Ok (i, x))" by blast
  { case 1
    then show ?case
      using Suc.IH(1) progress by (auto split: result.splits NomErr.splits) }
  { case 2
    then show ?case
      using Suc.IH(2) progress assms(1,3)
      by (auto simp: failures_known_def split: result.splits NomErr.splits if_splits) }
qed simp_all

lemma known_separated [known_intros]:
  assumes "failures_known sep" and "consumes sep" and "reports_known p" and "consumes p"
  shows "reports_known (separated_nonempty_list mk sep p)"
proof (rule reportsI)
  fix i :: NomSpan and e
  have "p i \<noteq> Ok (i, x)" for x
    using consumes_progress [OF _ assms(4), of i i x] by blast
  then show "known e" if "separated_nonempty_list mk sep p i = Err (NomError e)
      \<or> separated_nonempty_list mk sep p i = Err (NomFailure e)"
    using separated_loop_known [OF assms(1,2) reports_failures [OF assms(3)] sized_zero [OF assms(4)]] that
    by (auto simp: separated_nonempty_list_def result_simps simp del: separated_loop.simps split: if_splits
        dest: reportsD [OF _ assms(3)])
qed

section \<open>Whitespace\<close>

lemma consumes_mono: "sized (\<lambda>_. n) p \<Longrightarrow> 0 < n \<Longrightarrow> consumes p"
  by (erule sized_mono) simp

lemma consumes_split_at: "consumes (split_at_position1_complete mk P e)"
  by (rule sizedI)
    (auto simp: split_at_position1_complete_def Suc_le_eq split: option.splits if_splits dest!: take_split_length)

lemma consumes_tag: "t \<noteq> [] \<Longrightarrow> consumes (tag mk t)"
  by (rule consumes_mono [OF sized_tag]) simp

lemma slice_from_not_Err [simp]: "slice_from n i \<noteq> Err e"
  by (auto simp: slice_from_def checked_add_def Let_def result_simps split: if_splits)

lemma take_split_not_Err [simp]: "take_split n i \<noteq> Err e"
  by (auto simp: take_split_def slice_to_def result_simps split: if_splits)

lemma comment_loop_not_Err [simp]: "comment_loop m s \<noteq> Err e"
  by (induction m s rule: comment_loop.induct) auto

lemma from_to_not_Err [simp]: "from_to i j \<noteq> Err e"
  by (simp add: from_to_def)

lemma consumes_multispace: "consumes (multispace1 mk)"
  unfolding multispace1_def by (rule consumes_split_at)

lemma failures_basic:
  "failures_known (tag from_error_kind t)" "failures_known (multispace1 from_error_kind)"
  "failures_known (line_ending from_error_kind)" "failures_known (not_line_ending from_error_kind)"
  by (auto simp: failures_known_def tag_def multispace1_def split_at_position1_complete_def line_ending_def
      not_line_ending_def result_simps split: option.splits if_splits)

lemma failures_pair: "failures_known p \<Longrightarrow> failures_known q \<Longrightarrow> failures_known (pair p q)"
  by (auto simp: failures_known_def pair_def result_simps)

lemma failures_value: "failures_known p \<Longrightarrow> failures_known (value_p v p)"
  by (auto simp: failures_known_def value_p_def result_simps)

lemma known_comment_or_whitespace: "reports_known comment_or_whitespace"
proof -
  have "failures_known multiline_comment"
    using failures_basic(1)
    by (auto simp: failures_known_def multiline_comment_def result_simps split: if_splits)
  moreover have "consumes multiline_comment"
    by (rule sizedI) (auto simp: multiline_comment_def result_simps split: if_splits
        dest!: slice_from_length sizedD [OF _ sized_tag])
  moreover have "failures_known singleline_comment"
    unfolding singleline_comment_def by (intro failures_value failures_pair failures_basic)
  moreover have "consumes singleline_comment"
    unfolding singleline_comment_def
    by (intro sized_value sized_mono [OF sized_pair [OF sized_tag sized_pair [OF sized_not_line_ending sized_line_ending]]]) auto
  ultimately show ?thesis
    unfolding comment_or_whitespace_def
    by (intro known_value known_many0 failures_alt sized_alt)
      (simp_all add: failures_value failures_basic sized_value consumes_multispace)
qed

lemma known_skip_ws: "skip_ws i = Err (NomError e) \<Longrightarrow> known e" "skip_ws i = Err (NomFailure e) \<Longrightarrow> known e"
  using known_comment_or_whitespace by (auto simp: skip_ws_def result_simps dest: reportsD)

lemma known_ws [known_intros]: "reports_known p \<Longrightarrow> reports_known (ws p)"
  unfolding ws_def by (rule known_preceded [OF known_comment_or_whitespace])

lemma known_keyword [known_intros]: "(\<And>s. known (f s)) \<Longrightarrow> reports_known (ws (keyword_tag t f))"
  by (intro known_ws known_map_err)

lemma consumes_keyword: "t \<noteq> [] \<Longrightarrow> consumes (ws (keyword_tag t f))"
  by (rule consumes_mono [OF sized_keyword]) simp

section \<open>Identifiers and values\<close>

lemma known_identifier [known_intros]: "reports_known identifier_p"
  by (rule reportsI) (auto simp: identifier_p_def result_simps split: option.splits)

lemma consumes_identifier: "consumes identifier_p"
proof (rule sizedI)
  fix i j x
  assume "identifier_p i = Ok (j, x)"
  then have "identifier_match (ns_fragment i) = Some x" "slice_from (length x) i = (Ok j :: (_, BindParserError NomErr) result)"
    by (auto simp: identifier_p_def result_simps split: option.splits)
  moreover from this(1) have "x \<noteq> []"
    by (cases "ns_fragment i") (auto split: if_splits)
  ultimately show "Suc 0 + length (ns_fragment j) \<le> length (ns_fragment i)"
    by (cases x) (auto dest!: slice_from_length)
qed

lemma known_compound_identifier [known_intros]: "reports_known compound_identifier"
proof -
  have "reports_known (separated_nonempty_list from_error_kind (tag from_error_kind ''.'') identifier_p)"
    by (intro known_separated failures_basic known_identifier consumes_identifier consumes_tag) simp
  then show ?thesis
    by (intro reportsI) (auto simp: compound_identifier_def result_simps split: if_splits dest: reportsD)
qed

lemma consumes_compound_identifier: "consumes compound_identifier"
proof (rule sizedI)
  fix i j x
  assume "compound_identifier i = Ok (j, x)"
  then obtain segments where
    "separated_nonempty_list from_error_kind (tag from_error_kind ''.'') identifier_p i = Ok (j, segments)" "segments \<noteq> []"
    by (auto simp: compound_identifier_def result_simps split: if_splits)
  with sizedD [OF this(1) sized_separated [OF sized_zero [OF sized_tag] consumes_identifier]]
  show "Suc 0 + length (ns_fragment j) \<le> length (ns_fragment i)"
    by (cases segments) simp_all
qed

lemma known_literals [known_intros]:
  "reports_known string_literal" "reports_known numeric_literal" "reports_known bool_literal"
  unfolding string_literal_def numeric_literal_def bool_literal_def by (intro known_map_err; simp)+

lemma consumes_literals:
  "consumes string_literal" "consumes numeric_literal" "consumes bool_literal"
proof -
  have "sized (\<lambda>_. 0) (escaped Pair (is_not Pair [CHR 0x5C, CHR ''\"'']) CHR 0x5C (one_of Pair [CHR 0x5C, CHR ''\"'']))"
    by (rule sizedI) (auto simp: escaped_def simp del: escaped_loop.simps
        intro: escaped_loop_size sized_digits sized_zero [OF sized_one_of])
  then have "consumes quoted"
    by (intro sizedI) (auto simp: quoted_def delimited_def result_simps dest!: sizedD [OF _ sized_nom_char] sizedD)
  then show "consumes string_literal"
    unfolding string_literal_def by (intro sized_map_err sized_map)
  show "consumes numeric_literal"
    unfolding numeric_literal_def digit1_def
    by (intro sized_map_err sized_alt)
      (simp add: sized_map_res consumes_split_at consumes_mono [OF sized_preceded [OF sized_tag sized_digits(2)]])
  show "consumes bool_literal"
    unfolding bool_literal_def by (intro sized_map_err sized_alt) (simp add: sized_value consumes_tag)
qed

lemma known_condition_value [known_intros]: "reports_known condition_value"
  by (rule reportsI) (auto simp: condition_value_def split: result.splits)

lemma consumes_condition_value: "consumes condition_value"
proof -
  have "consumes (alt [map_p (ws string_literal) StringLiteral, map_p (ws numeric_literal) NumericLiteral,
      map_p (ws bool_literal) BoolLiteral, map_p (ws compound_identifier) Identifier])"
    by (intro sized_alt) (simp add: sized_map sized_ws consumes_literals consumes_compound_identifier)
  then show ?thesis
    by (auto simp: condition_value_def sized_def split: result.splits)
qed

section \<open>Grammars\<close>

lemma consumes_first:
  assumes "consumes p" and "sized (\<lambda>_. 0) q"
  shows consumes_preceded: "consumes (preceded p q)"
    and consumes_terminated: "consumes (terminated p q)"
    and consumes_pair: "consumes (pair p q)"
  by (rule sizedI, auto simp: preceded_def terminated_def pair_def result_simps
      dest!: sizedD [OF _ assms(1)] sizedD [OF _ assms(2)])+

lemma consumes_delimited:
  assumes "consumes p" and "sized (\<lambda>_. 0) q" and "sized (\<lambda>_. 0) r"
  shows "consumes (delimited p q r)"
    and "consumes (separated_pair p q r)"
  by (rule sizedI, auto simp: delimited_def separated_pair_def result_simps
      dest!: sizedD [OF _ assms(1)] sizedD [OF _ assms(2)] sizedD [OF _ assms(3)])+

lemma sized_using: "sized (\<lambda>_. 0) using_p"
  by (rule sizedI) (auto simp: using_p_def result_simps
      dest!: sizedD [OF _ sized_ws [OF sized_compound_identifier]]
        sizedD [OF _ sized_opt [OF sized_zero [OF sized_preceded [OF sized_keyword sized_ws [OF sized_identifier]]]]])

lemma known_using: "reports_known using_p"
proof -
  have "reports_known (opt (preceded (ws (keyword_tag ''as'' PeAsKeyword)) (ws identifier_p)))"
    by (intro known_opt reports_failures known_preceded known_intros) simp
  then show ?thesis
    by (intro reportsI)
      (auto simp: using_p_def result_simps dest: reportsD reportsD [OF _ known_ws [OF known_compound_identifier]])
qed

lemma known_using_list [known_intros]: "reports_known using_list"
  unfolding using_list_def
  by (intro known_many0 reports_failures known_ws known_delimited(1) known_keyword known_using
      sized_ws consumes_delimited(1) consumes_keyword sized_using sized_keyword_zero) simp_all

lemma known_condition [known_intros]: "reports_known condition_p"
proof -
  have "reports_known (ws condition_op)"
    unfolding condition_op_def by (intro known_ws known_map_err) simp
  then show ?thesis
    by (intro reportsI)
      (auto simp: condition_p_def result_simps dest: known_skip_ws reportsD
        reportsD [OF _ known_ws [OF known_compound_identifier]] reportsD [OF _ known_ws [OF known_condition_value]])
qed

lemma consumes_condition: "consumes condition_p"
  by (rule sizedI)
    (auto simp: condition_p_def result_simps
      dest!: skip_ws_length sizedD [OF _ sized_ws [OF consumes_compound_identifier]]
        sizedD [OF _ sized_ws [OF sized_condition_value]] sizedD [OF _ sized_condition_op])

lemma known_block:
  assumes "reports_known st" and "consumes st"
  shows "reports_known (statement_block st)"
  unfolding statement_block_def
  by (intro known_delimited(1) known_keyword known_many1 known_ws assms sized_ws) simp_all

lemma known_if_statement:
  assumes "reports_known st" and "consumes st" and "sized (\<lambda>s. labels_needed [s]) st"
  shows "reports_known (if_statement st)"
proof -
  let ?block = "pair (preceded keyword_if condition_p) (statement_block st)"
  have block: "reports_known (statement_block st)" "sized (\<lambda>_. 0) (statement_block st)"
    using assms by (simp_all add: known_block sized_zero [OF sized_statement_block])
  have "reports_known ?block" "consumes ?block"
    unfolding keyword_if_def
    by (intro known_pair known_preceded known_keyword known_condition block consumes_pair consumes_preceded
        consumes_keyword sized_condition; simp)+
  then have "reports_known (separated_nonempty_list from_error_kind keyword_else ?block)"
    unfolding keyword_else_def
    by (intro known_separated reports_failures known_keyword consumes_keyword) simp_all
  moreover have "reports_known (preceded keyword_else (statement_block st))"
    unfolding keyword_else_def by (intro known_preceded known_keyword block) simp
  ultimately show ?thesis
    by (intro reportsI) (auto simp: if_statement_def result_simps dest: known_skip_ws reportsD)
qed

lemma known_accept: "reports_known accept"
proof -
  have "reports_known accept_values"
    unfolding accept_values_def list_separator_def
    by (intro known_delimited(1) known_terminated known_opt known_separated reports_failures known_keyword known_ws
        known_condition_value sized_ws consumes_condition_value consumes_keyword) simp_all
  then have "reports_known (preceded keyword_accept (pair (ws compound_identifier) accept_values))"
    unfolding keyword_accept_def
    by (intro known_preceded known_keyword known_pair known_ws known_compound_identifier) simp_all
  then show ?thesis
    by (intro reportsI) (auto simp: accept_def result_simps dest: known_skip_ws reportsD)
qed

lemma consumes_accept: "consumes accept"
proof -
  have "sized (\<lambda>_. 0) accept_values"
    unfolding accept_values_def list_separator_def
    by (intro sized_delimited sized_keyword_zero sized_terminated sized_opt sized_ws
        sized_zero [OF sized_separated [OF _ sized_ws [OF sized_condition_value]]])
  from sized_zero [OF sized_pair [OF sized_ws [OF sized_compound_identifier] this]]
  have p: "consumes (preceded keyword_accept (pair (ws compound_identifier) accept_values))"
    unfolding keyword_accept_def by (intro consumes_preceded consumes_keyword) simp_all
  show ?thesis
    by (rule sizedI) (auto simp: accept_def result_simps dest!: skip_ws_length sizedD [OF _ p])
qed

lemma consumes_if_statement:
  assumes "sized (\<lambda>s. labels_needed [s]) st"
  shows "consumes (if_statement st)"
  by (rule sizedI)
    (auto simp: if_statement_def result_simps
      dest!: skip_ws_length sizedD [OF _ sized_if_blocks [OF assms]] sizedD [OF _ sized_else_block [OF assms]])

lemma known_terminated_statements:
  "reports_known condition_statement" "reports_known keyword_false" "reports_known keyword_true"
proof -
  have "reports_known (terminated condition_p terminator)"
    by (intro known_terminated known_condition known_keyword) simp
  then show "reports_known condition_statement"
    by (intro reportsI) (auto simp: condition_statement_def result_simps dest: known_skip_ws reportsD)
  have "reports_known (terminated (ws (keyword_tag ''false'' PeFalseKeyword)) terminator)"
    "reports_known (terminated (ws (keyword_tag ''true'' PeTrueKeyword)) terminator)"
    by (intro known_terminated known_keyword; simp)+
  then show "reports_known keyword_false" "reports_known keyword_true"
    by (intro reportsI; auto simp: keyword_false_def keyword_true_def result_simps dest: known_skip_ws reportsD)+
qed

lemma consumes_terminated_statements: "consumes condition_statement" "consumes keyword_false" "consumes keyword_true"
proof -
  show "consumes condition_statement"
    by (rule sizedI) (auto simp: condition_statement_def result_simps
        dest!: skip_ws_length sizedD [OF _ consumes_terminated [OF consumes_condition sized_keyword_zero]])
  have "consumes (terminated (ws (keyword_tag t f)) terminator)" if "t \<noteq> []" for t f
    using that by (intro consumes_terminated consumes_keyword sized_keyword_zero)
  note words = this [of "''false''" PeFalseKeyword, simplified] this [of "''true''" PeTrueKeyword, simplified]
  show "consumes keyword_false" "consumes keyword_true"
    by (rule sizedI; auto simp: keyword_false_def keyword_true_def result_simps
        dest!: skip_ws_length sizedD [OF _ words(1)] sizedD [OF _ words(2)])+
qed

lemma known_statement: "reports_known (statement n) \<and> consumes (statement n)"
proof (induction n)
  case 0
  then show ?case by (simp add: reports_known_def failures_known_def sized_def)
next
  case (Suc n)
  let ?ps = "[condition_statement, if_statement (statement n), accept, keyword_false, keyword_true]"
  have "reports_known (alt ?ps)" "consumes (alt ?ps)"
    using Suc sized_statement [of n]
    by (auto intro!: known_alt sized_alt simp: known_terminated_statements known_accept known_if_statement
        consumes_terminated_statements consumes_accept consumes_if_statement)
  then show ?case
    by (simp add: reports_known_def failures_known_def sized_def)
qed

lemma until_eof_loop_known:
  assumes "reports_known p"
  shows "until_eof_loop p n acc i = Err (NomError e) \<Longrightarrow> known e"
    and "until_eof_loop p n acc i = Err (NomFailure e) \<Longrightarrow> known e"
proof (induction n arbitrary: acc i)
  case (Suc n)
  { case 1 then show ?case
      using Suc.IH(1) assms by (auto simp: result_simps split: if_splits dest: known_skip_ws reportsD) }
  { case 2 then show ?case
      using Suc.IH(2) assms by (auto simp: result_simps split: if_splits dest: known_skip_ws reportsD) }
qed simp_all

lemma known_many_until_eof [known_intros]: "reports_known p \<Longrightarrow> reports_known (many_until_eof p)"
  by (rule reportsI) (auto simp: many_until_eof_def simp del: until_eof_loop.simps dest: until_eof_loop_known)

lemma known_rules: "reports_known rules"
proof (rule reportsI)
  fix i :: NomSpan and e
  have "reports_known (many_until_eof (ws (statement (Suc (length (ns_fragment i))))))"
    using known_statement by (intro known_many_until_eof known_ws) blast
  then show "known e" if "rules i = Err (NomError e) \<or> rules i = Err (NomFailure e)"
    using that by (auto simp: rules_def Let_def result_simps simp del: statement.simps split: if_splits
        dest: reportsD [OF _ known_ws [OF known_using_list]] reportsD)
qed

section \<open>Libraries and composite rules\<close>

lemma known_value_list:
  assumes "reports_known f" and "consumes f"
  shows "reports_known (value_list f)"
proof -
  have "reports_known (delimited (ws (keyword_tag ''{'' PeListStart))
      (ws (terminated (separated_nonempty_list from_error_kind list_separator f) (opt list_separator)))
      (ws (keyword_tag ''}'' PeListEnd)))"
    unfolding list_separator_def
    by (intro known_delimited(1) known_terminated known_opt known_separated reports_failures known_keyword known_ws
        consumes_keyword assms) simp_all
  moreover have "reports_known (map_err_p (terminated (take_until Pair '';'') (tag Pair '';'')) PeSemicolon)"
    by (rule known_map_err) simp
  ultimately show ?thesis
    by (intro reportsI) (auto simp: value_list_def result_simps split: if_splits dest: reportsD)
qed

lemma known_assigned:
  assumes "reports_known p" and "sized (\<lambda>_. 0) p"
  shows "reports_known (assigned p)" and "consumes (assigned p)"
  unfolding assigned_def
  by (intro known_delimited(2) known_ws known_identifier known_keyword assms consumes_delimited(2) sized_ws
      consumes_identifier sized_keyword_zero; simp)+

lemma known_value_parser: "reports_known (value_parser t)"
proof (cases t)
qed (auto simp: number_value_list_def string_value_list_def bool_value_list_def enum_value_list_def
    intro!: known_value_list known_map sized_map sized_ws known_ws known_identifier consumes_identifier
      known_assigned known_literals sized_zero [OF consumes_literals(1)] sized_zero [OF consumes_literals(2)]
      sized_zero [OF consumes_literals(3)])

lemma known_declaration: "reports_known declaration_p"
proof -
  have "failures_known keyword_extend"
    using failures_basic(1) reportsD(2) [OF _ known_comment_or_whitespace]
    by (auto simp: keyword_extend_def ws_def preceded_def failures_known_def result_simps)
  then have "reports_known (opt keyword_extend)" by (rule known_opt)
  moreover have "reports_known (alt [keyword_uint, keyword_string, keyword_bool, keyword_enum])"
    unfolding keyword_uint_def keyword_string_def keyword_bool_def keyword_enum_def
    by (intro known_alt) (simp add: known_value known_keyword)
  ultimately show ?thesis
    by (intro reportsI)
      (auto simp: declaration_p_def result_simps dest: reportsD reportsD [OF _ known_value_parser]
        reportsD [OF _ known_ws [OF known_compound_identifier]])
qed

lemma known_library: "reports_known library"
  unfolding library_def library_name_def
  by (intro known_map known_pair known_ws known_delimited(1) known_keyword known_compound_identifier
      known_using_list known_many_until_eof known_declaration) simp_all

lemma sort_nodes_known:
  "sort_nodes input nodes names prim others = Err (NomError e) \<Longrightarrow> known e"
  "sort_nodes input nodes names prim others = Err (NomFailure e) \<Longrightarrow> known e"
  by (induction input nodes names prim others rule: sort_nodes.induct)
    (auto simp: Let_def split: if_splits option.splits)

lemma known_node: "reports_known (node_p n)"
proof -
  have "reports_known (pair (opt keyword_primary) keyword_node)"
    unfolding keyword_primary_def keyword_node_def
    by (intro known_pair known_opt reports_failures known_keyword) simp_all
  moreover have "reports_known (ws node_name)"
    unfolding node_name_def by (intro known_ws known_map_err) simp
  moreover have "reports_known (statement_block (statement n))"
    using known_statement [of n] by (intro known_block) simp_all
  ultimately show ?thesis
    by (intro reportsI) (auto simp: node_p_def result_simps dest: reportsD)
qed

lemma known_composite: "reports_known composite"
proof (rule reportsI)
  fix i :: NomSpan and e
  have "reports_known (composite_nodes n)" for n
    by (rule reportsI)
      (auto simp: composite_nodes_def result_simps split: if_splits
        dest: sort_nodes_known reportsD [OF _ known_many_until_eof [OF known_ws [OF known_node]]])
  then have "reports_known (map_p
      (pair (ws composite_name) (pair (ws using_list) (composite_nodes (Suc (length (ns_fragment i))))))
      (\<lambda>(name, includes, primary_node, nodes).
         \<lparr>cast_name = name, cast_using = includes, cast_primary_node = primary_node, cast_nodes = nodes\<rparr>))"
    unfolding composite_name_def keyword_composite_def
    by (intro known_map known_pair known_ws known_delimited(1) known_keyword known_compound_identifier known_using_list) simp_all
  then show "known e" if "composite i = Err (NomError e) \<or> composite i = Err (NomFailure e)"
    using that by (auto simp: composite_def dest: reportsD)
qed

section \<open>What users are told\<close>

lemma try_from_known:
  "rules_try_from src = Err e \<Longrightarrow> known e"
  "library_try_from src = Err e \<Longrightarrow> known e"
  "composite_try_from src = Err e \<Longrightarrow> known e"
  by (auto simp: rules_try_from_def library_try_from_def composite_try_from_def parse_outcome_def
      split: result.splits NomErr.splits
      dest: reportsD [OF _ known_rules] reportsD [OF _ known_library] reportsD [OF _ known_composite])

fun known_compiler_error :: "CompilerError \<Rightarrow> bool" where
  "known_compiler_error (CeBindParserError e) = known e"
| "known_compiler_error _ = True"

lemma compiler_bug_known: "ue_is_compiler_bug (user_error_of_compiler e) \<longleftrightarrow> \<not> known_compiler_error e"
proof (cases e)
  case (CeBindParserError p)
  then show ?thesis by (cases p) (simp_all add: new_user_error_def)
next
  case (CeDependencyError d)
  then show ?thesis by (cases d) (simp_all add: new_user_error_def)
next
  case (CeLinterError l)
  then show ?thesis by (cases l) (simp add: new_user_error_def)
qed (simp_all add: new_user_error_def)

lemma lookup_known:
  "lookup_identifier st i = Err e \<Longrightarrow> known_compiler_error e"
  "lookup_value st v = Err e \<Longrightarrow> known_compiler_error e"
  by (cases v; auto simp: lookup_identifier_def result_simps)+

lemma get_unique_label_not_Err [simp]: "get_unique_label c \<noteq> Err e"
  by (simp add: get_unique_label_def result_simps)

lemma accept_values_known: "compile_accept_values st i sp lhs l vs c = Err e \<Longrightarrow> known_compiler_error e"
  by (induction vs arbitrary: c) (auto simp: result_simps dest: lookup_known)

lemma compile_block_loop_known:
  "compile_block_loop st n ss c = Err e \<Longrightarrow> known_compiler_error e"
  "compile_if_blocks st fl bs c = Err e \<Longrightarrow> known_compiler_error e"
proof (induction st n ss c and st fl bs c rule: compile_block_loop_compile_if_blocks.induct)
  case (2 st n s rest c)
  then show ?case
    by (cases s) (auto simp: result_simps dest: lookup_known accept_values_known split: if_splits)
next
  case (4 st fl condition b blocks c)
  then show ?case
    by (auto simp: result_simps dest: lookup_known)
qed simp_all

lemma compile_statements_known: "compile_statements ss st new = Err e \<Longrightarrow> known_compiler_error e"
  by (auto simp: compile_statements_def compile_statements_in_def compile_block_def result_simps
      dest: compile_block_loop_known)

lemma insert_values_known: "insert_values name vs st = Err e \<Longrightarrow> known_compiler_error e"
  by (induction vs arbitrary: st) (auto simp: Let_def split: if_splits)

lemma find_qualified_known:
  "find_qualified_identifier d incs name = Err e \<Longrightarrow> known_compiler_error e"
  by (auto simp: find_qualified_identifier_def result_simps split: option.splits if_splits)

lemma check_key_known: "check_key d name st = Err e \<Longrightarrow> known_compiler_error e"
  by (auto simp: check_key_def split: option.splits if_splits Symbol.splits)

lemma insert_declaration_known: "insert_declaration name incs d st = Err e \<Longrightarrow> known_compiler_error e"
  by (auto simp: insert_declaration_def Let_def result_simps
      dest: find_qualified_known check_key_known insert_values_known)

lemma insert_declarations_known: "insert_declarations name incs ds st = Err e \<Longrightarrow> known_compiler_error e"
  by (induction ds arbitrary: st) (auto simp: result_simps dest: insert_declaration_known)

lemma construct_symbol_table_known: "construct_symbol_table libs = Err e \<Longrightarrow> known_compiler_error e"
proof -
  have "insert_library_symbols libs st = Err e \<Longrightarrow> known_compiler_error e" for st
    by (induction libs arbitrary: st) (auto simp: result_simps dest: insert_declarations_known)
  then show "construct_symbol_table libs = Err e \<Longrightarrow> known_compiler_error e"
    by (simp add: construct_symbol_table_def)
qed

lemma get_symbol_table_known:
  "get_symbol_table_from_libraries ord using libs lint = Err e \<Longrightarrow> known_compiler_error e"
proof -
  have "parse_library lint lib = Err e \<Longrightarrow> known_compiler_error e" for lib
    by (auto simp: parse_library_def result_simps dest: try_from_known split: if_splits)
  then have "collect_results (parse_library lint) libs = Err e \<Longrightarrow> known_compiler_error e"
    by (induction libs) (auto simp: result_simps)
  then show "get_symbol_table_from_libraries ord using libs lint = Err e \<Longrightarrow> known_compiler_error e"
    by (auto simp: get_symbol_table_from_libraries_def resolve_dependencies_def result_simps
        dest: construct_symbol_table_known)
qed

lemma compile_known: "compile ord rules_str libs lint disable_autobind new = Err e \<Longrightarrow> known_compiler_error e"
proof -
  have "compile_node st new nd = Err e \<Longrightarrow> known_compiler_error e" for st nd
    by (auto simp: compile_node_def result_simps dest: compile_statements_known)
  then have "collect_results (compile_node st new) nds = Err e \<Longrightarrow> known_compiler_error e"
    "compile_node st new nd = Err e \<Longrightarrow> known_compiler_error e" for st nd nds
    by (induction nds) (auto simp: result_simps)
  then show "compile ord rules_str libs lint disable_autobind new = Err e \<Longrightarrow> known_compiler_error e"
    by (auto simp: compile_def compile_bind_def compile_bind_composite_def result_simps
        split: result.splits dest: try_from_known get_symbol_table_known compile_statements_known)
qed

text \<open>
  C29. No source makes the compiler blame itself. Whatever the rules and libraries are, an error of
  the compiler is never reported as a bug of the bind compiler: the parsers wrap every error of
  the combinators, and none of their loops stops for lack of progress.
\<close>

theorem compile_error_not_bug:
  assumes "compile ord rules_str libraries lint disable_autobind use_new_bytecode = Err e"
  shows "\<not> ue_is_compiler_bug (user_error_of_compiler e)"
  using compile_known [OF assms] by (simp add: compiler_bug_known)

lemma ex_compile_error:
  "compile (\<lambda>_ xs. xs) ''a;'' [] True False True = Err (CeBindParserError (PeTrueKeyword ''a;''))"
proof -
  have "rules_try_from ''a;'' = Err (PeTrueKeyword ''a;'')" "composite_try_from ''a;'' = Err (PeCompositeKeyword ''a;'')"
    by code_simp+
  then show ?thesis by (simp add: compile_def compile_bind_def)
qed

theorem compile_error_not_bug_witness:
  "\<not> ue_is_compiler_bug (user_error_of_compiler (CeBindParserError (PeTrueKeyword ''a;'')))"
  by (rule compile_error_not_bug [OF ex_compile_error])

lemma od_insert_properties_Err:
  "od_insert_properties st ps seen m = Err e \<Longrightarrow> \<exists>k. e = OdDuplicateKey k"
  by (induction st ps seen m rule: od_insert_properties.induct) (auto split: if_splits option.splits)

text \<open>
  C30. What the offline debugger can complain about. On compiled rules and a device that has been
  parsed, it fails only with E300, a key that appears twice in the device, or E306, a key where a
  value is expected. The errors about labels, locations and missing outcomes do not occur.
\<close>

theorem offline_debugger_errors:
  assumes "compile_statements ss st False = Ok is"
    and "debug_from_device_specification st is spec = Err e"
  shows "ue_index (user_error_of_offline_debugger dbg e) \<in> {''E300'', ''E306''}"
proof (cases "od_construct_property_map (spec_properties spec) st")
  case (Ok m)
  from offline_debugger_decides [OF assms(1) Ok] assms(2) show ?thesis
    by (auto simp: new_user_error_def)
next
  case (Err e')
  with assms(2) have "e = e'"
    by (simp add: debug_from_device_specification_def new_offline_debugger_def)
  with Err od_insert_properties_Err show ?thesis
    by (fastforce simp: od_construct_property_map_def new_user_error_def)
next
  case Panic
  with assms(2) show ?thesis
    by (simp add: debug_from_device_specification_def new_offline_debugger_def)
qed

definition ex_twice :: DeviceSpecification where
  "ex_twice =
     \<lparr>spec_properties =
        [\<lparr>prop_key = ex_key, prop_value = NumericLiteral 7\<rparr>, \<lparr>prop_key = ex_key, prop_value = NumericLiteral 8\<rparr>]\<rparr>"

theorem offline_debugger_errors_witness:
  "debug_from_device_specification ex_table ex_code ex_twice = Err (OdDuplicateKey ex_key)
   \<and> ue_index (user_error_of_offline_debugger (\<lambda>s. s) (OdDuplicateKey ex_key)) \<in> {''E300'', ''E306''}"
proof
  show "debug_from_device_specification ex_table ex_code ex_twice = Err (OdDuplicateKey ex_key)"
    by (simp add: debug_from_device_specification_def new_offline_debugger_def od_construct_property_map_def
        ex_twice_def ex_table_def ex_key_def)
  from offline_debugger_errors [OF ex_block_compiles this]
  show "ue_index (user_error_of_offline_debugger (\<lambda>s. s) (OdDuplicateKey ex_key)) \<in> {''E300'', ''E306''}" .
qed

end
