(* ===== verification/Bindc.thy ===== *)
theory Bindc
  imports Parser_Errors
begin

text \<open>
  \<open>src/tools/bindc/src/main.rs\<close>: the command line compiler. A path is the list of its bytes. The
  world holds the readable files and what has been printed. The system decides which files can be
  created and how many bytes a call of \<open>write\<close> accepts.
\<close>

section \<open>Files and output\<close>

type_synonym Path = "u8 list"

record World =
  wd_files :: "Path \<rightharpoonup> u8 list"
  wd_stdout :: "u8 list"

text \<open>A target of nothing is the standard output.\<close>

record Os =
  os_can_create :: "Path \<Rightarrow> bool"
  os_write :: "Path option \<Rightarrow> u8 list \<Rightarrow> nat option"

text \<open>\<open>BcMessage\<close> is an error made by \<open>anyhow!\<close> or one that \<open>context\<close> hides behind its message.\<close>

datatype BindcError =
    BcMessage string
  | BcIoError
  | BcCompilerError CompilerError
  | BcEncodeError BindRulesEncodeError
  | BcDebuggerError OdError
  | BcTestError TestError

type_synonym 'a io = "World \<Rightarrow> ('a, BindcError) result \<times> World"

definition pure_io :: "('a, BindcError) result \<Rightarrow> 'a io" where
  "pure_io r w = (r, w)"

definition then_io :: "'a io \<Rightarrow> ('a \<Rightarrow> 'b io) \<Rightarrow> 'b io" where
  "then_io m f w =
     (case m w of (Ok a, w) \<Rightarrow> f a w | (Err e, w) \<Rightarrow> (Err e, w) | (Panic, w) \<Rightarrow> (Panic, w))"

definition context_io :: "'a io \<Rightarrow> string \<Rightarrow> 'a io" where
  "context_io m message w = (case m w of (r, w) \<Rightarrow> (map_err (\<lambda>_. BcMessage message) r, w))"

definition open_file :: "Path \<Rightarrow> u8 list io" where
  "open_file path w = (case wd_files w path of Some bytes \<Rightarrow> (Ok bytes, w) | None \<Rightarrow> (Err BcIoError, w))"

definition create_file :: "Os \<Rightarrow> Path \<Rightarrow> unit io" where
  "create_file os path w =
     (if os_can_create os path then (Ok (), w\<lparr>wd_files := (wd_files w)(path \<mapsto> [])\<rparr>) else (Err BcIoError, w))"

fun append_to :: "Path option \<Rightarrow> u8 list \<Rightarrow> World \<Rightarrow> World" where
  "append_to None bytes w = w\<lparr>wd_stdout := wd_stdout w @ bytes\<rparr>"
| "append_to (Some path) bytes w =
     w\<lparr>wd_files := (wd_files w)(path \<mapsto> (case wd_files w path of Some old \<Rightarrow> old | None \<Rightarrow> []) @ bytes)\<rparr>"

definition write_once :: "Os \<Rightarrow> Path option \<Rightarrow> u8 list \<Rightarrow> nat io" where
  "write_once os target buf w =
     (case os_write os target buf of
        None \<Rightarrow> (Err BcIoError, w)
      | Some n \<Rightarrow> (Ok (length (take n buf)), append_to target (take n buf) w))"

function write_all :: "Os \<Rightarrow> Path option \<Rightarrow> u8 list \<Rightarrow> unit io" where
  "write_all os target buf w =
     (if buf = [] then (Ok (), w)
      else
        case write_once os target buf w of
          (Ok n, w) \<Rightarrow> if n = 0 then (Err BcIoError, w) else write_all os target (drop n buf) w
        | (Err e, w) \<Rightarrow> (Err e, w)
        | (Panic, w) \<Rightarrow> (Panic, w))"
  by pat_completeness auto
termination
  by (relation "measure (\<lambda>(os, target, buf, w). length buf)") auto

declare write_all.simps [simp del]

text \<open>\<open>println!\<close> panics when the standard output cannot be written.\<close>

definition println :: "Os \<Rightarrow> string \<Rightarrow> unit io" where
  "println os line w =
     (case write_all os None (into_bytes (writeln line)) w of
        (Ok u, w) \<Rightarrow> (Ok u, w) | (_, w) \<Rightarrow> (Panic, w))"

fun print_lines :: "Os \<Rightarrow> string list \<Rightarrow> unit io" where
  "print_lines os [] = pure_io (Ok ())"
| "print_lines os (line # rest) = then_io (println os line) (\<lambda>_. print_lines os rest)"

definition read_file :: "Path \<Rightarrow> string io" where
  "read_file path =
     then_io (open_file path) (\<lambda>bytes.
       pure_io (case from_utf8 bytes of Some s \<Rightarrow> Ok s | None \<Rightarrow> Err BcIoError))"

fun read_files :: "Path list \<Rightarrow> string list io" where
  "read_files [] = pure_io (Ok [])"
| "read_files (path # rest) =
     then_io (read_file path) (\<lambda>s. then_io (read_files rest) (\<lambda>ss. pure_io (Ok (s # ss))))"

text \<open>\<open>BufRead::lines\<close>: a line ends with a line feed, which is dropped with a carriage return before it.\<close>

fun split_lines :: "u8 list \<Rightarrow> u8 list list" where
  "split_lines [] = []"
| "split_lines (b # bs) =
     (if b = 0x0A then [] # split_lines bs
      else if b = 0x0D \<and> take 1 bs = [0x0A] then [] # split_lines (drop 1 bs)
      else case split_lines bs of [] \<Rightarrow> [[b]] | l # ls \<Rightarrow> (b # l) # ls)"

definition read_line :: "u8 list \<Rightarrow> (Path, BindcError) result" where
  "read_line line =
     (case from_utf8 line of
        Some s \<Rightarrow> Ok (into_bytes s)
      | None \<Rightarrow> Err (BcMessage ''Failed to read include file''))"

definition handle_includes :: "Path list \<Rightarrow> Path option \<Rightarrow> Path list io" where
  "handle_includes includes include_file =
     (case include_file of
        None \<Rightarrow> pure_io (Ok includes)
      | Some include_file \<Rightarrow>
          then_io (context_io (open_file include_file) ''Failed to open include file'') (\<lambda>bytes.
          then_io (pure_io (collect_results read_line (split_lines bytes))) (\<lambda>filenames.
            pure_io (Ok (includes @ filenames)))))"

section \<open>Templates\<close>

definition unlines :: "string list \<Rightarrow> string" where
  "unlines ls = concat (map writeln ls)"

definition quote :: "string \<Rightarrow> string" where
  "quote s = CHR 0x22 # s @ [CHR 0x22]"

definition backslash :: string where
  "backslash = [CHR 0x5C]"

definition license_lines :: "string \<Rightarrow> string list" where
  "license_lines year =
     [''// Copyright '' @ year @ '' The Fuchsia Authors. All rights reserved.'',
      ''// Use of this source code is governed by a BSD-style license that can be'',
      ''// found in the LICENSE file.'', [],
      ''#include <lib/ddk/binding_priv.h>'', [],
      ''#if !defined(countof) && defined(__cplusplus)'',
      ''#include <array>'',
      ''#define countof(x) std::size(x)'',
      ''#endif'', []]"

definition bind_v1_template :: "nat \<Rightarrow> string \<Rightarrow> string" where
  "bind_v1_template bind_count binding =
     unlines (license_lines ''2019'' @
       [''// clang-format off'',
        ''#define ZIRCON_DRIVER(Driver, Ops, VendorName, Version) '' @ backslash,
        ''  ZIRCON_DRIVER_BEGIN_PRIV_V1(Driver, Ops, VendorName, Version, '' @ digits 10 (int bind_count)
          @ '') '' @ binding @ '' '' @ backslash,
        ''  ZIRCON_DRIVER_END_PRIV_V1(Driver)''])"

definition bind_v2_template :: "nat \<Rightarrow> string \<Rightarrow> string" where
  "bind_v2_template byte_count binding =
     unlines (license_lines ''2019'' @
       [''// clang-format off'',
        ''#define ZIRCON_DRIVER(Driver, Ops, VendorName, Version) '' @ backslash,
        ''  ZIRCON_DRIVER_BEGIN_PRIV_V2(Driver, Ops, VendorName, Version, '' @ digits 10 (int byte_count)
          @ '') '' @ binding @ '' '' @ backslash,
        ''  ZIRCON_DRIVER_END_PRIV_V2(Driver)''])"

definition fragment_template :: "string \<Rightarrow> string \<Rightarrow> string \<Rightarrow> string \<Rightarrow> string" where
  "fragment_template var_name name device_name insts =
     (let var = device_name @ ''_'' @ var_name in
      unlines
       [''// Generated bytecode.'',
        ''constexpr zx_bind_inst_t '' @ var @ ''_insts[] = {'',
        ''  '' @ insts,
        ''};'', [],
        ''constexpr device_fragment_part_t '' @ var @ ''_fragment_part[] = {'',
        ''  {'',
        ''    .instruction_count = countof('' @ var @ ''_insts),'',
        ''    .match_program = '' @ var @ ''_insts,'',
        ''  }'',
        ''};'', [],
        ''constexpr device_fragment_t '' @ var @ ''_fragment = {'',
        ''    .name = '' @ quote name @ '','',
        ''    .parts_count = countof('' @ var @ ''_fragment_part),'',
        ''    .parts = '' @ var @ ''_fragment_part,'',
        ''};''])"

definition composite_bind_template :: "string \<Rightarrow> string \<Rightarrow> string \<Rightarrow> string" where
  "composite_bind_template device_name fragment_definition fragment_list =
     unlines (license_lines ''2021'' @
       [fragment_definition,
        ''constexpr device_fragment_t '' @ device_name @ ''_fragments[] {'',
        ''  '' @ fragment_list,
        ''};'', [],
        ''// clang-format off'',
        ''#define ZIRCON_DRIVER(Driver, Ops, VendorName, Version) '' @ backslash,
        ''  ZIRCON_DRIVER_BEGIN_PRIV_V2(Driver, Ops, VendorName, Version, 1) 0x0 '' @ backslash,
        ''  ZIRCON_DRIVER_END_PRIV_V2(Driver)''])"

definition fidl_template :: "string \<Rightarrow> string \<Rightarrow> string" where
  "fidl_template lib_text definition_text =
     unlines
       [''@no_doc'', ''library '' @ lib_text @ '';'', [],
        ''using fuchsia.driver.framework as fdf;'', [], definition_text]"

section \<open>The compile command\<close>

definition convert_to_var_name :: "string \<Rightarrow> string" where
  "convert_to_var_name name = map (\<lambda>c. if c = CHR ''-'' then CHR ''_'' else c) name"

definition path_to_str :: "Path \<Rightarrow> (string, BindcError) result" where
  "path_to_str path =
     (case from_utf8 path of Some s \<Rightarrow> Ok s | None \<Rightarrow> Err (BcMessage ''failed to convert path to string''))"

definition write_depfile :: "Path \<Rightarrow> Path option \<Rightarrow> Path list \<Rightarrow> (string, BindcError) result" where
  "write_depfile output input includes =
     and_then (collect_results path_to_str includes) (\<lambda>deps.
     and_then (case input of Some input \<Rightarrow> and_then (path_to_str input) (\<lambda>s. Ok (deps @ [s])) | None \<Rightarrow> Ok deps) (\<lambda>deps.
     and_then (path_to_str output) (\<lambda>output_str.
       Ok (writeln (output_str @ '': '' @ join deps '' '')))))"

definition write_bind_template :: "BindRules \<Rightarrow> (string, BindcError) result" where
  "write_bind_template bind_rules =
     (if br_use_new_bytecode bind_rules then
        and_then (map_err BcEncodeError (encode_to_string_v2 bind_rules)) (\<lambda>(binding, byte_count).
          Ok (bind_v2_template byte_count binding))
      else
        and_then (map_err BcEncodeError (encode_to_string_v1 (br_instructions bind_rules))) (\<lambda>binding.
          Ok (bind_v1_template (length (br_instructions bind_rules)) binding)))"

definition write_fragment_template :: "string \<Rightarrow> CompositeNode \<Rightarrow> (string, BindcError) result" where
  "write_fragment_template device_name nd =
     and_then (map_err BcEncodeError (encode_to_string_v1 (cn_instructions nd))) (\<lambda>instructions_str.
     and_then (map_err BcEncodeError
         (encode_to_string_v1 [\<lparr>si_location = None, si_instruction = UnconditionalBind\<rparr>])) (\<lambda>last_str.
       Ok (fragment_template (convert_to_var_name (cn_name nd)) (cn_name nd) device_name
             (instructions_str @ last_str))))"

definition fragment_name :: "string \<Rightarrow> CompositeNode \<Rightarrow> string" where
  "fragment_name device_name nd = device_name @ ''_'' @ convert_to_var_name (cn_name nd) @ ''_fragment''"

fun write_fragments :: "string \<Rightarrow> CompositeNode list \<Rightarrow> string \<Rightarrow> string \<Rightarrow> (string \<times> string, BindcError) result" where
  "write_fragments device_name [] fragment_list fragment_definition = Ok (fragment_list, fragment_definition)"
| "write_fragments device_name (nd # rest) fragment_list fragment_definition =
     and_then (write_fragment_template device_name nd) (\<lambda>fragment.
       write_fragments device_name rest (fragment_list @ '', '' @ fragment_name device_name nd)
         (fragment_definition @ [CHR 0x0A] @ fragment))"

definition write_composite_bind_template :: "CompositeBindRules \<Rightarrow> (string, BindcError) result" where
  "write_composite_bind_template bind_rules =
     (let device_name = cbr_device_name bind_rules;
          fragment_list = fragment_name device_name (cbr_primary_node bind_rules) in
      and_then (write_fragment_template device_name (cbr_primary_node bind_rules)) (\<lambda>fragment_definition.
      and_then (write_fragments device_name (cbr_additional_nodes bind_rules) fragment_list fragment_definition)
        (\<lambda>(fragment_list, fragment_definition).
          Ok (composite_bind_template device_name fragment_definition fragment_list))))"

definition open_output :: "Os \<Rightarrow> Path option \<Rightarrow> Path list \<Rightarrow> Path option \<Rightarrow> Path option \<Rightarrow> unit io" where
  "open_output os input includes output depfile =
     (case output of
        None \<Rightarrow> pure_io (Ok ())
      | Some output \<Rightarrow>
          then_io
            (case depfile of
               None \<Rightarrow> pure_io (Ok ())
             | Some filename \<Rightarrow>
                 then_io (context_io (create_file os filename) ''Failed to open depfile'') (\<lambda>_.
                 then_io (context_io (pure_io (write_depfile output input includes)) ''Failed to create depfile'')
                   (\<lambda>depfile_string.
                 then_io (context_io (write_once os (Some filename) (into_bytes depfile_string))
                     ''Failed to write to depfile'') (\<lambda>_. pure_io (Ok ())))))
            (\<lambda>_. context_io (create_file os output) ''Failed to create output file''))"

definition compile_inputs ::
    "(nat \<Rightarrow> nat list \<Rightarrow> nat list) \<Rightarrow> Path \<Rightarrow> Path list \<Rightarrow> bool \<Rightarrow> bool \<Rightarrow> bool \<Rightarrow> CompiledBindRules io" where
  "compile_inputs ord input includes lint disable_autobind use_new_bytecode =
     then_io (read_file input) (\<lambda>rules_str.
     then_io (read_files includes) (\<lambda>libraries.
       pure_io (map_err BcCompilerError
         (compile ord rules_str libraries lint disable_autobind use_new_bytecode))))"

fun write_template :: "CompiledBindRules \<Rightarrow> (string, BindcError) result" where
  "write_template (Bind bind_rules) = write_bind_template bind_rules"
| "write_template (CompositeBind bind_rules) = write_composite_bind_template bind_rules"

definition handle_compile ::
    "Os \<Rightarrow> (nat \<Rightarrow> nat list \<Rightarrow> nat list) \<Rightarrow> Path option \<Rightarrow> Path list \<Rightarrow> bool \<Rightarrow> bool \<Rightarrow> bool \<Rightarrow> bool
     \<Rightarrow> Path option \<Rightarrow> Path option \<Rightarrow> unit io" where
  "handle_compile os ord input includes disable_autobind output_bytecode use_new_bytecode lint output depfile =
     then_io (open_output os input includes output depfile) (\<lambda>_.
     then_io
       (if \<not> disable_autobind then
          case input of
            None \<Rightarrow> pure_io (Err (BcMessage ''An input is required when disable_autobind is false.''))
          | Some input \<Rightarrow> compile_inputs ord input includes lint disable_autobind use_new_bytecode
        else
          case input of
            Some input \<Rightarrow> compile_inputs ord input includes lint disable_autobind use_new_bytecode
          | None \<Rightarrow> pure_io (Ok (empty_bind_rules disable_autobind use_new_bytecode)))
       (\<lambda>compiled_bind_rules.
     if output_bytecode then
       then_io (pure_io (map_err BcEncodeError (encode_to_bytecode compiled_bind_rules))) (\<lambda>bytecode.
         context_io (write_all os output bytecode) ''Failed to write to output file'')
     else
       then_io (pure_io (write_template compiled_bind_rules)) (\<lambda>template.
         context_io (write_all os output (into_bytes template)) ''Failed to write to output file'')))"

section \<open>The generate command\<close>

text \<open>
  \<open>to_uppercase\<close> on identifiers, which the parsers of identifiers restrict to ASCII letters, digits
  and underscores.
\<close>

definition upper_char :: "char \<Rightarrow> char" where
  "upper_char c = (let n = of_char c :: nat in if 97 \<le> n \<and> n \<le> 122 then char_of (n - 32) else c)"

definition to_uppercase :: "string \<Rightarrow> string" where
  "to_uppercase s = map upper_char s"

definition generate_declaration_name :: "string \<Rightarrow> LibraryValue \<Rightarrow> string" where
  "generate_declaration_name name v =
     to_uppercase
       (case v of
          LvNumber value_name _ \<Rightarrow> name @ ''_'' @ value_name
        | LvStr value_name _ \<Rightarrow> name @ ''_'' @ value_name
        | LvBool value_name _ \<Rightarrow> name @ ''_'' @ value_name
        | LvEnum value_name \<Rightarrow> name @ ''_'' @ value_name)"

definition duplicate_name :: "string \<Rightarrow> BindcError" where
  "duplicate_name name = BcMessage (''Name '' @ quote name @ '' generated for more than one key'')"

fun check_values :: "string \<Rightarrow> LibraryValue list \<Rightarrow> string set \<Rightarrow> (string set, BindcError) result" where
  "check_values identifier [] names = Ok names"
| "check_values identifier (v # vs) names =
     (let name = generate_declaration_name identifier v in
      if name \<in> names then Err (duplicate_name name)
      else check_values identifier vs (insert name names))"

fun check_names_from :: "Declaration list \<Rightarrow> string set \<Rightarrow> (unit, BindcError) result" where
  "check_names_from [] names = Ok ()"
| "check_names_from (d # ds) names =
     and_then (check_values (ci_name (dc_identifier d)) (dc_values d) names) (check_names_from ds)"

definition check_names :: "Declaration list \<Rightarrow> (unit, BindcError) result" where
  "check_names declarations = check_names_from declarations {}"

fun fidl_value :: "string \<Rightarrow> LibraryValue \<Rightarrow> string" where
  "fidl_value name (LvNumber _ val) = ''const '' @ name @ '' fdf.NodePropertyValueUint = '' @ fmt_dec val @ '';''"
| "fidl_value name (LvStr _ val) = ''const '' @ name @ '' fdf.NodePropertyValueString = '' @ quote val @ '';''"
| "fidl_value name (LvBool _ val) =
     ''const '' @ name @ '' fdf.NodePropertyValueBool = '' @ (if val then ''true'' else ''false'') @ '';''"
| "fidl_value name (LvEnum _) = ''const '' @ name @ ''; fdf.NodePropertyValueEnum''"

definition convert_to_fidl_constant :: "Declaration \<Rightarrow> string \<Rightarrow> string" where
  "convert_to_fidl_constant declaration path =
     (let identifier_name = to_uppercase (ci_name (dc_identifier declaration)) in
      (if \<not> dc_extends declaration
       then writeln (''const '' @ identifier_name @ '' fdf.NodePropertyKeyString = ''
              @ quote (path @ ''.'' @ identifier_name) @ '';'')
       else [])
      @ concat (map (\<lambda>v. writeln (fidl_value (generate_declaration_name identifier_name v) v)) (dc_values declaration)))"

definition write_fidl_template :: "LibraryAst \<Rightarrow> (string, BindcError) result" where
  "write_fidl_template syntax_tree =
     (let bind_name = ci_to_string (lib_name syntax_tree);
          lib_text = ''bind.'' @ bind_name in
      and_then (check_names (lib_declarations syntax_tree)) (\<lambda>_.
        let definition_text =
          join (map (\<lambda>d. convert_to_fidl_constant d bind_name) (lib_declarations syntax_tree)) [CHR 0x0A] in
        Ok (fidl_template lib_text definition_text)))"

definition handle_generate :: "Os \<Rightarrow> Path option \<Rightarrow> bool \<Rightarrow> Path option \<Rightarrow> unit io" where
  "handle_generate os input lint output =
     (case input of
        None \<Rightarrow> pure_io (Err (BcMessage ''An input is required.''))
      | Some input \<Rightarrow>
          then_io (read_file input) (\<lambda>input_content.
          then_io (pure_io (map_err (\<lambda>e. BcCompilerError (CeBindParserError e)) (library_try_from input_content)))
            (\<lambda>keys.
          then_io (pure_io (if lint then map_err (\<lambda>e. BcCompilerError (CeLinterError e)) (lint_library keys) else Ok ()))
            (\<lambda>_.
          then_io (pure_io (write_fidl_template keys)) (\<lambda>template.
          then_io
            (case output of
               Some output \<Rightarrow> context_io (create_file os output) ''Failed to create output file.''
             | None \<Rightarrow> pure_io (Ok ())) (\<lambda>_.
            context_io (write_all os output (into_bytes template)) ''Failed to write to output file''))))))"

section \<open>Commands\<close>

text \<open>
  The lines that the debugger prints come with its answer. Lines before a failure in printing them
  are not recorded.
\<close>

record SharedOptions =
  so_include :: "Path list"
  so_include_file :: "Path option"
  so_input :: "Path option"
  so_lint :: bool

text \<open>The fields of \<open>Compile\<close> are the output, the depfile and the three flags in their order.\<close>

datatype Command =
    CmdCompile SharedOptions "Path option" "Path option" bool bool bool
  | CmdDebug SharedOptions Path
  | CmdTest SharedOptions Path
  | CmdGenerate SharedOptions "Path option"

definition require_input :: "SharedOptions \<Rightarrow> string \<Rightarrow> Path io" where
  "require_input options message =
     pure_io (case so_input options of Some input \<Rightarrow> Ok input | None \<Rightarrow> Err (BcMessage message))"

fun handle_command ::
    "Os \<Rightarrow> (nat \<Rightarrow> nat list \<Rightarrow> nat list) \<Rightarrow> ('j, 's) JsonOps \<Rightarrow> Command \<Rightarrow> unit io" where
  "handle_command os ord json (CmdDebug options device_file) =
     then_io (handle_includes (so_include options) (so_include_file options)) (\<lambda>includes.
     then_io (read_files includes) (\<lambda>libraries.
     then_io (require_input options ''The debug command requires an input.'') (\<lambda>input.
     then_io (read_file input) (\<lambda>rules_str.
     then_io (pure_io (map_err BcCompilerError
         (compile_bind ord rules_str libraries (so_lint options) False False))) (\<lambda>bind_rules.
     then_io (read_file device_file) (\<lambda>device.
     then_io (pure_io (map_err BcDebuggerError (debug_from_str bind_rules device))) (\<lambda>(binds, logged).
     then_io (print_lines os logged) (\<lambda>_.
       println os (if binds then ''Driver binds to device.'' else ''Driver doesn'' @ [CHR 0x27] @ ''t bind to device.'')))))))))"
| "handle_command os ord json (CmdTest options test_spec) =
     then_io (require_input options ''The test command requires an input.'') (\<lambda>input.
     then_io (read_file input) (\<lambda>rules_str.
     then_io (handle_includes (so_include options) (so_include_file options)) (\<lambda>includes.
     then_io (read_files includes) (\<lambda>libraries.
     then_io (read_file test_spec) (\<lambda>test_spec.
     then_io (pure_io (map_err BcTestError (run_tests ord json rules_str libraries test_spec))) (\<lambda>passed.
       pure_io (if \<not> passed then Err (BcMessage ''Test failed'') else Ok ())))))))"
| "handle_command os ord json
     (CmdCompile options output depfile disable_autobind output_bytecode use_new_bytecode) =
     then_io (handle_includes (so_include options) (so_include_file options)) (\<lambda>includes.
       handle_compile os ord (so_input options) includes disable_autobind output_bytecode use_new_bytecode
         (so_lint options) output depfile)"
| "handle_command os ord json (CmdGenerate options output) =
     handle_generate os (so_input options) (so_lint options) output"

text \<open>
  \<open>main\<close>: the exit status and the text on the error stream. The parameter \<open>io_text\<close> is what the
  system says of a failed operation on a file. A panic exits with 101.
\<close>

fun bindc_error_to_string :: "string \<Rightarrow> (string \<Rightarrow> string) \<Rightarrow> BindcError \<Rightarrow> string" where
  "bindc_error_to_string io_text dbg (BcMessage message) = message"
| "bindc_error_to_string io_text dbg BcIoError = io_text"
| "bindc_error_to_string io_text dbg (BcCompilerError e) = user_error_to_string (user_error_of_compiler e)"
| "bindc_error_to_string io_text dbg (BcEncodeError e) = user_error_to_string (user_error_of_encode e)"
| "bindc_error_to_string io_text dbg (BcDebuggerError e) = user_error_to_string (user_error_of_offline_debugger dbg e)"
| "bindc_error_to_string io_text dbg (BcTestError e) = user_error_to_string (user_error_of_test dbg e)"

definition bindc_main ::
    "Os \<Rightarrow> (nat \<Rightarrow> nat list \<Rightarrow> nat list) \<Rightarrow> ('j, 's) JsonOps \<Rightarrow> string \<Rightarrow> (string \<Rightarrow> string) \<Rightarrow> Command
     \<Rightarrow> World \<Rightarrow> nat \<times> string option \<times> World" where
  "bindc_main os ord json io_text dbg command w =
     (case handle_command os ord json command w of
        (Ok _, w) \<Rightarrow> (0, None, w)
      | (Err err, w) \<Rightarrow> (1, Some (writeln (bindc_error_to_string io_text dbg err)), w)
      | (Panic, w) \<Rightarrow> (101, None, w))"

end
