(* ===== verification/Driver_Index.thy ===== *)
theory Driver_Index
  imports Bind_Decoder "HOL-Library.Multiset"
begin

text \<open>
  The driver index (\<open>src/devices/bin/driver-index/src/main.rs\<close>): the component that loads drivers
  with their bind rules and matches devices to them. Uniform resource locators are the type
  parameter \<open>'u\<close>; the operations of the crate \<open>url\<close> that the code uses are the record
  \<open>UrlOps\<close>, a parameter of the definitions. The messages are the FIDL types of
  \<open>fuchsia.driver.framework\<close> and \<open>fuchsia.driver.development\<close>.
\<close>

section \<open>Messages\<close>

datatype NodePropertyKey = NkIntValue u32 | NkStringValue string
datatype NodePropertyValue = NvIntValue u32 | NvStringValue string | NvBoolValue bool

record NodeProperty =
  np_key :: "NodePropertyKey option"
  np_value :: "NodePropertyValue option"

record NodeAddArgs =
  na_properties :: "NodeProperty list option"

record MatchedDriver =
  md_url :: "string option"
  md_node_index :: "u32 option"
  md_num_nodes :: "u32 option"
  md_driver_url :: "string option"
  md_composite_name :: "string option"
  md_composite_node_names :: "string list option"
  md_colocate :: "bool option"

definition empty_matched_driver :: MatchedDriver where
  "empty_matched_driver =
     \<lparr>md_url = None, md_node_index = None, md_num_nodes = None, md_driver_url = None, md_composite_name = None,
      md_composite_node_names = None, md_colocate = None\<rparr>"

record DriverInfo =
  di_libname :: "string option"
  di_url :: "string option"
  di_bind_rules :: "u8 list option"

datatype zx_status = INVALID_ARGS | NOT_FOUND

section \<open>Components\<close>

datatype DictionaryValue = DvStr string | DvStrVec "string list"

record DictionaryEntry =
  de_key :: string
  de_value :: "DictionaryValue option"

record ComponentDecl =
  cd_runner :: "string option"
  cd_program :: "DictionaryEntry list option option"

text \<open>
  The first entry with the key decides. The operators \<open>?\<close> return \<open>None\<close> from the function.
\<close>

fun find_string_entry :: "DictionaryEntry list \<Rightarrow> string \<Rightarrow> string option" where
  "find_string_entry [] key = None"
| "find_string_entry (entry # entries) key =
     (if de_key entry = key
      then (case de_value entry of Some (DvStr s) \<Rightarrow> Some s | Some (DvStrVec _) \<Rightarrow> None | None \<Rightarrow> None)
      else find_string_entry entries key)"

definition get_rules_string_value :: "ComponentDecl \<Rightarrow> string \<Rightarrow> string option" where
  "get_rules_string_value component key =
     (case cd_program component of
        Some (Some entries) \<Rightarrow> find_string_entry entries key
      | _ \<Rightarrow> None)"

fun key_of_node :: "NodePropertyKey \<Rightarrow> PropertyKey" where
  "key_of_node (NkIntValue i) = NumberKey (ucast i)"
| "key_of_node (NkStringValue s) = StringKey s"

fun value_of_node :: "NodePropertyValue \<Rightarrow> Symbol" where
  "value_of_node (NvIntValue i) = NumberValue (ucast i)"
| "value_of_node (NvStringValue s) = StringValue s"
| "value_of_node (NvBoolValue b) = BoolValue b"

fun insert_node_properties :: "NodeProperty list \<Rightarrow> DeviceProperties \<Rightarrow> (DeviceProperties, zx_status) result" where
  "insert_node_properties [] device_properties = Ok device_properties"
| "insert_node_properties (p # ps) device_properties =
     (case (np_key p, np_value p) of
        (Some k, Some v) \<Rightarrow> insert_node_properties ps (device_properties(key_of_node k \<mapsto> value_of_node v))
      | _ \<Rightarrow> Err INVALID_ARGS)"

definition node_to_device_property :: "NodeProperty list \<Rightarrow> (DeviceProperties, zx_status) result" where
  "node_to_device_property node_properties = insert_node_properties node_properties Map.empty"

section \<open>Drivers\<close>

record 'u UrlOps =
  url_as_str :: "'u \<Rightarrow> string"
  url_set_fragment :: "string option \<Rightarrow> 'u \<Rightarrow> 'u"
  url_fragment :: "'u \<Rightarrow> string option"
  url_parse :: "string \<Rightarrow> 'u option"

record 'u ResolvedDriver =
  rd_component_url :: 'u
  rd_v1_driver_path :: "string option"
  rd_bind_rules :: DecodedRules
  rd_colocate :: bool

datatype LoadError =
    LeMissingFragment
  | LeReadComponent
  | LeMissingBindPath
  | LeReadBind
  | LeParseBind BytecodeError
  | LeResolvePackage
  | LeNotDriverComponent
  | LeUrl
  | LeReadDirectory
  | LeReadManifest

text \<open>
  \<open>load_driver\<close> with the two files it reads as functions of their path: the declaration of the
  component, and the bytes of the bind rules.
\<close>

definition load_driver ::
    "'u UrlOps \<Rightarrow> (string \<rightharpoonup> ComponentDecl) \<Rightarrow> (string \<rightharpoonup> u8 list) \<Rightarrow> 'u
     \<Rightarrow> ('u ResolvedDriver option, LoadError) result" where
  "load_driver ops read_component read_bytes component_url =
     and_then (ok_or (url_fragment ops component_url) LeMissingFragment) (\<lambda>path.
     and_then (ok_or (read_component path) LeReadComponent) (\<lambda>component.
       if cd_runner component \<noteq> Some ''driver'' then Ok None
       else
         and_then (ok_or (get_rules_string_value component ''bind'') LeMissingBindPath) (\<lambda>bind_path.
         and_then (ok_or (read_bytes bind_path) LeReadBind) (\<lambda>bytes.
         and_then (map_err LeParseBind (new_DecodedRules bytes)) (\<lambda>rules.
           Ok (Some
             \<lparr>rd_component_url = component_url,
              rd_v1_driver_path = get_rules_string_value component ''compat'',
              rd_bind_rules = rules,
              rd_colocate = (get_rules_string_value component ''colocate'' = Some ''true'')\<rparr>))))))"

text \<open>The loop of \<open>load_boot_drivers\<close>: a driver that fails to load is skipped.\<close>

definition ends_with :: "string \<Rightarrow> string \<Rightarrow> bool" where
  "ends_with suffix s \<longleftrightarrow> drop (length s - length suffix) s = suffix"

fun boot_loop ::
    "'u UrlOps \<Rightarrow> ('u \<Rightarrow> ('u ResolvedDriver option, LoadError) result) \<Rightarrow> string list \<Rightarrow> 'u ResolvedDriver list
     \<Rightarrow> ('u ResolvedDriver list, LoadError) result" where
  "boot_loop ops load [] drivers = Ok drivers"
| "boot_loop ops load (name # names) drivers =
     and_then (ok_or (url_parse ops (''fuchsia-boot:///#meta/'' @ name)) LeUrl) (\<lambda>url.
       case load url of
         Ok (Some driver) \<Rightarrow> boot_loop ops load names (drivers @ [driver])
       | Ok None \<Rightarrow> boot_loop ops load names drivers
       | Err _ \<Rightarrow> boot_loop ops load names drivers
       | Panic \<Rightarrow> Panic)"

text \<open>The directory \<open>meta\<close> as its entries, each with the kind file or not.\<close>

definition load_boot_drivers ::
    "'u UrlOps \<Rightarrow> (string \<rightharpoonup> ComponentDecl) \<Rightarrow> (string \<rightharpoonup> u8 list) \<Rightarrow> (bool \<times> string) list option
     \<Rightarrow> ('u ResolvedDriver list, LoadError) result" where
  "load_boot_drivers ops read_component read_bytes meta =
     and_then (ok_or meta LeReadDirectory) (\<lambda>entries.
       boot_loop ops (load_driver ops read_component read_bytes)
         (map snd (filter (\<lambda>(is_file, name). is_file \<and> ends_with ''.cm'' name) entries)) [])"

section \<open>Matching a driver\<close>

fun composite_nodes_loop ::
    "DecodedSymbols \<Rightarrow> DeviceProperties \<Rightarrow> nat \<Rightarrow> DecodedNode list \<Rightarrow> (u32 option, BytecodeError) result" where
  "composite_nodes_loop st properties i [] = Ok None"
| "composite_nodes_loop st properties i (nd # nds) =
     and_then (match_bind \<lparr>mbd_symbol_table = st, mbd_instructions = nd_instructions nd\<rparr> properties) (\<lambda>matches.
       if matches then Ok (Some (as_u32 (i + 1))) else composite_nodes_loop st properties (Suc i) nds)"

definition matches_composite_device ::
    "DecodedCompositeBindRules \<Rightarrow> DeviceProperties \<Rightarrow> (u32 option, BytecodeError) result" where
  "matches_composite_device rules properties =
     and_then
       (match_bind
         \<lparr>mbd_symbol_table = dcr_symbol_table rules, mbd_instructions = nd_instructions (dcr_primary_node rules)\<rparr>
         properties) (\<lambda>matches.
       if matches then Ok (Some 0)
       else composite_nodes_loop (dcr_symbol_table rules) properties 0 (dcr_additional_nodes rules))"

definition create_matched_driver :: "'u UrlOps \<Rightarrow> 'u ResolvedDriver \<Rightarrow> MatchedDriver" where
  "create_matched_driver ops d =
     empty_matched_driver
       \<lparr>md_url := Some (url_as_str ops (rd_component_url d)),
        md_driver_url :=
          (case rd_v1_driver_path d of
             Some p \<Rightarrow> Some (url_as_str ops (url_set_fragment ops (Some p) (rd_component_url d)))
           | None \<Rightarrow> None),
        md_colocate := Some (rd_colocate d)\<rparr>"

text \<open>Indexing a \<open>HashMap\<close> panics on a missing key.\<close>

definition driver_matches ::
    "'u UrlOps \<Rightarrow> 'u ResolvedDriver \<Rightarrow> DeviceProperties \<Rightarrow> (MatchedDriver option, BytecodeError) result" where
  "driver_matches ops d properties =
     (case rd_bind_rules d of
        Normal rules \<Rightarrow>
          and_then
            (match_bind
              \<lparr>mbd_symbol_table = dbr_symbol_table rules, mbd_instructions = dbr_instructions rules\<rparr> properties)
            (\<lambda>matches. Ok (if matches then Some (create_matched_driver ops d) else None))
      | Composite composite \<Rightarrow>
          and_then (matches_composite_device composite properties) (\<lambda>res.
            case res of
              None \<Rightarrow> Ok None
            | Some node_index \<Rightarrow>
                and_then (unwrap (dcr_symbol_table composite (dcr_device_name_id composite))) (\<lambda>composite_name.
                and_then (unwrap (dcr_symbol_table composite (nd_name_id (dcr_primary_node composite)))) (\<lambda>primary_name.
                and_then
                  (collect_results (\<lambda>nd. unwrap (dcr_symbol_table composite (nd_name_id nd)))
                    (dcr_additional_nodes composite)) (\<lambda>names.
                  Ok (Some
                    ((create_matched_driver ops d)
                       \<lparr>md_node_index := Some node_index,
                        md_num_nodes := Some (as_u32 (length (dcr_additional_nodes composite) + 1)),
                        md_composite_name := Some composite_name,
                        md_composite_node_names := Some (primary_name # names)\<rparr>)))))))"

definition create_driver_info :: "'u UrlOps \<Rightarrow> 'u ResolvedDriver \<Rightarrow> DriverInfo" where
  "create_driver_info ops d =
     \<lparr>di_libname = Some (url_as_str ops (url_set_fragment ops (rd_v1_driver_path d) (rd_component_url d))),
      di_url = Some (url_as_str ops (rd_component_url d)),
      di_bind_rules = (case rd_bind_rules d of Normal rules \<Rightarrow> Some (dbr_instructions rules) | Composite _ \<Rightarrow> None)\<rparr>"

end
