(* ===== verification/Driver_Index_Server.thy ===== *)
theory Driver_Index_Server
  imports Driver_Index
begin

text \<open>
  The index itself (\<open>struct Indexer\<close>) and the servers of its protocols: \<open>run_index_server\<close>,
  \<open>run_driver_development_server\<close> and \<open>run_driver_info_iterator_server\<close>. Responders are the type
  parameter \<open>'r\<close>. Whether sending to a responder succeeds is the parameter \<open>send\<close>.
\<close>

section \<open>The index\<close>

datatype ('u, 'r) BaseRepo = Resolved "'u ResolvedDriver list" | NotResolved "'r list"

record ('u, 'r) Indexer =
  boot_repo :: "'u ResolvedDriver list"
  base_repo :: "('u, 'r) BaseRepo"

definition new_indexer :: "'u ResolvedDriver list \<Rightarrow> ('u, 'r) BaseRepo \<Rightarrow> ('u, 'r) Indexer" where
  "new_indexer boot base = \<lparr>boot_repo = boot, base_repo = base\<rparr>"

text \<open>The waiters are popped from the end; the second result lists them in the order of the answers.\<close>

definition load_base_repo :: "('u, 'r) BaseRepo \<Rightarrow> ('u, 'r) Indexer \<Rightarrow> ('u, 'r) Indexer \<times> 'r list" where
  "load_base_repo base ix =
     (ix\<lparr>base_repo := base\<rparr>,
      case base_repo ix of NotResolved waiters \<Rightarrow> rev waiters | Resolved _ \<Rightarrow> [])"

fun first_match ::
    "'u UrlOps \<Rightarrow> DeviceProperties \<Rightarrow> 'u ResolvedDriver list \<Rightarrow> (MatchedDriver option, zx_status) result" where
  "first_match ops properties [] = Ok None"
| "first_match ops properties (d # ds) =
     (case driver_matches ops d properties of
        Ok (Some m) \<Rightarrow> Ok (Some m)
      | Panic \<Rightarrow> Panic
      | _ \<Rightarrow> first_match ops properties ds)"

definition match_driver :: "'u UrlOps \<Rightarrow> ('u, 'r) Indexer \<Rightarrow> NodeAddArgs \<Rightarrow> (MatchedDriver, zx_status) result" where
  "match_driver ops ix args =
     and_then (ok_or (na_properties args) INVALID_ARGS) (\<lambda>properties.
     and_then (node_to_device_property properties) (\<lambda>properties.
     and_then (first_match ops properties (boot_repo ix)) (\<lambda>m.
       case m of
         Some m \<Rightarrow> Ok m
       | None \<Rightarrow>
           (case base_repo ix of
              NotResolved _ \<Rightarrow> Err NOT_FOUND
            | Resolved drivers \<Rightarrow>
                and_then (first_match ops properties drivers) (\<lambda>m. ok_or m NOT_FOUND)))))"

fun all_matches ::
    "'u UrlOps \<Rightarrow> DeviceProperties \<Rightarrow> 'u ResolvedDriver list \<Rightarrow> (MatchedDriver list, zx_status) result" where
  "all_matches ops properties [] = Ok []"
| "all_matches ops properties (d # ds) =
     (case driver_matches ops d properties of
        Ok (Some m) \<Rightarrow> and_then (all_matches ops properties ds) (\<lambda>ms. Ok (m # ms))
      | Panic \<Rightarrow> Panic
      | _ \<Rightarrow> all_matches ops properties ds)"

definition base_drivers :: "('u, 'r) Indexer \<Rightarrow> 'u ResolvedDriver list" where
  "base_drivers ix = (case base_repo ix of Resolved drivers \<Rightarrow> drivers | NotResolved _ \<Rightarrow> [])"

definition match_drivers_v1 ::
    "'u UrlOps \<Rightarrow> ('u, 'r) Indexer \<Rightarrow> NodeAddArgs \<Rightarrow> (MatchedDriver list, zx_status) result" where
  "match_drivers_v1 ops ix args =
     and_then (ok_or (na_properties args) INVALID_ARGS) (\<lambda>properties.
     and_then (node_to_device_property properties) (\<lambda>properties.
       all_matches ops properties (boot_repo ix @ base_drivers ix)))"

definition passes_filter :: "'u UrlOps \<Rightarrow> string list \<Rightarrow> 'u ResolvedDriver \<Rightarrow> bool" where
  "passes_filter ops driver_filter d \<longleftrightarrow>
     driver_filter = [] \<or> list_ex (\<lambda>f. f = url_as_str ops (rd_component_url d)) driver_filter"

definition get_driver_info :: "'u UrlOps \<Rightarrow> ('u, 'r) Indexer \<Rightarrow> string list \<Rightarrow> DriverInfo list" where
  "get_driver_info ops ix driver_filter =
     map (create_driver_info ops) (filter (passes_filter ops driver_filter) (boot_repo ix))
     @ (case base_repo ix of
          Resolved drivers \<Rightarrow> map (create_driver_info ops) (filter (passes_filter ops driver_filter) drivers)
        | NotResolved _ \<Rightarrow> [])"

section \<open>The servers\<close>

datatype SendOutcome = SendOk | SendPeerClosed | SendFailed

datatype Response =
    MatchDriverResponse "(MatchedDriver, zx_status) result"
  | WaitForBaseDriversResponse
  | MatchDriversV1Response "(MatchedDriver list, zx_status) result"

datatype 'r IndexRequest =
    MatchDriver NodeAddArgs 'r
  | WaitForBaseDrivers 'r
  | MatchDriversV1 NodeAddArgs 'r

datatype ServerError = FailedRequest | ErrorResponding | BadIterator

definition ignore_peer_closed :: "SendOutcome \<Rightarrow> (unit, ServerError) result" where
  "ignore_peer_closed outcome = (case outcome of SendFailed \<Rightarrow> Err ErrorResponding | _ \<Rightarrow> Ok ())"

text \<open>
  One request of \<open>run_index_server\<close>: the index afterwards, and what was sent. A panic of the match
  is a panic of the server.
\<close>

fun handle_index_request ::
    "'u UrlOps \<Rightarrow> ('r \<Rightarrow> SendOutcome) \<Rightarrow> 'r IndexRequest \<Rightarrow> ('u, 'r) Indexer
     \<Rightarrow> (('u, 'r) Indexer \<times> ('r \<times> Response) list, ServerError) result" where
  "handle_index_request ops send (MatchDriver args responder) ix =
     (if match_driver ops ix args = Panic then Panic
      else
        and_then (ignore_peer_closed (send responder)) (\<lambda>_.
          Ok (ix, [(responder, MatchDriverResponse (match_driver ops ix args))])))"
| "handle_index_request ops send (WaitForBaseDrivers responder) ix =
     (case base_repo ix of
        Resolved _ \<Rightarrow>
          and_then (ignore_peer_closed (send responder)) (\<lambda>_. Ok (ix, [(responder, WaitForBaseDriversResponse)]))
      | NotResolved waiters \<Rightarrow> Ok (ix\<lparr>base_repo := NotResolved (waiters @ [responder])\<rparr>, []))"
| "handle_index_request ops send (MatchDriversV1 args responder) ix =
     (if match_drivers_v1 ops ix args = Panic then Panic
      else
        and_then (ignore_peer_closed (send responder)) (\<lambda>_.
          Ok (ix, [(responder, MatchDriversV1Response (match_drivers_v1 ops ix args))])))"

text \<open>
  The requests of one client in the order of its stream, where nothing stands for an item that
  could not be read. The first error ends the server of this client.
\<close>

fun run_index_server ::
    "'u UrlOps \<Rightarrow> ('r \<Rightarrow> SendOutcome) \<Rightarrow> 'r IndexRequest option list \<Rightarrow> ('u, 'r) Indexer
     \<Rightarrow> (('u, 'r) Indexer \<times> ('r \<times> Response) list, ServerError) result" where
  "run_index_server ops send [] ix = Ok (ix, [])"
| "run_index_server ops send (item # stream) ix =
     and_then (ok_or item FailedRequest) (\<lambda>request.
     and_then (handle_index_request ops send request ix) (\<lambda>(ix, sent).
     and_then (run_index_server ops send stream ix) (\<lambda>(ix, later). Ok (ix, sent @ later))))"

text \<open>\<open>DriverInfoIterator.GetNext\<close>: the last hundred drivers that are left, and the rest.\<close>

definition info_get_next :: "DriverInfo list \<Rightarrow> (DriverInfo list \<times> DriverInfo list, 'e) result" where
  "info_get_next driver_info =
     and_then (split_off driver_info (length driver_info - min 100 (length driver_info)))
       (\<lambda>(rest, result). Ok (result, rest))"

fun run_driver_info_iterator_server ::
    "('r \<Rightarrow> SendOutcome) \<Rightarrow> 'r option list \<Rightarrow> DriverInfo list \<Rightarrow> (('r \<times> DriverInfo list) list, ServerError) result" where
  "run_driver_info_iterator_server send [] driver_info = Ok []"
| "run_driver_info_iterator_server send (item # stream) driver_info =
     and_then (ok_or item FailedRequest) (\<lambda>responder.
     and_then (info_get_next driver_info) (\<lambda>(result, driver_info).
     and_then (ignore_peer_closed (send responder)) (\<lambda>_.
     and_then (run_driver_info_iterator_server send stream driver_info) (\<lambda>sent.
       Ok ((responder, result) # sent)))))"

text \<open>
  One request of \<open>run_driver_development_server\<close>: the task that serves the iterator, given the
  requests that will arrive on it. An error of that task is a panic by \<open>expect\<close>.
\<close>

definition handle_development_request ::
    "'u UrlOps \<Rightarrow> ('r \<Rightarrow> SendOutcome) \<Rightarrow> ('u, 'r) Indexer \<Rightarrow> string list \<Rightarrow> 'r option list option
     \<Rightarrow> (('r \<times> DriverInfo list) list, ServerError) result" where
  "handle_development_request ops send ix driver_filter iterator =
     and_then (ok_or iterator BadIterator) (\<lambda>stream.
       case run_driver_info_iterator_server send stream (get_driver_info ops ix driver_filter) of
         Ok sent \<Rightarrow> Ok sent
       | Err _ \<Rightarrow> Panic
       | Panic \<Rightarrow> Panic)"

section \<open>Base drivers\<close>

text \<open>
  \<open>ResolvedDriver::resolve\<close>: the package of the driver, as the files that can be read from it, is the
  answer of the resolver to the locator without fragment.
\<close>

definition resolve_driver ::
    "'u UrlOps \<Rightarrow> (string \<rightharpoonup> (string \<rightharpoonup> ComponentDecl) \<times> (string \<rightharpoonup> u8 list)) \<Rightarrow> 'u
     \<Rightarrow> ('u ResolvedDriver, LoadError) result" where
  "resolve_driver ops resolver component_url =
     and_then (ok_or (resolver (url_as_str ops (url_set_fragment ops None component_url))) LeResolvePackage)
       (\<lambda>(read_component, read_bytes).
     and_then (load_driver ops read_component read_bytes component_url) (\<lambda>driver.
       ok_or driver LeNotDriverComponent))"

fun base_loop ::
    "'u UrlOps \<Rightarrow> ('u \<Rightarrow> ('u ResolvedDriver, LoadError) result) \<Rightarrow> string list \<Rightarrow> 'u ResolvedDriver list
     \<Rightarrow> ('u ResolvedDriver list, LoadError) result" where
  "base_loop ops resolve_one [] resolved_drivers = Ok resolved_drivers"
| "base_loop ops resolve_one (driver_url # urls) resolved_drivers =
     (case url_parse ops driver_url of
        None \<Rightarrow> base_loop ops resolve_one urls resolved_drivers
      | Some url \<Rightarrow>
          (case resolve_one url of
             Ok r \<Rightarrow> base_loop ops resolve_one urls (resolved_drivers @ [r])
           | Err _ \<Rightarrow> base_loop ops resolve_one urls resolved_drivers
           | Panic \<Rightarrow> Panic))"

text \<open>
  \<open>load_base_drivers\<close>: the manifest is the list of its locators, or nothing when its package cannot
  be resolved, read or parsed. In that case the index is not changed and the waiters keep waiting.
\<close>

definition load_base_drivers ::
    "'u UrlOps \<Rightarrow> (string \<rightharpoonup> (string \<rightharpoonup> ComponentDecl) \<times> (string \<rightharpoonup> u8 list)) \<Rightarrow> string list option
     \<Rightarrow> ('u, 'r) Indexer \<Rightarrow> (('u, 'r) Indexer \<times> 'r list, LoadError) result" where
  "load_base_drivers ops resolver manifest ix =
     and_then (ok_or manifest LeReadManifest) (\<lambda>urls.
     and_then (base_loop ops (resolve_driver ops resolver) urls []) (\<lambda>resolved_drivers.
       Ok (load_base_repo (Resolved resolved_drivers) ix)))"

end
