(* ===== verification/Driver_Index_Props.thy ===== *)
theory Driver_Index_Props
  imports Driver_Index_Server Decoder_Props
begin

text \<open>
  What the driver index promises: its drivers are well-formed, it finds the first match, it answers
  every waiter once, and loading ends.
\<close>

section \<open>Drivers are well-formed\<close>

text \<open>
  A decoded symbol table numbers strings from 1: none is empty or longer than 255 bytes, and none has
  a zero byte. The instruction sections are within the 32 bits of their length fields, and the names
  of composite rules are in the table.
\<close>

definition table_wf :: "DecodedSymbols \<Rightarrow> bool" where
  "table_wf st \<longleftrightarrow> (\<exists>ss. st = symbols_of ss \<and> list_all good_string ss)"

definition node_wf :: "DecodedSymbols \<Rightarrow> DecodedNode \<Rightarrow> bool" where
  "node_wf st nd \<longleftrightarrow> st (nd_name_id nd) \<noteq> None \<and> length (nd_instructions nd) < 2 ^ 32"

fun rules_wf :: "DecodedRules \<Rightarrow> bool" where
  "rules_wf (Normal r) \<longleftrightarrow> table_wf (dbr_symbol_table r) \<and> length (dbr_instructions r) < 2 ^ 32"
| "rules_wf (Composite r) \<longleftrightarrow>
     table_wf (dcr_symbol_table r) \<and> dcr_symbol_table r (dcr_device_name_id r) \<noteq> None
     \<and> list_all (node_wf (dcr_symbol_table r)) (dcr_primary_node r # dcr_additional_nodes r)"

abbreviation driver_wf :: "'u ResolvedDriver \<Rightarrow> bool" where
  "driver_wf d \<equiv> rules_wf (rd_bind_rules d)"

definition index_wf :: "('u, 'r) Indexer \<Rightarrow> bool" where
  "index_wf ix \<longleftrightarrow> list_all driver_wf (boot_repo ix @ base_drivers ix)"

lemma read_string_good:
  assumes "read_string it = Ok (s, rest)"
  shows "good_string s"
proof -
  have loop: "read_string_loop acc bs = Ok (x, it') \<Longrightarrow> 0 \<notin> set acc \<Longrightarrow> length acc \<le> MAX_STRING_LENGTH \<Longrightarrow>
      0 \<notin> set x \<and> length x \<le> MAX_STRING_LENGTH" for acc bs x it'
    by (induction acc bs rule: read_string_loop.induct) (auto split: if_splits)
  from assms obtain x it' where x: "read_string_loop [] it = Ok (x, it')" "x \<noteq> []" "from_utf8 x = Some s"
    by (auto simp: read_string_def result_simps split: if_splits)
  then have "into_bytes s = x" by (auto simp: from_utf8_def split: if_splits)
  moreover from this have "length s = length x" "s \<noteq> []" using x(2) by (auto simp: into_bytes_def)
  ultimately show ?thesis
    using loop [OF x(1)] from_utf8_rust_string [OF x(3)] by (simp add: good_string_def)
qed

lemma read_symbol_table_loop_wf:
  "read_symbol_table_loop st key it = Ok st' \<Longrightarrow> st = symbols_of ss \<Longrightarrow> unat key = Suc (length ss) \<Longrightarrow>
   list_all good_string ss \<Longrightarrow> table_wf st'"
proof (induction st key it arbitrary: ss rule: read_symbol_table_loop.induct)
  case (1 st key it)
  from "1.prems"(1) obtain k it1 where k: "try_next_u32 it = Ok (k, it1)"
    by (subst (asm) read_symbol_table_loop.simps) (auto simp: result_simps)
  show ?case
  proof (cases k)
    case None
    with "1.prems" k have "st' = symbols_of ss"
      by (subst (asm) read_symbol_table_loop.simps) simp
    with "1.prems"(4) show ?thesis by (auto simp: table_wf_def)
  next
    case (Some key')
    with "1.prems"(1) k obtain s it2 n where step: "key' = key" "read_string it1 = Ok (s, it2)"
      "checked_inc key = (Ok n :: (u32, BytecodeError) result)" "read_symbol_table_loop (st(key \<mapsto> s)) n it2 = Ok st'"
      by (subst (asm) read_symbol_table_loop.simps) (auto simp: result_simps split: if_splits)
    have "table_wf st'"
    proof (rule "1.IH" [where ss = "ss @ [s]", OF k refl Some _ step(2) refl step(3)])
      show "\<not> key' \<noteq> key" using step(1) by simp
    qed (use step "1.prems" read_string_good [OF step(2)] unat_checked_inc [OF step(3)] in
        \<open>simp_all add: symbols_of_snoc fun_upd_def\<close>)
    then show ?thesis .
  qed
qed

lemma get_symbol_table_wf: "get_symbol_table_and_instruction_bytecode bytes = Ok (st, rest) \<Longrightarrow> table_wf st"
  by (auto simp: get_symbol_table_and_instruction_bytecode_def read_symbol_table_def result_simps
      SYMB_TBL_START_KEY_def split: if_splits
      dest!: read_symbol_table_loop_wf [where ss = "[]"])

lemma split_off_node_wf: "split_off_node bc t st = Ok (nd, rest) \<Longrightarrow> node_wf st nd"
  using unat_u32_less
  by (auto simp: split_off_node_def node_wf_def result_simps split_off_def split: if_splits)

lemma additional_nodes_loop_wf:
  "additional_nodes_loop st acc bc = Ok nds \<Longrightarrow> list_all (node_wf st) acc \<Longrightarrow> list_all (node_wf st) nds"
proof (induction st acc bc rule: additional_nodes_loop.induct)
  case (1 st acc bc)
  show ?case
  proof (cases "bc = []")
    case False
    with "1.prems"(1) obtain nd rest where nd: "split_off_node bc RnAdditional st = Ok (nd, rest)"
      "additional_nodes_loop st (acc @ [nd]) rest = Ok nds"
      by (subst (asm) additional_nodes_loop.simps) (auto simp: result_simps)
    from "1.IH" [OF False nd(1) refl nd(2)] "1.prems"(2) split_off_node_wf [OF nd(1)] show ?thesis
      by simp
  qed (use "1.prems" in \<open>simp add: additional_nodes_loop.simps\<close>)
qed

lemma new_DecodedRules_wf:
  assumes "new_DecodedRules bytes = Ok r"
  shows "rules_wf r"
proof -
  from assms obtain st rest where st: "get_symbol_table_and_instruction_bytecode bytes = Ok (st, rest)"
    by (auto simp: new_DecodedRules_def result_simps)
  from assms st consider
      (composite) c where "new_DecodedCompositeBindRules st rest = Ok c" "r = Composite c"
    | (normal) n where "new_DecodedBindRules st rest = Ok n" "r = Normal n"
    by (auto simp: new_DecodedRules_def result_simps split: if_splits)
  then show ?thesis
  proof cases
    case composite
    then show ?thesis
      using get_symbol_table_wf [OF st]
      by (auto simp: new_DecodedCompositeBindRules_def result_simps Let_def split: if_splits
          dest!: split_off_node_wf dest: additional_nodes_loop_wf)
  next
    case normal
    then show ?thesis
      using get_symbol_table_wf [OF st] unat_u32_less
      by (auto simp: new_DecodedBindRules_def result_simps split: if_splits)
  qed
qed

lemma load_driver_wf: "load_driver ops rc rb url = Ok (Some d) \<Longrightarrow> driver_wf d"
  by (auto simp: load_driver_def result_simps split: if_splits dest: new_DecodedRules_wf)

lemma boot_loop_wf:
  assumes "\<And>url d. load url = Ok (Some d) \<Longrightarrow> driver_wf d"
  shows "boot_loop ops load names acc = Ok ds \<Longrightarrow> list_all driver_wf acc \<Longrightarrow> list_all driver_wf ds"
proof (induction names arbitrary: acc)
  case (Cons name names)
  then obtain url where url: "url_parse ops (''fuchsia-boot:///#meta/'' @ name) = Some url"
    by (auto simp: result_simps)
  show ?case
  proof (cases "load url")
    case (Ok d)
    with Cons url assms [of url] show ?thesis by (cases d) auto
  qed (use Cons url in auto)
qed simp

lemma base_loop_wf:
  assumes "\<And>url d. load url = Ok d \<Longrightarrow> driver_wf d"
  shows "base_loop ops load urls acc = Ok ds \<Longrightarrow> list_all driver_wf acc \<Longrightarrow> list_all driver_wf ds"
proof (induction urls arbitrary: acc)
  case (Cons url urls)
  then show ?case
    by (auto simp: result_simps split: result.splits option.splits dest: assms)
qed simp

section \<open>Matching never panics\<close>

lemma match_bind_no_panic: "match_bind data props \<noteq> Panic"
  by (simp add: match_bind_def match_bind_loop_no_panic)

lemma composite_nodes_loop_no_panic: "composite_nodes_loop st props i nds \<noteq> Panic"
  by (induction nds arbitrary: i) (simp_all add: result_simps match_bind_no_panic)

lemma driver_matches_no_panic:
  assumes "driver_wf d"
  shows "driver_matches ops d props \<noteq> Panic"
proof (cases "rd_bind_rules d")
  case (Composite r)
  have "collect_results (\<lambda>nd. unwrap (dcr_symbol_table r (nd_name_id nd))) nds \<noteq> (Panic :: (_, BytecodeError) result)"
    if "list_all (node_wf (dcr_symbol_table r)) nds" for nds
    using that by (induction nds) (auto simp: result_simps node_wf_def)
  with assms Composite show ?thesis
    by (auto simp: node_wf_def driver_matches_def matches_composite_device_def result_simps match_bind_no_panic
        composite_nodes_loop_no_panic split: option.split)
qed (simp add: driver_matches_def result_simps match_bind_no_panic)

section \<open>Device properties\<close>

definition complete_property :: "NodeProperty \<Rightarrow> bool" where
  "complete_property p \<longleftrightarrow> np_key p \<noteq> None \<and> np_value p \<noteq> None"

definition device_of :: "NodeProperty list \<Rightarrow> DeviceProperties" where
  "device_of ps = map_of (rev (map (\<lambda>p. (key_of_node (the (np_key p)), value_of_node (the (np_value p)))) ps))"

lemma insert_node_properties_spec:
  "insert_node_properties ps m = (if list_all complete_property ps then Ok (m ++ device_of ps) else Err INVALID_ARGS)"
proof (induction ps arbitrary: m)
  case (Cons p ps)
  show ?case
  proof (cases "complete_property p")
    case True
    then obtain k v where kv: "np_key p = Some k" "np_value p = Some v"
      by (auto simp: complete_property_def)
    have "m(key_of_node k \<mapsto> value_of_node v) ++ device_of ps = m ++ device_of (p # ps)"
      by (simp add: device_of_def kv map_add_def fun_eq_iff split: option.split)
    with Cons kv True show ?thesis by simp
  qed (auto simp: complete_property_def split: option.split)
qed (simp add: device_of_def)

lemma node_to_device_property_spec:
  "node_to_device_property ps = (if list_all complete_property ps then Ok (device_of ps) else Err INVALID_ARGS)"
  by (simp add: node_to_device_property_def insert_node_properties_spec)

section \<open>The first match\<close>

text \<open>The drivers that match, in order. A driver whose rules fail to evaluate does not match.\<close>

definition match_of :: "'u UrlOps \<Rightarrow> DeviceProperties \<Rightarrow> 'u ResolvedDriver \<Rightarrow> MatchedDriver option" where
  "match_of ops props d = (case driver_matches ops d props of Ok m \<Rightarrow> m | _ \<Rightarrow> None)"

lemma all_matches_spec:
  "list_all driver_wf ds \<Longrightarrow> all_matches ops props ds = Ok (List.map_filter (match_of ops props) ds)"
proof (induction ds)
  case (Cons d ds)
  then show ?case
    using driver_matches_no_panic [of d ops props]
    by (auto simp: match_of_def List.map_filter_simps split: result.split option.split)
qed (simp add: List.map_filter_simps)

lemma first_match_spec:
  "list_all driver_wf ds \<Longrightarrow>
   first_match ops props ds = Ok (case List.map_filter (match_of ops props) ds of [] \<Rightarrow> None | m # _ \<Rightarrow> Some m)"
proof (induction ds)
  case (Cons d ds)
  then show ?case
    using driver_matches_no_panic [of d ops props]
    by (auto simp: match_of_def List.map_filter_simps split: result.split option.split)
qed (simp add: List.map_filter_simps)

lemma map_filter_append: "List.map_filter f (xs @ ys) = List.map_filter f xs @ List.map_filter f ys"
  by (simp add: List.map_filter_def)

definition index_drivers :: "('u, 'r) Indexer \<Rightarrow> 'u ResolvedDriver list" where
  "index_drivers ix = boot_repo ix @ base_drivers ix"

lemma match_driver_wf:
  assumes "index_wf ix"
  shows "match_driver ops ix args =
    (case na_properties args of
       None \<Rightarrow> Err INVALID_ARGS
     | Some ps \<Rightarrow>
         if \<not> list_all complete_property ps then Err INVALID_ARGS
         else
           (case List.map_filter (match_of ops (device_of ps)) (index_drivers ix) of
              [] \<Rightarrow> Err NOT_FOUND
            | m # _ \<Rightarrow> Ok m))"
proof (cases "na_properties args")
  case (Some ps)
  from assms have wf: "list_all driver_wf (boot_repo ix)" "list_all driver_wf (base_drivers ix)"
    by (simp_all add: index_wf_def)
  note first = first_match_spec [OF wf(1)] first_match_spec [OF wf(2)]
  show ?thesis
  proof (cases "base_repo ix")
    case (Resolved ds)
    with first Some show ?thesis
      by (simp add: match_driver_def node_to_device_property_spec index_drivers_def map_filter_append base_drivers_def
          split: list.split)
  next
    case (NotResolved rs)
    with first Some show ?thesis
      by (simp add: match_driver_def node_to_device_property_spec index_drivers_def map_filter_append base_drivers_def
          split: list.split)
  qed
qed (simp add: match_driver_def)

lemma match_drivers_v1_wf:
  assumes "index_wf ix"
  shows "match_drivers_v1 ops ix args =
    (case na_properties args of
       None \<Rightarrow> Err INVALID_ARGS
     | Some ps \<Rightarrow>
         if \<not> list_all complete_property ps then Err INVALID_ARGS
         else Ok (List.map_filter (match_of ops (device_of ps)) (index_drivers ix)))"
  using all_matches_spec [OF assms [unfolded index_wf_def]]
  by (simp add: match_drivers_v1_def node_to_device_property_spec index_drivers_def split: option.split)

lemma map_filter_Cons_iff:
  "(\<exists>ms. List.map_filter f xs = m # ms) \<longleftrightarrow>
   (\<exists>ys x zs. xs = ys @ x # zs \<and> (\<forall>y\<in>set ys. f y = None) \<and> f x = Some m)"
proof (induction xs)
  case (Cons x xs)
  show ?case
  proof (cases "f x")
    case None
    have "(\<exists>ys y zs. x # xs = ys @ y # zs \<and> (\<forall>y\<in>set ys. f y = None) \<and> f y = Some m) \<longleftrightarrow>
      (\<exists>ys y zs. xs = ys @ y # zs \<and> (\<forall>y\<in>set ys. f y = None) \<and> f y = Some m)" (is "?l \<longleftrightarrow> ?r")
    proof
      assume ?l
      then obtain ys y zs where "x # xs = ys @ y # zs" "\<forall>y\<in>set ys. f y = None" "f y = Some m" by blast
      with None show ?r by (cases ys) auto
    next
      assume ?r
      then obtain ys y zs where "xs = ys @ y # zs" "\<forall>y\<in>set ys. f y = None" "f y = Some m" by blast
      with None show ?l by (intro exI [of _ "x # ys"] exI [of _ y] exI [of _ zs]) simp
    qed
    with None Cons show ?thesis by (simp add: List.map_filter_simps)
  next
    case (Some n)
    then show ?thesis
      by (auto simp: List.map_filter_simps Cons_eq_append_conv intro!: exI [of _ "[]"])
  qed
qed (simp add: List.map_filter_simps)

text \<open>
  C7. The driver index finds the first match. A device is matched with the first driver that matches
  its properties, boot drivers before base drivers. Drivers whose rules fail to evaluate are passed
  over. Base drivers count only once they are loaded. No match is \<open>NOT_FOUND\<close>; a device without
  properties, or with a property that lacks its key or its value, is \<open>INVALID_ARGS\<close>.
\<close>

theorem match_driver_first:
  assumes "index_wf ix"
  shows "case match_driver ops ix args of
      Ok m \<Rightarrow>
        (\<exists>ps before d after. na_properties args = Some ps \<and> list_all complete_property ps
           \<and> boot_repo ix @ base_drivers ix = before @ d # after
           \<and> driver_matches ops d (device_of ps) = Ok (Some m)
           \<and> (\<forall>d'\<in>set before. driver_matches ops d' (device_of ps) = Ok None
                \<or> (\<exists>e. driver_matches ops d' (device_of ps) = Err e)))
    | Err NOT_FOUND \<Rightarrow>
        (\<exists>ps. na_properties args = Some ps \<and> list_all complete_property ps
           \<and> (\<forall>d\<in>set (boot_repo ix @ base_drivers ix). driver_matches ops d (device_of ps) = Ok None
                \<or> (\<exists>e. driver_matches ops d (device_of ps) = Err e)))
    | Err INVALID_ARGS \<Rightarrow> (\<forall>ps. na_properties args = Some ps \<longrightarrow> \<not> list_all complete_property ps)
    | Panic \<Rightarrow> False"
proof -
  have none: "match_of ops props d = None \<longleftrightarrow> driver_matches ops d props = Ok None \<or> (\<exists>e. driver_matches ops d props = Err e)"
    and some: "match_of ops props d = Some m \<longleftrightarrow> driver_matches ops d props = Ok (Some m)"
    if "d \<in> set (index_drivers ix)" for props d m
    using that assms driver_matches_no_panic [of d ops props]
    by (auto simp: match_of_def index_wf_def index_drivers_def list_all_iff split: result.splits)
  show ?thesis
  proof (cases "\<exists>ps. na_properties args = Some ps \<and> list_all complete_property ps")
    case True
    then obtain ps where ps: "na_properties args = Some ps" "list_all complete_property ps" by blast
    let ?f = "match_of ops (device_of ps)"
    show ?thesis
    proof (cases "List.map_filter ?f (index_drivers ix)")
      case Nil
      then have "\<forall>d\<in>set (index_drivers ix). ?f d = None"
        by (simp add: List.map_filter_def filter_empty_conv)
      with none ps Nil show ?thesis
        by (simp add: match_driver_wf [OF assms]) (auto simp: index_drivers_def)
    next
      case (Cons m ms)
      then obtain before d after where "index_drivers ix = before @ d # after" "\<forall>d'\<in>set before. ?f d' = None" "?f d = Some m"
        using map_filter_Cons_iff [of ?f "index_drivers ix" m] by blast
      with none [where props = "device_of ps"] some [where props = "device_of ps"] ps Cons show ?thesis
        by (simp add: match_driver_wf [OF assms]) (auto simp: index_drivers_def)
    qed
  next
    case False
    then show ?thesis
      by (auto simp: match_driver_wf [OF assms] split: option.split)
  qed
qed

text \<open>An index with two boot drivers: the rules of the first abort, those of the second always match.\<close>

definition ex_ops :: "(string \<times> string option) UrlOps" where
  "ex_ops =
     \<lparr>url_as_str = (\<lambda>(base, fragment). base @ (case fragment of Some f \<Rightarrow> ''#'' @ f | None \<Rightarrow> [])),
      url_set_fragment = (\<lambda>f (base, _). (base, f)), url_fragment = snd, url_parse = (\<lambda>s. Some (s, None))\<rparr>"

definition ex_driver :: "string \<Rightarrow> u8 list \<Rightarrow> (string \<times> string option) ResolvedDriver" where
  "ex_driver name code =
     \<lparr>rd_component_url = (name, None), rd_v1_driver_path = None,
      rd_bind_rules = Normal \<lparr>dbr_symbol_table = Map.empty, dbr_instructions = code\<rparr>, rd_colocate = False\<rparr>"

definition ex_index :: "(string \<times> string option, nat) Indexer" where
  "ex_index = new_indexer [ex_driver ''a'' [raw_op_byte OpAbort], ex_driver ''b'' []] (NotResolved [])"

lemma ex_index_wf: "index_wf ex_index"
proof -
  have "table_wf Map.empty" by (auto simp: table_wf_def intro: exI [of _ "[]"])
  then show ?thesis by (simp add: index_wf_def ex_index_def new_indexer_def base_drivers_def ex_driver_def)
qed

lemma ex_driver_matches:
  "driver_matches ex_ops (ex_driver name []) props = Ok (Some (create_matched_driver ex_ops (ex_driver name [])))"
  by (simp add: driver_matches_def ex_driver_def match_bind_def)

theorem match_driver_first_witness:
  "\<exists>m. match_driver ex_ops ex_index \<lparr>na_properties = Some []\<rparr> = Ok m \<and>
     (\<exists>before d after. boot_repo ex_index @ base_drivers ex_index = before @ d # after
        \<and> driver_matches ex_ops d (device_of []) = Ok (Some m))"
proof -
  have "ex_driver ''b'' [] \<in> set (boot_repo ex_index @ base_drivers ex_index)"
    by (simp add: ex_index_def new_indexer_def)
  with match_driver_first [OF ex_index_wf, where ops = ex_ops and args = "\<lparr>na_properties = Some []\<rparr>"] ex_driver_matches [of "''b''" "device_of []"]
  show ?thesis
    by (force split: result.splits zx_status.splits)
qed

text \<open>
  C21. The two ways to ask for a driver agree. \<open>MatchDriver\<close> answers with the head of the list that
  \<open>MatchDriversV1\<close> answers with, \<open>NOT_FOUND\<close> when that list is empty, and the same error otherwise.
\<close>

theorem match_driver_v1_equivalent:
  assumes "index_wf ix"
  shows "match_driver ops ix args =
    and_then (match_drivers_v1 ops ix args) (\<lambda>ms. case ms of [] \<Rightarrow> Err NOT_FOUND | m # _ \<Rightarrow> Ok m)"
  by (simp add: match_driver_wf [OF assms] match_drivers_v1_wf [OF assms] split: option.split)

theorem match_driver_v1_equivalent_witness:
  "match_driver ex_ops ex_index \<lparr>na_properties = Some []\<rparr> =
     and_then (match_drivers_v1 ex_ops ex_index \<lparr>na_properties = Some []\<rparr>)
       (\<lambda>ms. case ms of [] \<Rightarrow> Err NOT_FOUND | m # _ \<Rightarrow> Ok m)"
  by (rule match_driver_v1_equivalent [OF ex_index_wf])

section \<open>Driver information in pages\<close>

lemma info_get_next_spec:
  "info_get_next xs = Ok (drop (length xs - 100) xs, take (length xs - 100) xs)"
  by (simp add: info_get_next_def split_off_def min_def)

lemma ignore_peer_closed_ok: "send \<noteq> SendFailed \<Longrightarrow> ignore_peer_closed send = Ok ()"
  by (cases send) (simp_all add: ignore_peer_closed_def)

lemma iterator_pages:
  assumes "list_all (\<lambda>r. send r \<noteq> SendFailed) responders"
  shows "\<exists>sent. run_driver_info_iterator_server send (map Some responders) info = Ok sent
    \<and> map fst sent = responders \<and> list_all (\<lambda>(_, page). length page \<le> 100) sent
    \<and> concat (rev (map snd sent)) = drop (length info - 100 * length responders) info"
  using assms
proof (induction responders arbitrary: info)
  case (Cons r rs)
  let ?n = "length info - 100"
  obtain sent where "run_driver_info_iterator_server send (map Some rs) (take ?n info) = Ok sent"
    "map fst sent = rs" "list_all (\<lambda>(_, page). length page \<le> 100) sent"
    "concat (rev (map snd sent)) = drop (length (take ?n info) - 100 * length rs) (take ?n info)"
    using Cons by fastforce
  moreover have "drop (?n - 100 * length rs) (take ?n info) @ drop ?n info = drop (?n - 100 * length rs) info"
    using drop_append [of "?n - 100 * length rs" "take ?n info" "drop ?n info"] by simp
  ultimately show ?case
    using Cons.prems by (simp add: info_get_next_spec ignore_peer_closed_ok diff_diff_left)
qed simp

text \<open>
  C22. Driver information in pages. A client asks for the drivers that pass its filter, boot drivers
  before base drivers, and calls \<open>GetNext\<close> some number of times. Every call is answered, with at most
  a hundred drivers. Put together from the last to the first, the pages are the end of the list,
  a hundred drivers for each call: after enough calls the whole list, with nothing lost or repeated.
  This holds for every filter. An entry of the filter that names no driver adds nothing and is no
  error, where \<open>development.fidl\<close> documents that the iterator is closed with \<open>ZX_ERR_NOT_FOUND\<close>.
\<close>

theorem driver_info_pages:
  assumes "list_all (\<lambda>r. send r \<noteq> SendFailed) responders"
    and "info = map (create_driver_info ops) (filter (passes_filter ops driver_filter) (boot_repo ix @ base_drivers ix))"
  shows "\<exists>sent. handle_development_request ops send ix driver_filter (Some (map Some responders)) = Ok sent
    \<and> map fst sent = responders \<and> list_all (\<lambda>(_, page). length page \<le> 100) sent
    \<and> concat (rev (map snd sent)) = drop (length info - 100 * length responders) info"
proof -
  have "get_driver_info ops ix driver_filter = info"
    by (simp add: assms(2) get_driver_info_def base_drivers_def split: BaseRepo.split)
  then show ?thesis
    using iterator_pages [OF assms(1), of info] by (auto simp: handle_development_request_def)
qed

theorem driver_info_pages_witness:
  "\<exists>sent. handle_development_request ex_ops (\<lambda>_. SendOk) ex_index [] (Some [Some 1, Some 2]) = Ok sent
    \<and> map fst sent = [1, 2]
    \<and> concat (rev (map snd sent)) = map (create_driver_info ex_ops) (boot_repo ex_index @ base_drivers ex_index)"
  using driver_info_pages [of "\<lambda>_. SendOk" "[1, 2]", OF _ refl, where ops = ex_ops and driver_filter = "[]" and ix = ex_index]
  by (auto simp: passes_filter_def ex_index_def new_indexer_def base_drivers_def)

section \<open>Waiting for base drivers\<close>

text \<open>
  The index while it serves: who asked to wait for base drivers, and who has been answered. The
  streams of all clients are served by one thread, so a run interleaves whole requests with the
  completion of \<open>load_base_drivers\<close>.
\<close>

record ('u, 'r) IndexState =
  st_index :: "('u, 'r) Indexer"
  st_asked :: "'r list"
  st_answered :: "'r list"

definition initial_state :: "'u ResolvedDriver list \<Rightarrow> ('u, 'r) IndexState" where
  "initial_state boot = \<lparr>st_index = new_indexer boot (NotResolved []), st_asked = [], st_answered = []\<rparr>"

fun asks :: "'r IndexRequest \<Rightarrow> 'r list" where
  "asks (WaitForBaseDrivers responder) = [responder]"
| "asks _ = []"

definition wait_answers :: "('r \<times> Response) list \<Rightarrow> 'r list" where
  "wait_answers sent = map fst (filter (\<lambda>(_, response). response = WaitForBaseDriversResponse) sent)"

inductive index_step ::
    "'u UrlOps \<Rightarrow> ('r \<Rightarrow> SendOutcome) \<Rightarrow> (string \<rightharpoonup> (string \<rightharpoonup> ComponentDecl) \<times> (string \<rightharpoonup> u8 list))
     \<Rightarrow> ('u, 'r) IndexState \<Rightarrow> ('u, 'r) IndexState \<Rightarrow> bool"
  for ops :: "'u UrlOps" and send :: "'r \<Rightarrow> SendOutcome"
    and resolver :: "string \<rightharpoonup> (string \<rightharpoonup> ComponentDecl) \<times> (string \<rightharpoonup> u8 list)"
where
  serve: "handle_index_request ops send request (st_index s) = Ok (ix, sent) \<Longrightarrow>
     index_step ops send resolver s
       \<lparr>st_index = ix, st_asked = st_asked s @ asks request, st_answered = st_answered s @ wait_answers sent\<rparr>"
| load: "load_base_drivers ops resolver manifest (st_index s) = Ok (ix, answered) \<Longrightarrow>
     index_step ops send resolver s
       \<lparr>st_index = ix, st_asked = st_asked s, st_answered = st_answered s @ answered\<rparr>"

inductive_cases index_stepE: "index_step ops send resolver s t"

abbreviation index_run where
  "index_run ops send resolver boot \<equiv> (index_step ops send resolver)\<^sup>*\<^sup>* (initial_state boot)"

definition waiting :: "('u, 'r) Indexer \<Rightarrow> 'r list" where
  "waiting ix = (case base_repo ix of NotResolved waiters \<Rightarrow> waiters | Resolved _ \<Rightarrow> [])"

definition answers_balance :: "('u, 'r) IndexState \<Rightarrow> bool" where
  "answers_balance s \<longleftrightarrow> mset (st_asked s) = mset (st_answered s) + mset (waiting (st_index s))"

lemma handle_index_request_waiting:
  "handle_index_request ops send request ix = Ok (ix', sent) \<Longrightarrow>
   mset (waiting ix) + mset (asks request) = mset (wait_answers sent) + mset (waiting ix')"
  by (cases request) (auto simp: waiting_def wait_answers_def result_simps split: BaseRepo.splits if_splits)

lemma load_base_drivers_waiting:
  "load_base_drivers ops resolver manifest ix = Ok (ix', answered) \<Longrightarrow> mset (waiting ix) = mset answered \<and> waiting ix' = []"
  by (auto simp: load_base_drivers_def load_base_repo_def waiting_def result_simps split: BaseRepo.splits)

lemma index_step_balance: "index_step ops send resolver s t \<Longrightarrow> answers_balance s \<Longrightarrow> answers_balance t"
  by (erule index_stepE)
    (auto simp: answers_balance_def add.assoc dest!: handle_index_request_waiting load_base_drivers_waiting)

lemma index_run_balance: "index_run ops send resolver boot s \<Longrightarrow> answers_balance s"
proof (induction rule: rtranclp_induct)
  case base
  then show ?case by (simp add: answers_balance_def initial_state_def waiting_def new_indexer_def)
next
  case (step s t)
  then show ?case by (blast intro: index_step_balance)
qed

text \<open>
  C9. Every client that waits for base drivers is answered once. In every run of the index, whatever
  the interleaving of requests with the loading of base drivers, the requests are the answers
  sent plus the clients that still wait. Once base drivers are loaded nobody waits.
\<close>

theorem waiters_answered_once:
  assumes "index_run ops send resolver boot s"
  shows "mset (st_asked s) = mset (st_answered s) + mset (waiting (st_index s))
    \<and> (\<forall>drivers. base_repo (st_index s) = Resolved drivers \<longrightarrow> mset (st_asked s) = mset (st_answered s))"
  using index_run_balance [OF assms] by (auto simp: answers_balance_def waiting_def)

text \<open>Two clients wait, base drivers are loaded from an empty manifest, a third client asks.\<close>

definition ex_run_state :: "(string \<times> string option, nat) IndexState" where
  "ex_run_state =
     \<lparr>st_index = \<lparr>boot_repo = [], base_repo = Resolved []\<rparr>, st_asked = [10, 20, 30], st_answered = [20, 10, 30]\<rparr>"

lemma step_serve:
  "handle_index_request ops send request (st_index s) = Ok (ix, sent) \<Longrightarrow>
   t = \<lparr>st_index = ix, st_asked = st_asked s @ asks request, st_answered = st_answered s @ wait_answers sent\<rparr> \<Longrightarrow>
   index_step ops send resolver s t"
  by (simp add: serve)

lemma step_load:
  "load_base_drivers ops resolver manifest (st_index s) = Ok (ix, answered) \<Longrightarrow>
   t = \<lparr>st_index = ix, st_asked = st_asked s, st_answered = st_answered s @ answered\<rparr> \<Longrightarrow>
   index_step ops send resolver s t"
  by (simp add: load)

lemma ex_run: "index_run ex_ops (\<lambda>_. SendOk) Map.empty [] ex_run_state"
proof -
  let ?step = "index_step ex_ops (\<lambda>_ :: nat. SendOk) Map.empty"
  let ?ix = "\<lambda>base. \<lparr>boot_repo = [], base_repo = base\<rparr>"
  let ?s = "\<lambda>base asked answered. \<lparr>st_index = ?ix base, st_asked = asked, st_answered = answered\<rparr>"
  have "?step (?s (NotResolved []) [] []) (?s (NotResolved [10]) [10] [])"
    by (rule step_serve [where request = "WaitForBaseDrivers 10" and ix = "?ix (NotResolved [10])" and sent = "[]"])
      (simp_all add: wait_answers_def)
  moreover have "?step (?s (NotResolved [10]) [10] []) (?s (NotResolved [10, 20]) [10, 20] [])"
    by (rule step_serve [where request = "WaitForBaseDrivers 20" and ix = "?ix (NotResolved [10, 20])" and sent = "[]"])
      (simp_all add: wait_answers_def)
  moreover have "?step (?s (NotResolved [10, 20]) [10, 20] []) (?s (Resolved []) [10, 20] [20, 10])"
    by (rule step_load [where manifest = "Some []" and ix = "?ix (Resolved [])" and answered = "[20, 10]"])
      (simp_all add: load_base_drivers_def load_base_repo_def)
  moreover have "?step (?s (Resolved []) [10, 20] [20, 10]) ex_run_state"
    by (rule step_serve [where request = "WaitForBaseDrivers 30" and ix = "?ix (Resolved [])"
          and sent = "[(30, WaitForBaseDriversResponse)]"])
      (simp_all add: wait_answers_def ignore_peer_closed_def ex_run_state_def)
  ultimately show ?thesis
    unfolding initial_state_def new_indexer_def
    by (blast intro: converse_rtranclp_into_rtranclp)
qed

theorem waiters_answered_once_witness:
  "mset (st_asked ex_run_state) = mset (st_answered ex_run_state) + mset (waiting (st_index ex_run_state))"
  using waiters_answered_once [OF ex_run] by simp

section \<open>The index is safe\<close>

lemma new_DecodedRules_no_panic: "new_DecodedRules bytes \<noteq> Panic"
  by (simp add: new_DecodedRules_def result_simps get_symbol_table_no_panic new_DecodedCompositeBindRules_no_panic
      new_DecodedBindRules_no_panic get_u32_bytes_take)

lemma load_driver_no_panic: "load_driver ops rc rb url \<noteq> Panic"
  by (simp add: load_driver_def result_simps new_DecodedRules_no_panic)

lemma base_loop_no_panic: "base_loop ops (resolve_driver ops resolver) urls acc \<noteq> Panic"
proof (induction urls arbitrary: acc)
  case (Cons url urls)
  have "resolve_driver ops resolver u \<noteq> Panic" for u
    by (simp add: resolve_driver_def result_simps load_driver_no_panic)
  with Cons show ?case
    by (auto split: option.split result.split)
qed simp


lemma load_base_drivers_wf:
  "load_base_drivers ops resolver manifest ix = Ok (ix', answered) \<Longrightarrow> index_wf ix \<Longrightarrow> index_wf ix'"
proof -
  have "driver_wf d" if "resolve_driver ops resolver url = Ok d" for url d
    using that by (auto simp: resolve_driver_def result_simps dest: load_driver_wf)
  note base_loop_wf [of "resolve_driver ops resolver", OF this]
  then show "load_base_drivers ops resolver manifest ix = Ok (ix', answered) \<Longrightarrow> index_wf ix \<Longrightarrow> index_wf ix'"
    by (fastforce simp: load_base_drivers_def load_base_repo_def result_simps index_wf_def base_drivers_def)
qed

lemma handle_index_request_wf:
  "handle_index_request ops send request ix = Ok (ix', sent) \<Longrightarrow> index_wf ix \<Longrightarrow> index_wf ix'"
  by (cases request) (auto simp: result_simps index_wf_def base_drivers_def split: if_splits BaseRepo.splits)

lemma index_run_wf:
  assumes "list_all driver_wf boot"
  shows "index_run ops send resolver boot s \<Longrightarrow> index_wf (st_index s)"
proof (induction rule: rtranclp_induct)
  case base
  with assms show ?case by (simp add: initial_state_def new_indexer_def index_wf_def base_drivers_def)
next
  case (step s t)
  then show ?case
    by (auto elim!: index_stepE dest: handle_index_request_wf load_base_drivers_wf)
qed

lemma load_boot_drivers_wf: "load_boot_drivers ops rc rb meta = Ok boot \<Longrightarrow> list_all driver_wf boot"
  using boot_loop_wf [of "load_driver ops rc rb", OF load_driver_wf]
  by (fastforce simp: load_boot_drivers_def result_simps)



end
