(* ===== verification/Match_Ffi.thy ===== *)
theory Match_Ffi
  imports Compile_Rules Driver_Index_Props
begin

text \<open>
  \<open>ffi.rs\<close>: the interface through which C++ code matches bytecode against a device. A pointer to an
  array with its size is an optional list, where nothing is the null pointer. A C string is the list
  of its bytes before the terminator.
\<close>

section \<open>Properties of a device\<close>

definition FFI_BIND_PROTOCOL :: u64 where "FFI_BIND_PROTOCOL = 1"
definition FFI_BIND_AUTOBIND :: u64 where "FFI_BIND_AUTOBIND = 2"

record device_property_t =
  pt_key :: u32
  pt_value :: u32

text \<open>The type tag selects the member of the union.\<close>

datatype property_value_t = NumberVal u32 | StringVal "u8 list" | BoolVal bool

record device_str_property_t =
  spt_key :: "u8 list"
  spt_value :: property_value_t

definition convert_str :: "u8 list \<Rightarrow> string option" where
  "convert_str c_str = from_utf8 c_str"

fun convert_to_symbol :: "property_value_t \<Rightarrow> Symbol option" where
  "convert_to_symbol (NumberVal v) = Some (NumberValue (ucast v))"
| "convert_to_symbol (BoolVal v) = Some (BoolValue v)"
| "convert_to_symbol (StringVal v) = map_option StringValue (convert_str v)"

definition str_property_with_string :: "u8 list \<Rightarrow> u8 list \<Rightarrow> device_str_property_t" where
  "str_property_with_string key v = \<lparr>spt_key = key, spt_value = StringVal v\<rparr>"

definition str_property_with_int :: "u8 list \<Rightarrow> u32 \<Rightarrow> device_str_property_t" where
  "str_property_with_int key v = \<lparr>spt_key = key, spt_value = NumberVal v\<rparr>"

definition str_property_with_bool :: "u8 list \<Rightarrow> bool \<Rightarrow> device_str_property_t" where
  "str_property_with_bool key v = \<lparr>spt_key = key, spt_value = BoolVal v\<rparr>"

section \<open>Matching\<close>

fun insert_properties :: "device_property_t list \<Rightarrow> DeviceProperties \<Rightarrow> DeviceProperties" where
  "insert_properties [] device_properties = device_properties"
| "insert_properties (p # ps) device_properties =
     insert_properties ps
       (device_properties(NumberKey (ucast (pt_key p)) \<mapsto> NumberValue (ucast (pt_value p))))"

definition or_insert :: "PropertyKey \<Rightarrow> Symbol \<Rightarrow> DeviceProperties \<Rightarrow> DeviceProperties" where
  "or_insert k v m = (case m k of Some _ \<Rightarrow> m | None \<Rightarrow> m(k \<mapsto> v))"

fun insert_str_properties ::
    "device_str_property_t list \<Rightarrow> DeviceProperties \<Rightarrow> (DeviceProperties, unit) result" where
  "insert_str_properties [] device_properties = Ok device_properties"
| "insert_str_properties (p # ps) device_properties =
     (case (convert_str (spt_key p), convert_to_symbol (spt_value p)) of
        (Some key, Some symb) \<Rightarrow> insert_str_properties ps (device_properties(StringKey key \<mapsto> symb))
      | _ \<Rightarrow> Panic)"

definition match_bind_rules ::
    "u8 list option \<Rightarrow> device_property_t list option \<Rightarrow> device_str_property_t list option \<Rightarrow> u32 \<Rightarrow> bool
     \<Rightarrow> (bool, unit) result" where
  "match_bind_rules bytecode properties str_properties protocol_id autobind =
     (case bytecode of
        None \<Rightarrow> Ok False
      | Some bytecode \<Rightarrow>
          let device_properties =
                (case properties of None \<Rightarrow> Map.empty | Some ps \<Rightarrow> insert_properties ps Map.empty);
              device_properties =
                or_insert (NumberKey FFI_BIND_PROTOCOL) (NumberValue (ucast protocol_id)) device_properties;
              device_properties =
                or_insert (NumberKey FFI_BIND_AUTOBIND) (NumberValue (if autobind then 1 else 0)) device_properties
          in
            and_then
              (case str_properties of
                 None \<Rightarrow> Ok device_properties
               | Some ps \<Rightarrow> insert_str_properties ps device_properties)
              (\<lambda>device_properties.
                 case match_bytecode bytecode device_properties of
                   Ok b \<Rightarrow> Ok b
                 | Err _ \<Rightarrow> Ok False
                 | Panic \<Rightarrow> Panic))"

section \<open>The device that is described\<close>

text \<open>
  The two properties that callers may leave out come first, so that given properties win. Later
  properties override earlier ones.
\<close>

definition number_entry :: "device_property_t \<Rightarrow> PropertyKey \<times> Symbol" where
  "number_entry p = (NumberKey (ucast (pt_key p)), NumberValue (ucast (pt_value p)))"

definition str_entry :: "device_str_property_t \<Rightarrow> PropertyKey \<times> Symbol" where
  "str_entry p = (StringKey (the (convert_str (spt_key p))), the (convert_to_symbol (spt_value p)))"

definition default_entries :: "u32 \<Rightarrow> bool \<Rightarrow> (PropertyKey \<times> Symbol) list" where
  "default_entries protocol_id autobind =
     [(NumberKey 1, NumberValue (ucast protocol_id)), (NumberKey 2, NumberValue (if autobind then 1 else 0))]"

definition list_of :: "'a list option \<Rightarrow> 'a list" where
  "list_of xs = (case xs of None \<Rightarrow> [] | Some xs \<Rightarrow> xs)"

definition ffi_device ::
    "device_property_t list option \<Rightarrow> device_str_property_t list option \<Rightarrow> u32 \<Rightarrow> bool \<Rightarrow> DeviceProperties" where
  "ffi_device properties str_properties protocol_id autobind =
     map_of (rev (default_entries protocol_id autobind @ map number_entry (list_of properties)
       @ map str_entry (list_of str_properties)))"

text \<open>The strings of a property are UTF-8.\<close>

definition str_property_ok :: "device_str_property_t \<Rightarrow> bool" where
  "str_property_ok p \<longleftrightarrow> convert_str (spt_key p) \<noteq> None \<and> convert_to_symbol (spt_value p) \<noteq> None"

lemma insert_properties_map: "insert_properties ps m = m ++ map_of (rev (map number_entry ps))"
  by (induction ps arbitrary: m) (simp_all add: number_entry_def map_add_def fun_eq_iff split: option.split)

lemma insert_str_properties_map:
  "insert_str_properties ps m =
     (if list_all str_property_ok ps then Ok (m ++ map_of (rev (map str_entry ps))) else Panic)"
proof (induction ps arbitrary: m)
  case (Cons p ps)
  then show ?case
    by (cases "convert_str (spt_key p)"; cases "convert_to_symbol (spt_value p)")
      (simp_all add: str_property_ok_def str_entry_def)
qed simp

lemma ffi_numbers:
  "or_insert (NumberKey 2) (NumberValue (if autobind then 1 else 0))
     (or_insert (NumberKey 1) (NumberValue (ucast protocol_id)) (map_of (rev (map number_entry ps))))
   = map_of (rev (default_entries protocol_id autobind @ map number_entry ps))"
  by (auto simp: or_insert_def default_entries_def map_add_def fun_eq_iff split: option.split)

lemma ffi_given:
  "(case properties of None \<Rightarrow> Map.empty | Some ps \<Rightarrow> insert_properties ps Map.empty)
     = map_of (rev (map number_entry (list_of properties)))"
  "(case str_properties of None \<Rightarrow> Ok m | Some ps \<Rightarrow> insert_str_properties ps m)
     = (if list_all str_property_ok (list_of str_properties)
        then Ok (m ++ map_of (rev (map str_entry (list_of str_properties)))) else Panic)"
  by (simp_all add: list_of_def insert_properties_map insert_str_properties_map split: option.split)

lemma ffi_strings:
  "map_of (rev (default_entries protocol_id autobind @ map number_entry (list_of properties)))
     ++ map_of (rev (map str_entry (list_of str_properties)))
   = ffi_device properties str_properties protocol_id autobind"
  by (simp add: ffi_device_def)

lemma match_bytecode_no_panic: "match_bytecode bytes props \<noteq> Panic"
  by (simp add: match_bytecode_def from_bytecode_def result_simps match_bind_loop_no_panic
      get_symbol_table_no_panic new_DecodedBindRules_no_panic)

lemma match_bind_rules_device:
  "match_bind_rules bytecode properties str_properties protocol_id autobind =
     (case bytecode of
        None \<Rightarrow> Ok False
      | Some bytes \<Rightarrow>
          if list_all str_property_ok (list_of str_properties)
          then Ok (match_bytecode bytes (ffi_device properties str_properties protocol_id autobind) = Ok True)
          else Panic)"
proof -
  have "\<not> (r = Panic) \<Longrightarrow> (case r of Ok b \<Rightarrow> Ok b | Err _ \<Rightarrow> Ok False | Panic \<Rightarrow> Panic) = Ok (r = Ok True)"
    for r :: "(bool, BytecodeError) result"
    by (cases r) auto
  note answer = this [OF match_bytecode_no_panic]
  show ?thesis
    unfolding match_bind_rules_def Let_def ffi_given ffi_numbers FFI_BIND_PROTOCOL_def FFI_BIND_AUTOBIND_def ffi_strings
    by (cases bytecode) (simp_all add: answer)
qed

text \<open>
  C26. Matching through the C interface. Without bytecode there is no match. A string that is not
  UTF-8 in a property ends in the failure of an assertion. Otherwise the answer is whether the
  bytecode matches the device with the given properties, the protocol and the autobind property
  filled in where they are missing. Invalid bytecode matches nothing.
\<close>

theorem match_bind_rules_decides:
  "match_bind_rules bytecode properties str_properties protocol_id autobind =
     (case bytecode of
        None \<Rightarrow> Ok False
      | Some bytes \<Rightarrow>
          if list_all str_property_ok (list_of str_properties)
          then Ok (match_bytecode bytes (ffi_device properties str_properties protocol_id autobind) = Ok True)
          else Panic)"
  by (rule match_bind_rules_device)

section \<open>Compiled rules through the interface\<close>

lemma match_bind_rules_Some:
  assumes "list_all str_property_ok (list_of str_properties)"
  shows "match_bind_rules (Some bytes) properties str_properties protocol_id autobind =
    Ok (match_bytecode bytes (ffi_device properties str_properties protocol_id autobind) = Ok True)"
  using assms by (simp add: match_bind_rules_device)

text \<open>The value that the caller gives for the autobind property, the last one if there are several.\<close>

definition given_autobind :: "device_property_t list option \<Rightarrow> u32 option" where
  "given_autobind properties = map_of (rev (map (\<lambda>p. (pt_key p, pt_value p)) (list_of properties))) 2"

lemma number_entries_lookup:
  "map_of (map number_entry ps) (NumberKey (ucast k)) =
     map_option (\<lambda>v. NumberValue (ucast v)) (map_of (map (\<lambda>p. (pt_key p, pt_value p)) ps) k)"
proof -
  have "(ucast i :: u64) = ucast j \<longleftrightarrow> i = j" for i j :: u32
    by transfer simp
  then show ?thesis
    by (induction ps) (simp_all add: number_entry_def)
qed

lemma autobind_given:
  "ffi_device properties str_properties protocol_id autobind (NumberKey 2) =
     Some (NumberValue
       (case given_autobind properties of Some v \<Rightarrow> ucast v | None \<Rightarrow> if autobind then 1 else 0))"
proof -
  have "map_of (rev (map str_entry ps)) (NumberKey 2) = None" for ps
    by (auto simp: map_of_eq_None_iff str_entry_def)
  then show ?thesis
    using number_entries_lookup [of "rev (list_of properties)" 2]
    by (simp add: ffi_device_def default_entries_def map_add_def given_autobind_def rev_map split: option.split)
qed

text \<open>
  C27. When a driver compiled with automatic binding disabled is bound automatically. Asked with
  \<open>autobind\<close> set, its bytecode matches exactly if the device itself carries the value 0 for the
  autobind property and the rules are true on the device. A device without a property of this key, or with another value for
  it, is never matched. The value of the device wins because the interface fills in its own value
  only where the property is missing.
\<close>

theorem autobind_disabled:
  assumes "compile_bind ord rules_str libraries lint True True = Ok br"
    and "encode_to_bytecode (Bind br) = Ok bytes" and "length bytes < 2 ^ 32"
    and "\<forall>s\<in>code_strings (sym_code (br_instructions br)). good_string s"
    and "list_all str_property_ok (list_of str_properties)"
  shows "\<exists>ast st. rules_try_from rules_str = Ok ast
    \<and> get_symbol_table_from_libraries ord (ast_using ast) libraries lint = Ok st
    \<and> match_bind_rules (Some bytes) properties str_properties protocol_id True =
        Ok (given_autobind properties = Some 0
            \<and> sem_block (device_equal (ffi_device properties str_properties protocol_id True)) st (ast_statements ast)
              = Ok True)"
proof -
  let ?device = "ffi_device properties str_properties protocol_id True"
  have "(ucast v :: u64) = 0 \<longleftrightarrow> v = 0" for v :: u32
    by transfer simp
  then have "device_equal ?device (DeprecatedKey BIND_AUTOBIND) (NumberValue 0) = Ok (given_autobind properties = Some 0)"
    by (simp add: autobind_given device_equal_def BIND_AUTOBIND_def compare_symbols_def split: option.split)
  with compile_bind_match [OF assms(1-4), of ?device] show ?thesis
    by (cases "given_autobind properties = Some 0") (auto simp: match_bind_rules_Some [OF assms(5)] sem_rules_def)
qed

text \<open>The same device with and without its own autobind property.\<close>

theorem autobind_disabled_witness:
  "\<exists>bytes. encode_to_bytecode (Bind ex_compiled) = Ok bytes
     \<and> match_bind_rules (Some bytes) (Some [\<lparr>pt_key = 1, pt_value = 5\<rparr>]) None 5 True = Ok False
     \<and> match_bind_rules (Some bytes) (Some [\<lparr>pt_key = 1, pt_value = 5\<rparr>, \<lparr>pt_key = 2, pt_value = 0\<rparr>]) None 5 True = Ok True"
proof -
  obtain bytes where bytes: "encode_to_bytecode (Bind ex_compiled) = Ok bytes" "length bytes < 2 ^ 32"
    by (rule ex_compiled_bytes)
  have "list_all str_property_ok (list_of None)" by (simp add: list_of_def)
  note run = autobind_disabled [OF ex_compiles bytes ex_compiled_good this]
  let ?ps = "Some [\<lparr>pt_key = 1, pt_value = 5\<rparr>, \<lparr>pt_key = 2, pt_value = 0\<rparr>]"
  have "sem_block (device_equal (ffi_device ?ps None 5 True)) get_deprecated_symbols (ast_statements ex_ast) = Ok True"
    by (simp add: ex_ast_def sem_condition_def sem_equal_def value_symbol_def ex_table_protocol device_equal_def
        ffi_device_def list_of_def default_entries_def number_entry_def compare_symbols_def)
  with run [of ?ps 5] have "match_bind_rules (Some bytes) ?ps None 5 True = Ok True"
    by (auto simp: ex_source_parses no_libraries given_autobind_def list_of_def ex_ast_def)
  moreover have "match_bind_rules (Some bytes) (Some [\<lparr>pt_key = 1, pt_value = 5\<rparr>]) None 5 True = Ok False"
    using run [of "Some [\<lparr>pt_key = 1, pt_value = 5\<rparr>]" 5] by (auto simp: given_autobind_def list_of_def)
  ultimately show ?thesis using bytes(1) by blast
qed

section \<open>The interface and the driver index\<close>

text \<open>The same device as node properties.\<close>

definition number_node :: "device_property_t \<Rightarrow> NodeProperty" where
  "number_node p = \<lparr>np_key = Some (NkIntValue (pt_key p)), np_value = Some (NvIntValue (pt_value p))\<rparr>"

fun node_value :: "property_value_t \<Rightarrow> NodePropertyValue" where
  "node_value (NumberVal v) = NvIntValue v"
| "node_value (BoolVal v) = NvBoolValue v"
| "node_value (StringVal v) = NvStringValue (the (convert_str v))"

definition str_node :: "device_str_property_t \<Rightarrow> NodeProperty" where
  "str_node p =
     \<lparr>np_key = Some (NkStringValue (the (convert_str (spt_key p)))), np_value = Some (node_value (spt_value p))\<rparr>"

definition ffi_nodes ::
    "device_property_t list option \<Rightarrow> device_str_property_t list option \<Rightarrow> u32 \<Rightarrow> bool \<Rightarrow> NodeProperty list" where
  "ffi_nodes properties str_properties protocol_id autobind =
     map number_node (\<lparr>pt_key = 1, pt_value = protocol_id\<rparr> # \<lparr>pt_key = 2, pt_value = (if autobind then 1 else 0)\<rparr>
       # list_of properties)
     @ map str_node (list_of str_properties)"

lemma ffi_nodes_device:
  assumes "list_all str_property_ok (list_of str_properties)"
  shows "device_of (ffi_nodes properties str_properties protocol_id autobind)
    = ffi_device properties str_properties protocol_id autobind"
proof -
  have "value_of_node (node_value (spt_value p)) = the (convert_to_symbol (spt_value p))" if "str_property_ok p" for p
    using that by (cases "spt_value p") (auto simp: str_property_ok_def)
  with assms have "map (\<lambda>p. (key_of_node (the (np_key p)), value_of_node (the (np_value p))))
      (ffi_nodes properties str_properties protocol_id autobind)
    = default_entries protocol_id autobind @ map number_entry (list_of properties)
      @ map str_entry (list_of str_properties)"
    by (simp add: ffi_nodes_def default_entries_def number_node_def str_node_def number_entry_def str_entry_def
        list_all_iff)
  then show ?thesis
    unfolding device_of_def ffi_device_def by (simp only:)
qed

lemma driver_matches_bytecode:
  assumes "new_DecodedRules bytes = Ok (Normal decoded)" and "rd_bind_rules d = Normal decoded"
  shows "driver_matches ops d device = Ok (Some (create_matched_driver ops d)) \<longleftrightarrow> match_bytecode bytes device = Ok True"
proof -
  have "from_bytecode bytes = Ok decoded"
    using assms(1) by (auto simp: new_DecodedRules_def from_bytecode_def result_simps split: if_splits)
  then show ?thesis
    by (cases "match_bind_loop device (dbr_symbol_table decoded) (dbr_instructions decoded)")
      (simp_all add: driver_matches_def assms(2) match_bytecode_def match_bind_def)
qed

text \<open>
  C28. The C interface and the driver index agree. For rules that are not composite, the interface
  answers that the bytecode matches a device exactly when the index, with a driver decoded from
  the same bytecode, matches the node with the same properties.
\<close>

theorem ffi_index_agree:
  assumes "new_DecodedRules bytes = Ok (Normal decoded)" and "rd_bind_rules d = Normal decoded"
    and "list_all str_property_ok (list_of str_properties)"
  shows "match_bind_rules (Some bytes) properties str_properties protocol_id autobind =
    Ok (driver_matches ops d (device_of (ffi_nodes properties str_properties protocol_id autobind))
        = Ok (Some (create_matched_driver ops d)))"
  by (simp add: match_bind_rules_Some [OF assms(3)] ffi_nodes_device [OF assms(3)]
      driver_matches_bytecode [OF assms(1,2)])

lemma ex_compiled_decodes:
  obtains bytes decoded where "encode_to_bytecode (Bind ex_compiled) = Ok bytes"
    and "new_DecodedRules bytes = Ok (Normal decoded)"
proof -
  obtain bytes where bytes: "encode_to_bytecode (Bind ex_compiled) = Ok bytes" "length bytes < 2 ^ 32"
    by (rule ex_compiled_bytes)
  then have "encode_to_bytecode_v2 ex_compiled = Ok bytes"
    by (simp add: ex_compiled_def)
  from from_bytecode_v2 [OF this bytes(2) ex_compiled_good] bytes that show thesis by metis
qed

theorem ffi_index_agree_witness:
  "\<exists>bytes decoded d. encode_to_bytecode (Bind ex_compiled) = Ok bytes
     \<and> new_DecodedRules bytes = Ok (Normal decoded) \<and> rd_bind_rules d = Normal decoded
     \<and> match_bind_rules (Some bytes) None (Some [str_property_with_bool [0x61] True]) 5 False =
         Ok (driver_matches ex_ops d
               (device_of (ffi_nodes None (Some [str_property_with_bool [0x61] True]) 5 False))
             = Ok (Some (create_matched_driver ex_ops d)))"
proof -
  obtain bytes decoded where "encode_to_bytecode (Bind ex_compiled) = Ok bytes"
    and decoded: "new_DecodedRules bytes = Ok (Normal decoded)"
    by (rule ex_compiled_decodes)
  moreover obtain d :: "(string \<times> string option) ResolvedDriver" where d: "rd_bind_rules d = Normal decoded"
    by (metis ResolvedDriver.select_convs(3))
  moreover have "list_all str_property_ok (list_of (Some [str_property_with_bool [0x61] True]))"
    by (simp add: list_of_def str_property_ok_def str_property_with_bool_def convert_str_def from_utf8_def)
  ultimately show ?thesis
    using ffi_index_agree [OF decoded d] by blast
qed

end
