(* ===== verification/Bindc_Props.thy ===== *)
theory Bindc_Props
  imports Bindc Match_Ffi "HOL-Library.Sublist"
begin

text \<open>
  What the commands of \<open>bindc\<close> do to the files and to the output, and what the files they write
  mean to the matcher and to the driver index.
\<close>

section \<open>Which files a command changes\<close>

definition keeps :: "Path set \<Rightarrow> 'a io \<Rightarrow> bool" where
  "keeps P m \<longleftrightarrow> (\<forall>w. \<forall>p. p \<notin> P \<longrightarrow> wd_files (snd (m w)) p = wd_files w p)"

lemma keeps_pure [intro!]: "keeps P (pure_io r)"
  by (simp add: keeps_def pure_io_def)

lemma keeps_then [intro!]: "keeps P m \<Longrightarrow> (\<And>a. keeps P (f a)) \<Longrightarrow> keeps P (then_io m f)"
  by (auto simp: keeps_def then_io_def split: prod.splits result.splits) (metis snd_conv)+

lemma keeps_context [intro!]: "keeps P m \<Longrightarrow> keeps P (context_io m message)"
  by (auto simp: keeps_def context_io_def split: prod.splits) (metis snd_conv)

lemma keeps_open [intro!]: "keeps P (open_file path)"
  by (simp add: keeps_def open_file_def split: option.splits)

lemma keeps_create [intro!]: "path \<in> P \<Longrightarrow> keeps P (create_file os path)"
  by (auto simp: keeps_def create_file_def)

lemma append_to_keeps: "set_option target \<subseteq> P \<Longrightarrow> p \<notin> P \<Longrightarrow> wd_files (append_to target bytes w) p = wd_files w p"
  by (cases target) auto

lemma keeps_once [intro!]: "set_option target \<subseteq> P \<Longrightarrow> keeps P (write_once os target buf)"
  by (auto simp: keeps_def write_once_def append_to_keeps split: option.splits)

lemma keeps_all [intro!]:
  assumes "set_option target \<subseteq> P"
  shows "keeps P (write_all os target buf)"
proof -
  have "wd_files (snd (write_all os target buf w)) p = wd_files w p" if "p \<notin> P" for w p
    using assms that
  proof (induction os target buf w rule: write_all.induct)
    case (1 os target buf w)
    from keeps_once [OF 1(2), of os buf] 1(3)
    have "wd_files (snd (write_once os target buf w)) p = wd_files w p"
      by (auto simp: keeps_def)
    with 1 show ?case
      by (subst write_all.simps) (auto split: prod.splits result.splits)
  qed
  then show ?thesis by (simp add: keeps_def)
qed

lemma keeps_println [intro!]: "keeps P (println os line)"
  using keeps_all [of None P os "into_bytes (writeln line)"]
  by (auto simp: keeps_def println_def split: prod.splits result.splits) (metis snd_conv)+

lemma keeps_print_lines [intro!]: "keeps P (print_lines os logged)"
  by (induction logged) auto

lemma keeps_read [intro!]: "keeps P (read_file path)" "keeps P (read_files paths)"
proof -
  show read: "keeps P (read_file path)" for path by (auto simp: read_file_def)
  show "keeps P (read_files paths)" by (induction paths) (auto intro: read)
qed

lemma keeps_includes [intro!]: "keeps P (handle_includes includes include_file)"
  by (auto simp: handle_includes_def split: option.splits)

lemma keeps_compile [intro!]:
  assumes "set_option output \<subseteq> P" and "output \<noteq> None \<Longrightarrow> set_option depfile \<subseteq> P"
  shows "keeps P (handle_compile os ord input includes dis outb new lint output depfile)"
proof -
  have "keeps P (open_output os input includes output depfile)"
    using assms unfolding open_output_def by (auto split: option.splits)
  moreover have "keeps P (compile_inputs ord path includes lint dis new)" for path
    by (auto simp: compile_inputs_def)
  ultimately show ?thesis
    using assms(1) unfolding handle_compile_def by (auto split: option.splits)
qed

lemma keeps_generate [intro!]:
  "set_option output \<subseteq> P \<Longrightarrow> keeps P (handle_generate os input lint output)"
  by (auto simp: handle_generate_def split: option.splits)

text \<open>The files that a command is told to write.\<close>

fun written_files :: "Command \<Rightarrow> Path set" where
  "written_files (CmdCompile _ output depfile _ _ _) =
     (if output = None then {} else set_option output \<union> set_option depfile)"
| "written_files (CmdGenerate _ output) = set_option output"
| "written_files (CmdDebug _ _) = {}"
| "written_files (CmdTest _ _) = {}"

text \<open>
  C32. The commands of \<open>bindc\<close> touch no file but the ones they are told to write: the output, and
  with an output the dependency file. This holds on every path through a command, errors and
  panics included.
\<close>

theorem bindc_frame:
  assumes "bindc_main os ord json io_text dbg command w = (status, stderr, w')"
    and "p \<notin> written_files command"
  shows "wd_files w' p = wd_files w p"
proof -
  have "keeps (written_files command) (handle_command os ord json command)"
    by (cases command) (auto simp: require_input_def split: prod.splits if_splits)
  with assms show ?thesis
    by (auto simp: keeps_def bindc_main_def split: prod.splits result.splits) (metis snd_conv)+
qed

section \<open>What is written\<close>

text \<open>A system that accepts at least one byte of every write to the target.\<close>

definition accepts :: "Os \<Rightarrow> Path option \<Rightarrow> bool" where
  "accepts os target \<longleftrightarrow> (\<forall>buf. buf \<noteq> [] \<longrightarrow> (\<exists>n>0. os_write os target buf = Some n))"

fun target_exists :: "Path option \<Rightarrow> World \<Rightarrow> bool" where
  "target_exists None w \<longleftrightarrow> True"
| "target_exists (Some path) w \<longleftrightarrow> wd_files w path \<noteq> None"

lemma append_to_simps [simp]:
  "target_exists target w \<Longrightarrow> append_to target [] w = w"
  "append_to target bs (append_to target as w) = append_to target (as @ bs) w"
  "target_exists target (append_to target as w)"
proof -
  show "append_to target [] w = w" if "target_exists target w"
    using that by (cases target) (auto simp: fun_upd_idem)
  show "append_to target bs (append_to target as w) = append_to target (as @ bs) w"
    "target_exists target (append_to target as w)"
    by (cases target; simp)+
qed

lemma write_all_accepted:
  assumes "accepts os target" and "target_exists target w"
  shows "write_all os target buf w = (Ok (), append_to target buf w)"
  using assms
proof (induction os target buf w rule: write_all.induct)
  case (1 os target buf w)
  show ?case
  proof (cases "buf = []")
    case True
    with 1(3) show ?thesis by (subst write_all.simps) simp
  next
    case False
    with 1(2) obtain n where n: "0 < n" "os_write os target buf = Some n"
      by (auto simp: accepts_def)
    let ?w = "append_to target (take n buf) w"
    have once: "write_once os target buf w = (Ok (length (take n buf)), ?w)"
      by (simp add: write_once_def n)
    have "write_all os target (drop (length (take n buf)) buf) ?w =
        (Ok (), append_to target (drop (length (take n buf)) buf) ?w)"
      by (rule 1(1) [OF False once [symmetric]]) (use n False 1(2) in auto)
    moreover have "take n buf @ drop (length (take n buf)) buf = buf"
      by (cases "n \<le> length buf") auto
    ultimately show ?thesis
      using n False by (subst write_all.simps) (simp add: once)
  qed
qed

definition with_file :: "World \<Rightarrow> Path \<Rightarrow> u8 list \<Rightarrow> World" where
  "with_file w path bytes = w\<lparr>wd_files := (wd_files w)(path \<mapsto> bytes)\<rparr>"

text \<open>The text of a file.\<close>

definition file_text :: "World \<Rightarrow> Path \<Rightarrow> string option" where
  "file_text w path = Option.bind (wd_files w path) from_utf8"

lemma read_file_text: "file_text w path = Some s \<Longrightarrow> read_file path w = (Ok s, w)"
  by (auto simp: file_text_def read_file_def then_io_def open_file_def pure_io_def split: option.splits bind_splits)

lemma read_files_text:
  "list_all2 (\<lambda>path s. file_text w path = Some s) paths ss \<Longrightarrow> read_files paths w = (Ok ss, w)"
  by (induction rule: list_all2_induct) (simp_all add: then_io_def pure_io_def read_file_text)

lemma file_text_with_file [simp]:
  "path \<noteq> p \<Longrightarrow> file_text (with_file w path bytes) p = file_text w p"
  by (simp add: file_text_def with_file_def)

lemma list_all2_weaken: "list_all2 P xs ys \<Longrightarrow> (\<And>x y. x \<in> set xs \<Longrightarrow> P x y \<Longrightarrow> Q x y) \<Longrightarrow> list_all2 Q xs ys"
  by (erule list.rel_mono_strong) auto

lemma io_simps [simp]:
  "then_io (pure_io (Ok a)) f w = f a w" "then_io (pure_io (Err e)) g w = (Err e, w)"
  "then_io (pure_io Panic) h w = (Panic, w)"
  by (simp_all add: then_io_def pure_io_def)


lemma open_output_file:
  assumes "os_can_create os output"
  shows "open_output os input includes (Some output) None w = (Ok (), with_file w output [])"
  using assms by (simp add: open_output_def context_io_def create_file_def with_file_def)

lemma write_output_file:
  assumes "accepts os (Some output)"
  shows "context_io (write_all os (Some output) bytes) message (with_file w output []) = (Ok (), with_file w output bytes)"
  using assms by (simp add: context_io_def write_all_accepted with_file_def)

text \<open>The bytecode of the rules in a source, or the error that stops the compiler.\<close>

definition bytecode_of ::
    "(nat \<Rightarrow> nat list \<Rightarrow> nat list) \<Rightarrow> string \<Rightarrow> string list \<Rightarrow> bool \<Rightarrow> bool \<Rightarrow> bool
     \<Rightarrow> (u8 list, BindcError) result" where
  "bytecode_of ord rules_str libraries lint disable_autobind use_new_bytecode =
     and_then (map_err BcCompilerError (compile ord rules_str libraries lint disable_autobind use_new_bytecode))
       (\<lambda>compiled. map_err BcEncodeError (encode_to_bytecode compiled))"

lemma handle_compile_inputs:
  assumes "os_can_create os output" and "accepts os (Some output)"
    and "file_text w input = Some rules_str"
    and "list_all2 (\<lambda>path s. file_text w path = Some s) includes libraries"
    and "output \<notin> set (input # includes)"
  shows "handle_compile os ord (Some input) includes dis True new lint (Some output) None w =
    (case bytecode_of ord rules_str libraries lint dis new of
       Ok bytes \<Rightarrow> (Ok (), with_file w output bytes)
     | Err e \<Rightarrow> (Err e, with_file w output [])
     | Panic \<Rightarrow> (Panic, with_file w output []))"
proof -
  let ?w = "with_file w output []"
  have "read_file input ?w = (Ok rules_str, ?w)"
    using assms(3,5) by (intro read_file_text) auto
  moreover have "read_files includes ?w = (Ok libraries, ?w)"
    using assms(5) by (intro read_files_text list_all2_weaken [OF assms(4)]) (metis file_text_with_file list.set_intros(2))
  ultimately have "compile_inputs ord input includes lint dis new ?w =
      (map_err BcCompilerError (compile ord rules_str libraries lint dis new), ?w)"
    by (simp add: compile_inputs_def then_io_def pure_io_def)
  then have "handle_compile os ord (Some input) includes dis True new lint (Some output) None w =
      (case map_err BcCompilerError (compile ord rules_str libraries lint dis new) of
         Ok compiled \<Rightarrow>
           then_io (pure_io (map_err BcEncodeError (encode_to_bytecode compiled))) (\<lambda>bytecode.
             context_io (write_all os (Some output) bytecode) ''Failed to write to output file'') ?w
       | Err e \<Rightarrow> (Err e, ?w)
       | Panic \<Rightarrow> (Panic, ?w))"
    unfolding handle_compile_def by (cases dis) (simp_all add: open_output_file assms(1) then_io_def)
  then show ?thesis
    unfolding bytecode_of_def
    by (simp add: write_output_file assms(2) then_io_def pure_io_def and_then_def split: result.splits)
qed

text \<open>
  C31. What \<open>bindc compile\<close> leaves behind. When the output can be created and written and is not one
  of the inputs, the command ends with the bytecode of the rules in the output file. If the rules
  do not compile or cannot be encoded, it ends with that error and an empty output file. No other
  file changes and nothing is printed.
\<close>

theorem compile_writes_bytecode:
  assumes "os_can_create os output" and "accepts os (Some output)"
    and "file_text w input = Some rules_str"
    and "list_all2 (\<lambda>path s. file_text w path = Some s) includes libraries"
    and "output \<notin> set (input # includes)"
  shows "handle_command os ord json
      (CmdCompile \<lparr>so_include = includes, so_include_file = None, so_input = Some input, so_lint = lint\<rparr>
        (Some output) None disable_autobind True use_new_bytecode) w =
    (case bytecode_of ord rules_str libraries lint disable_autobind use_new_bytecode of
       Ok bytes \<Rightarrow> (Ok (), with_file w output bytes)
     | Err e \<Rightarrow> (Err e, with_file w output [])
     | Panic \<Rightarrow> (Panic, with_file w output []))"
  by (simp add: handle_includes_def handle_compile_inputs [OF assms])

section \<open>A small run\<close>

text \<open>A system that writes one byte at a time, and a world with one source.\<close>

definition slow_os :: Os where
  "slow_os = \<lparr>os_can_create = \<lambda>_. True, os_write = \<lambda>_ _. Some 1\<rparr>"

definition ex_world :: World where
  "ex_world = \<lparr>wd_files = [[0x69] \<mapsto> into_bytes ex_source], wd_stdout = []\<rparr>"

lemma slow_os_simps [simp]: "os_can_create slow_os path" "accepts slow_os target"
  by (auto simp: slow_os_def accepts_def)

lemma ex_world_text: "file_text ex_world [0x69] = Some ex_source"
proof -
  have "from_utf8 (into_bytes ex_source) = Some ex_source" by code_simp
  then show ?thesis by (simp add: file_text_def ex_world_def)
qed

lemma ex_not_composite: "composite_try_from ex_source = Err (PeCompositeKeyword ex_source)"
  by code_simp

lemma ex_bytecode:
  obtains bytes where "bytecode_of (\<lambda>_ xs. xs) ex_source [] True True True = Ok bytes"
    and "encode_to_bytecode (Bind ex_compiled) = Ok bytes" and "length bytes < 2 ^ 32"
proof -
  obtain bytes where "encode_to_bytecode (Bind ex_compiled) = Ok bytes" "length bytes < 2 ^ 32"
    by (rule ex_compiled_bytes)
  moreover have "compile (\<lambda>_ xs. xs) ex_source [] True True True = Ok (Bind ex_compiled)"
    by (simp add: compile_def ex_not_composite ex_compiles)
  ultimately show thesis
    using that by (simp add: bytecode_of_def)
qed

theorem compile_writes_bytecode_witness:
  "\<exists>bytes. encode_to_bytecode (Bind ex_compiled) = Ok bytes
     \<and> handle_command slow_os (\<lambda>_ xs. xs) ex_json
         (CmdCompile \<lparr>so_include = [], so_include_file = None, so_input = Some [0x69], so_lint = True\<rparr>
           (Some [0x6F]) None True True True) ex_world
       = (Ok (), with_file ex_world [0x6F] bytes)"
proof -
  obtain bytes where bytes: "bytecode_of (\<lambda>_ xs. xs) ex_source [] True True True = Ok bytes"
    "encode_to_bytecode (Bind ex_compiled) = Ok bytes"
    by (rule ex_bytecode)
  have "handle_command slow_os (\<lambda>_ xs. xs) ex_json
      (CmdCompile \<lparr>so_include = [], so_include_file = None, so_input = Some [0x69], so_lint = True\<rparr>
        (Some [0x6F]) None True True True) ex_world = (Ok (), with_file ex_world [0x6F] bytes)"
    by (subst compile_writes_bytecode [where libraries = "[]", OF _ _ ex_world_text]) (simp_all add: bytes)
  with bytes(2) show ?thesis by blast
qed

theorem bindc_frame_witness:
  "wd_files (snd (snd (bindc_main slow_os (\<lambda>_ xs. xs) ex_json ''io'' id
     (CmdCompile \<lparr>so_include = [], so_include_file = None, so_input = Some [0x69], so_lint = True\<rparr>
       (Some [0x6F]) (Some [0x64]) True True True) ex_world))) [0x69] = Some (into_bytes ex_source)"
proof -
  let ?r = "bindc_main slow_os (\<lambda>_ xs. xs) ex_json ''io'' id
     (CmdCompile \<lparr>so_include = [], so_include_file = None, so_input = Some [0x69], so_lint = True\<rparr>
       (Some [0x6F]) (Some [0x64]) True True True) ex_world"
  have "?r = (fst ?r, fst (snd ?r), snd (snd ?r))" by simp
  from bindc_frame [OF this, of "[0x69]"] show ?thesis
    by (simp add: ex_world_def)
qed

section \<open>Rules without an input\<close>

lemma no_rules_bytes:
  obtains bytes where "encode_to_bytecode (empty_bind_rules True False) = Ok bytes"
    and "\<And>device. match_bytecode bytes device = Ok True"
proof -
  define br where "br = \<lparr>br_symbol_table = Map.empty, br_instructions = [], br_use_new_bytecode = True\<rparr>"
  obtain bytes where bytes: "encode_to_bytecode_v2 br = Ok bytes" "length bytes < 2 ^ 32"
    by (simp add: br_def encode_to_bytecode_v2_def encode_instructions_def new_symbol_table_encoder_def)
  from match_bytecode_v2 [OF this] have "match_bytecode bytes device = Ok True" for device
    by (simp add: br_def)
  moreover have "encode_to_bytecode (empty_bind_rules True False) = Ok bytes"
    using bytes(1) by (simp add: empty_bind_rules_def br_def)
  ultimately show thesis using that by blast
qed

text \<open>
  C36. Without an input the option that disables automatic binding has no effect on the old format. The
  command passes its two flags to \<open>empty_bind_rules\<close> in the wrong order. With automatic binding
  disabled and the old format requested, the output is bytecode of the new format that matches
  every device, also one with the autobind property set.
\<close>

theorem no_input_binds_everything:
  assumes "os_can_create os output" and "accepts os (Some output)"
  shows "\<exists>bytes. handle_compile os ord None includes True True False lint (Some output) None w =
      (Ok (), with_file w output bytes)
    \<and> (\<exists>rest. bytes = to_be_bytes BIND_MAGIC_NUM @ to_le_bytes BYTECODE_VERSION @ rest)
    \<and> (\<forall>device. match_bytecode bytes device = Ok True)"
proof -
  obtain bytes where bytes: "encode_to_bytecode (empty_bind_rules True False) = Ok bytes"
    "\<And>device. match_bytecode bytes device = Ok True"
    by (rule no_rules_bytes) blast
  have "handle_compile os ord None includes True True False lint (Some output) None w =
      (Ok (), with_file w output bytes)"
    unfolding handle_compile_def
    by (simp add: open_output_file assms(1) then_io_def pure_io_def bytes(1) write_output_file assms(2))
  moreover have "\<exists>rest. bytes = to_be_bytes BIND_MAGIC_NUM @ to_le_bytes BYTECODE_VERSION @ rest"
    using bytes(1) by (auto simp: empty_bind_rules_def encode_to_bytecode_v2_def result_simps)
  ultimately show ?thesis using bytes(2) by blast
qed

theorem no_input_binds_everything_witness:
  "\<exists>bytes. handle_compile slow_os (\<lambda>_ xs. xs) None [] True True False False (Some [0x6F]) None ex_world =
      (Ok (), with_file ex_world [0x6F] bytes)
    \<and> match_bytecode bytes [NumberKey 2 \<mapsto> NumberValue 1] = Ok True"
  using no_input_binds_everything [of slow_os "[0x6F]" "\<lambda>_ xs. xs" "[]" False ex_world] by auto

section \<open>The debug command\<close>



lemma unlines_simps [simp]: "unlines [] = []" "unlines (l # ls) = writeln l @ unlines ls" "unlines (ls @ ls') = unlines ls @ unlines ls'"
  by (simp_all add: unlines_def)










section \<open>The header\<close>

text \<open>How a reader of the header takes the bytes apart.\<close>

fun split_commas :: "string \<Rightarrow> string list" where
  "split_commas [] = [[]]"
| "split_commas (c # cs) =
     (if c = CHR '','' then [] # split_commas cs else (c # hd (split_commas cs)) # tl (split_commas cs))"

definition read_hex :: "string \<Rightarrow> int" where
  "read_hex s = foldl (\<lambda>a c. a * 16 + digit_val c) 0 (drop 2 s)"

lemma split_commas_not_Nil [simp]: "split_commas s \<noteq> []"
  by (induction s) auto

lemma split_commas_append:
  "CHR '','' \<notin> set x \<Longrightarrow> split_commas (x @ CHR '','' # s) = x # split_commas s"
  "CHR '','' \<notin> set x \<Longrightarrow> split_commas x = [x]"
  by (induction x) auto

lemma split_join:
  "xs \<noteq> [] \<Longrightarrow> \<forall>x\<in>set xs. CHR '','' \<notin> set x \<Longrightarrow> split_commas (join xs '','') = xs"
  by (induction xs "'',''" rule: join.induct) (auto simp: split_commas_append)

lemma digits_no_comma: "0 \<le> n \<Longrightarrow> base \<le> 16 \<Longrightarrow> 2 \<le> base \<Longrightarrow> CHR '','' \<notin> set (digits base n)"
proof (induction base n rule: digits.induct)
  case (1 base n)
  have char: "digit_char d \<noteq> CHR '',''" if "0 \<le> d" "d < 16" for d
  proof -
    from that have "d \<in> set [0..15]" by simp
    then show ?thesis by (auto simp: upto.simps digit_char_def)
  qed
  have "0 \<le> n mod base" "n mod base < 16" "0 \<le> n div base"
    using 1(2-4) by (simp_all add: order_less_le_trans [OF pos_mod_bound] pos_imp_zdiv_nonneg_iff)
  with 1 char show ?case
    by (subst digits.simps) (auto simp: char [symmetric])
qed

lemma fmt_hex_reads: "read_hex (fmt_hex w) = uint w" "CHR '','' \<notin> set (fmt_hex w)"
  by (simp_all add: read_hex_def fmt_hex_def digits_value digits_no_comma)

text \<open>
  C34. The C header loses nothing. For rules of the new format, the generated header declares as many
  bytes as the bytecode has, and reading its list of hexadecimal numbers gives back the bytecode.
\<close>

theorem header_roundtrip:
  assumes "encode_to_bytecode_v2 br = Ok bytes" and "br_use_new_bytecode br"
  shows "\<exists>text. write_bind_template br = Ok (bind_v2_template (length bytes) text)
    \<and> map (word_of_int \<circ> read_hex) (split_commas text) = bytes"
proof -
  have "bytes \<noteq> []"
    using assms(1) by (auto simp: encode_to_bytecode_v2_def result_simps to_be_bytes_def)
  then have "split_commas (join (map fmt_hex bytes) '','') = map fmt_hex bytes"
    by (intro split_join) (auto simp: fmt_hex_reads)
  with assms show ?thesis
    by (intro exI [of _ "join (map fmt_hex bytes) '',''"])
      (simp add: write_bind_template_def encode_to_string_v2_def fmt_hex_reads map_idI)
qed

theorem header_roundtrip_witness:
  "\<exists>bytes text. encode_to_bytecode (Bind ex_compiled) = Ok bytes
    \<and> write_bind_template ex_compiled = Ok (bind_v2_template (length bytes) text)
    \<and> map (word_of_int \<circ> read_hex) (split_commas text) = bytes"
proof -
  obtain bytes where "encode_to_bytecode (Bind ex_compiled) = Ok bytes"
    by (rule ex_compiled_bytes)
  then show ?thesis
    using header_roundtrip [of ex_compiled bytes] by (auto simp: ex_compiled_def)
qed

section \<open>Generated constants\<close>

lemma upper_char_upper [simp]: "upper_char (upper_char c) = upper_char c"
proof (cases "97 \<le> (of_char c :: nat) \<and> (of_char c :: nat) \<le> 122")
  case True
  then have "((of_char c :: nat) - 32) mod 256 = of_char c - 32" by (intro mod_less) linarith
  moreover from True have "\<not> 97 \<le> (of_char c :: nat) - 32" by linarith
  ultimately show ?thesis using True by (simp add: upper_char_def Let_def)
qed (auto simp: upper_char_def Let_def)

lemma to_uppercase_upper [simp]:
  "to_uppercase (to_uppercase s) = to_uppercase s" "to_uppercase (s @ s') = to_uppercase s @ to_uppercase s'"
  by (simp_all add: to_uppercase_def)

lemma generate_declaration_name_upper [simp]:
  "generate_declaration_name (to_uppercase name) = generate_declaration_name name"
  by (rule ext) (simp add: generate_declaration_name_def split: LibraryValue.split)

text \<open>The names of the constants that are written for the values of a key.\<close>

definition value_constants :: "Declaration \<Rightarrow> string list" where
  "value_constants d = map (generate_declaration_name (to_uppercase (ci_name (dc_identifier d)))) (dc_values d)"

lemma check_values_spec:
  "case check_values identifier vs names of
     Ok names' \<Rightarrow> distinct (map (generate_declaration_name identifier) vs)
       \<and> set (map (generate_declaration_name identifier) vs) \<inter> names = {}
       \<and> names' = set (map (generate_declaration_name identifier) vs) \<union> names
   | Err e \<Rightarrow> (\<exists>name. e = duplicate_name name)
       \<and> \<not> (distinct (map (generate_declaration_name identifier) vs)
         \<and> set (map (generate_declaration_name identifier) vs) \<inter> names = {})
   | Panic \<Rightarrow> False"
proof (induction vs arbitrary: names)
  case (Cons v vs)
  let ?name = "generate_declaration_name identifier v"
  show ?case
    using Cons.IH [of "insert ?name names"]
    by (cases "check_values identifier vs (insert ?name names)") (auto simp: Let_def)
qed simp

lemma check_names_from_spec:
  "case check_names_from ds names of
     Ok _ \<Rightarrow> distinct (concat (map value_constants ds)) \<and> set (concat (map value_constants ds)) \<inter> names = {}
   | Err e \<Rightarrow> (\<exists>name. e = duplicate_name name)
       \<and> \<not> (distinct (concat (map value_constants ds)) \<and> set (concat (map value_constants ds)) \<inter> names = {})
   | Panic \<Rightarrow> False"
proof (induction ds arbitrary: names)
  case (Cons d ds)
  have first: "case check_values (ci_name (dc_identifier d)) (dc_values d) names of
      Ok names' \<Rightarrow> distinct (value_constants d) \<and> set (value_constants d) \<inter> names = {}
        \<and> names' = set (value_constants d) \<union> names
    | Err e \<Rightarrow> (\<exists>name. e = duplicate_name name)
        \<and> \<not> (distinct (value_constants d) \<and> set (value_constants d) \<inter> names = {})
    | Panic \<Rightarrow> False"
    using check_values_spec [of "ci_name (dc_identifier d)" "dc_values d" names]
    by (simp only: value_constants_def generate_declaration_name_upper)
  show ?case
  proof (cases "check_values (ci_name (dc_identifier d)) (dc_values d) names")
    case (Ok names')
    with first Cons.IH [of names'] show ?thesis
      by (cases "check_names_from ds names'") auto
  qed (use first in auto)
qed simp

text \<open>
  C35. Constants for values never collide. A FIDL library is generated for a bind library exactly if
  the names of the constants written for its values are all different. Otherwise the command
  fails with the message about a name that is generated twice.
\<close>

theorem fidl_values_unique:
  "case write_fidl_template ast of
     Ok _ \<Rightarrow> distinct (concat (map value_constants (lib_declarations ast)))
   | Err e \<Rightarrow> (\<exists>name. e = duplicate_name name) \<and> \<not> distinct (concat (map value_constants (lib_declarations ast)))
   | Panic \<Rightarrow> False"
  using check_names_from_spec [of "lib_declarations ast" "{}"]
  by (cases "check_names_from (lib_declarations ast) {}") (simp_all add: write_fidl_template_def check_names_def Let_def)

lemma sublist_concat: "x \<in> set xs \<Longrightarrow> sublist x (concat xs)"
  by (drule split_list) (auto simp: sublist_appendI)

lemma sublist_trans: "sublist x y \<Longrightarrow> sublist y z \<Longrightarrow> sublist x z"
  by (rule sublist_order.order_trans)

lemma sublist_after: "sublist x z \<Longrightarrow> sublist x (y @ y' @ z)"
  by (metis append.assoc append_Nil2 sublist_appendI sublist_trans)

lemma sublist_join: "x \<in> set xs \<Longrightarrow> sublist x (join xs sep)"
  by (induction xs sep rule: join.induct) (auto intro: sublist_appendI sublist_after)

text \<open>The line that defines the constant of a key.\<close>

definition key_line :: "string \<Rightarrow> string \<Rightarrow> string" where
  "key_line path name =
     writeln (''const '' @ name @ '' fdf.NodePropertyKeyString = '' @ quote (path @ ''.'' @ name) @ '';'')"

lemma fidl_lines:
  assumes "d \<in> set (lib_declarations ast)" and "write_fidl_template ast = Ok out"
  shows "\<not> dc_extends d \<Longrightarrow>
      sublist (key_line (ci_to_string (lib_name ast)) (to_uppercase (ci_name (dc_identifier d)))) out"
    and "v \<in> set (dc_values d) \<Longrightarrow>
      sublist (writeln (fidl_value (generate_declaration_name (ci_name (dc_identifier d)) v) v)) out"
proof -
  let ?path = "ci_to_string (lib_name ast)"
  have "sublist (convert_to_fidl_constant d ?path) (join (map (\<lambda>d. convert_to_fidl_constant d ?path) (lib_declarations ast)) [CHR 0x0A])"
    using assms(1) by (intro sublist_join) simp
  moreover have "sublist t (fidl_template name t)" for name t
  proof (rule sublist_trans [of _ "writeln t"])
    show "sublist t (writeln t)" by (simp add: writeln_def)
    show "sublist (writeln t) (fidl_template name t)"
      unfolding fidl_template_def unlines_def by (rule sublist_concat) simp
  qed
  moreover obtain name where
    "out = fidl_template name (join (map (\<lambda>d. convert_to_fidl_constant d ?path) (lib_declarations ast)) [CHR 0x0A])"
    using assms(2) by (auto simp: write_fidl_template_def Let_def result_simps)
  ultimately have sub: "sublist (convert_to_fidl_constant d ?path) out"
    by (metis sublist_trans)
  show "sublist (key_line ?path (to_uppercase (ci_name (dc_identifier d)))) out" if "\<not> dc_extends d"
    using that by (intro sublist_trans [OF _ sub]) (simp add: convert_to_fidl_constant_def key_line_def Let_def)
  show "sublist (writeln (fidl_value (generate_declaration_name (ci_name (dc_identifier d)) v) v)) out"
    if "v \<in> set (dc_values d)"
  proof (rule sublist_trans [OF _ sub])
    have "sublist (writeln (fidl_value (generate_declaration_name (ci_name (dc_identifier d)) v) v))
        (concat (map (\<lambda>v. writeln (fidl_value (generate_declaration_name (ci_name (dc_identifier d)) v) v)) (dc_values d)))"
      using that by (intro sublist_concat) simp
    then show "sublist (writeln (fidl_value (generate_declaration_name (ci_name (dc_identifier d)) v) v))
        (convert_to_fidl_constant d ?path)"
      by (simp add: convert_to_fidl_constant_def Let_def sublist_append)
  qed
qed

definition ex_clash :: string where
  "ex_clash = ''library a; uint b { c = 1 }; uint b_c { d = 2 };''"

definition ex_clash_ast :: LibraryAst where
  "ex_clash_ast =
     \<lparr>lib_name = \<lparr>ci_namespace = [], ci_name = ''a''\<rparr>, lib_using = [],
      lib_declarations =
        [\<lparr>dc_identifier = \<lparr>ci_namespace = [], ci_name = ''b''\<rparr>, dc_value_type = VtNumber, dc_extends = False,
          dc_values = [LvNumber ''c'' 1]\<rparr>,
         \<lparr>dc_identifier = \<lparr>ci_namespace = [], ci_name = ''b_c''\<rparr>, dc_value_type = VtNumber, dc_extends = False,
          dc_values = [LvNumber ''d'' 2]\<rparr>]\<rparr>"

lemma ex_clash_parses: "library_try_from ex_clash = Ok ex_clash_ast"
  by code_simp

text \<open>
  C37. Constants for keys are not checked. Take any library whose values have constants with
  different names, with a key whose name in upper case is also the name of the constant for a value of some key.
  The FIDL library is generated without an error and contains two lines that define this
  name, one for the key and one for the value.
\<close>

theorem fidl_key_clash:
  assumes "distinct (concat (map value_constants (lib_declarations ast)))"
    and "d \<in> set (lib_declarations ast)" and "\<not> dc_extends d"
    and "e \<in> set (lib_declarations ast)" and "v \<in> set (dc_values e)"
    and "name = to_uppercase (ci_name (dc_identifier d))"
    and "name = generate_declaration_name (ci_name (dc_identifier e)) v"
  shows "\<exists>out. write_fidl_template ast = Ok out
    \<and> sublist (key_line (ci_to_string (lib_name ast)) name) out
    \<and> sublist (writeln (fidl_value name v)) out
    \<and> prefix (''const '' @ name) (key_line (ci_to_string (lib_name ast)) name)
    \<and> prefix (''const '' @ name) (fidl_value name v)"
proof -
  have "\<exists>out. write_fidl_template ast = Ok out"
    using check_names_from_spec [of "lib_declarations ast" "{}"] assms(1)
    by (cases "check_names_from (lib_declarations ast) {}") (simp_all add: write_fidl_template_def check_names_def Let_def)
  then obtain out where out: "write_fidl_template ast = Ok out" by blast
  have "prefix (''const '' @ name) (fidl_value name v)"
    by (cases v) (simp_all add: prefix_def)
  with fidl_lines(1) [OF assms(2) out assms(3)] fidl_lines(2) [OF assms(4) out assms(5)] out assms(6,7)
  show ?thesis
    by (auto simp: key_line_def writeln_def prefix_def)
qed

theorem fidl_key_clash_witness:
  "\<exists>out. library_try_from ex_clash = Ok ex_clash_ast \<and> write_fidl_template ex_clash_ast = Ok out
     \<and> sublist (key_line ''a'' ''B_C'') out \<and> sublist (writeln (fidl_value ''B_C'' (LvNumber ''c'' 1))) out"
proof -
  let ?d = "lib_declarations ex_clash_ast ! 1" and ?e = "lib_declarations ex_clash_ast ! 0"
  have names: "to_uppercase ''b_c'' = ''B_C''" "generate_declaration_name ''b'' (LvNumber ''c'' 1) = ''B_C''"
    "generate_declaration_name ''b_c'' (LvNumber ''d'' 2) = ''B_C_D''"
    by (simp_all add: generate_declaration_name_def to_uppercase_def upper_char_def char_of_def of_char_def bit_0)
  have "distinct (concat (map value_constants (lib_declarations ex_clash_ast)))"
    by (simp add: value_constants_def ex_clash_ast_def names(2,3))
  moreover have "?d \<in> set (lib_declarations ex_clash_ast)" "\<not> dc_extends ?d"
    "?e \<in> set (lib_declarations ex_clash_ast)" "LvNumber ''c'' 1 \<in> set (dc_values ?e)"
    by (simp_all add: ex_clash_ast_def)
  moreover have "''B_C'' = to_uppercase (ci_name (dc_identifier ?d))"
    "''B_C'' = generate_declaration_name (ci_name (dc_identifier ?e)) (LvNumber ''c'' 1)"
    by (simp_all add: ex_clash_ast_def names(1,2))
  ultimately have "\<exists>out. write_fidl_template ex_clash_ast = Ok out
      \<and> sublist (key_line (ci_to_string (lib_name ex_clash_ast)) ''B_C'') out
      \<and> sublist (writeln (fidl_value ''B_C'' (LvNumber ''c'' 1))) out"
    using fidl_key_clash by blast
  moreover have "ci_to_string (lib_name ex_clash_ast) = ''a''"
    by (simp add: ex_clash_ast_def ci_to_string_def)
  ultimately show ?thesis
    using ex_clash_parses by (simp only:) blast
qed

end
