(* ===== verification/Library_Order.thy ===== *)
theory Library_Order
  imports Symbol_Table
begin

text \<open>
  Library resolution in terms of library names: which libraries \<open>resolve_dependencies\<close> returns, in
  which order, and when it fails.
\<close>

section \<open>Stores of named things\<close>

text \<open>
  The contract of the node store: insertion never fails and the latest insertion wins. The lemma
  is used for the loop that inserts all libraries.
\<close>

locale named_store =
  fixes lookup :: "'s \<Rightarrow> 'k \<rightharpoonup> 'v"
    and insert_one :: "'k \<Rightarrow> 'v \<Rightarrow> 's \<Rightarrow> ('s, 'e) result"
    and inv :: "'s \<Rightarrow> bool"
  assumes insert_ok: "inv s \<Longrightarrow> \<exists>s'. insert_one k v s = Ok s' \<and> inv s' \<and> lookup s' = (lookup s)(k \<mapsto> v)"
begin

lemma insert_all:
  assumes "\<And>s. f [] s = Ok s" and "\<And>x xs s. f (x # xs) s = and_then (insert_one (key x) x s) (f xs)" and "inv s"
  shows "\<exists>s'. f xs s = Ok s' \<and> inv s' \<and> lookup s' = lookup s ++ map_of (rev (map (\<lambda>x. (key x, x)) xs))"
  using assms(3)
proof (induction xs arbitrary: s)
  case Nil
  then show ?case by (simp add: assms(1))
next
  case (Cons x xs)
  from insert_ok [OF Cons.prems, of "key x" x] obtain s1 where
    s1: "insert_one (key x) x s = Ok s1" "inv s1" "lookup s1 = (lookup s)(key x \<mapsto> x)"
    by blast
  from Cons.IH [OF s1(2)] obtain s' where
    "f xs s1 = Ok s'" "inv s'" "lookup s' = lookup s1 ++ map_of (rev (map (\<lambda>x. (key x, x)) xs))"
    by blast
  with s1 show ?case
    by (simp add: assms(2) map_add_def fun_eq_iff split: option.split)
qed

end

definition lookup_node :: "('k, 'v) DependencyGraph \<Rightarrow> 'k \<rightharpoonup> 'v" where
  "lookup_node g k =
     (case dg_indices g k of
        Some i \<Rightarrow> (case dg_nodes g ! i of Data _ v \<Rightarrow> Some v | _ \<Rightarrow> None)
      | None \<Rightarrow> None)"

definition nodes_only :: "('k, 'v) DependencyGraph \<Rightarrow> bool" where
  "nodes_only g \<longleftrightarrow> graph_inv g \<and> edges g = {}"

lemma insert_node_ok:
  assumes "nodes_only g"
  shows "\<exists>g'. insert_node k v g = Ok g' \<and> nodes_only g' \<and> lookup_node g' = (lookup_node g)(k \<mapsto> v)"
proof -
  have inv: "graph_inv g" "edges g = {}"
    using assms by (simp_all add: nodes_only_def)
  let ?n = "length (dg_nodes g)"
  let ?nodes = "case dg_indices g k of None \<Rightarrow> dg_nodes g @ [Data k v] | Some p \<Rightarrow> (dg_nodes g @ [Data k v])[p := Zombie]"
  let ?g = "g\<lparr>dg_nodes := ?nodes, dg_indices := (dg_indices g)(k \<mapsto> ?n)\<rparr>"
  have prev: "p < ?n \<and> p \<noteq> 0 \<and> (\<exists>w. dg_nodes g ! p = Data k w)" if "dg_indices g k = Some p" for p
    using index_live [OF inv(1) that] by (auto simp: live_def)
  have ok: "insert_node k v g = Ok ?g"
    using prev by (auto simp: insert_node_def Let_def split: option.split)
  have nth: "?nodes ! i = (if i = ?n then Data k v else if dg_indices g k = Some i then Zombie else dg_nodes g ! i)"
    if "i \<le> ?n" for i
    using that prev by (auto simp: nth_append nth_list_update split: option.split)
  have len: "length ?nodes = Suc ?n"
    by (simp split: option.split)
  have exact: "dg_indices g k' = Some i \<longleftrightarrow> i < ?n \<and> (\<exists>w. dg_nodes g ! i = Data k' w)" for k' i
    using inv(1) by (simp add: graph_inv_def)
  have "edge_inv ?g" "edges ?g = {}"
    using inv by (simp_all add: graph_inv_def edge_inv_def edges_def)
  moreover have "dg_nodes ?g ! 0 = Root" "dg_nodes ?g \<noteq> []"
    using nth [of 0] len inv(1) prev by (auto simp: graph_inv_def split: if_splits)
  moreover have "dg_nodes ?g ! i \<noteq> Root" if "i \<in> live ?g" "i \<noteq> 0" for i
    using that nth [of i] inv(1) len by (auto simp: graph_inv_def live_def split: if_splits)
  moreover have "dg_indices ?g k' = Some i \<longleftrightarrow> i < length (dg_nodes ?g) \<and> (\<exists>w. dg_nodes ?g ! i = Data k' w)" for k' i
    using nth [of i] exact [of k' i] exact [of k i] len
    by (auto split: if_splits dest!: sym [of "Data _ _"])
  ultimately have "nodes_only ?g"
    by (simp add: nodes_only_def graph_inv_def)
  moreover have "lookup_node ?g = (lookup_node g)(k \<mapsto> v)"
  proof
    fix k'
    show "lookup_node ?g k' = ((lookup_node g)(k \<mapsto> v)) k'"
    proof (cases "dg_indices g k'")
      case (Some i)
      with exact have "i < ?n" "\<exists>w. dg_nodes g ! i = Data k' w" by auto
      with Some nth [of i] nth [of ?n] exact [of k i] show ?thesis
        by (auto simp: lookup_node_def)
    qed (use nth [of ?n] in \<open>auto simp: lookup_node_def\<close>)
  qed
  ultimately show ?thesis using ok by blast
qed

interpretation libs: named_store lookup_node insert_node nodes_only
  by unfold_locales (rule insert_node_ok)

section \<open>Edges by name\<close>

definition library_map :: "LibraryAst list \<Rightarrow> CompoundIdentifier \<rightharpoonup> LibraryAst" where
  "library_map libs = map_of (rev (map (\<lambda>l. (lib_name l, l)) libs))"

abbreviation include_names :: "Include list \<Rightarrow> CompoundIdentifier set" where
  "include_names is \<equiv> inc_name ` set is"

definition uses :: "LibraryAst list \<Rightarrow> (CompoundIdentifier \<times> CompoundIdentifier) set" where
  "uses libs = {(a, b). \<exists>l\<in>set libs. a = lib_name l \<and> b \<in> include_names (lib_using l)}"

text \<open>What the edge-inserting loops keep, and the edges they add for the named pairs \<open>D\<close> and roots \<open>R\<close>.\<close>

definition named_edges ::
    "(CompoundIdentifier \<rightharpoonup> nat) \<Rightarrow> CompoundIdentifier set \<Rightarrow> (CompoundIdentifier \<times> CompoundIdentifier) set
     \<Rightarrow> (nat \<times> nat) set" where
  "named_edges idx R D =
     {(0, j) |j. \<exists>n\<in>R. idx n = Some j} \<union> {(i, j) |i j. \<exists>a b. (a, b) \<in> D \<and> idx a = Some i \<and> idx b = Some j}"

definition adds_edges ::
    "((CompoundIdentifier, LibraryAst) DependencyGraph, CompoundIdentifier DependencyError) result
     \<Rightarrow> (CompoundIdentifier, LibraryAst) DependencyGraph \<Rightarrow> CompoundIdentifier set
     \<Rightarrow> (CompoundIdentifier \<times> CompoundIdentifier) set \<Rightarrow> bool" where
  "adds_edges r g R D \<longleftrightarrow>
     (case r of
        Ok g' \<Rightarrow>
          graph_inv g' \<and> dg_nodes g' = dg_nodes g \<and> dg_indices g' = dg_indices g
          \<and> edges g' = edges g \<union> named_edges (dg_indices g) R D \<and> R \<union> Field D \<subseteq> dom (dg_indices g)
      | Err e \<Rightarrow> (\<exists>n\<in>R \<union> Field D. dg_indices g n = None \<and> e = MissingDependency n)
      | Panic \<Rightarrow> False)"

lemma named_edges_Un: "named_edges idx (R \<union> R') (D \<union> D') = named_edges idx R D \<union> named_edges idx R' D'"
  by (auto simp: named_edges_def)

lemma adds_edges_refl: "graph_inv g \<Longrightarrow> adds_edges (Ok g) g {} {}"
  by (simp add: adds_edges_def named_edges_def)

lemma adds_edges_then:
  assumes "adds_edges r g R D" and "\<And>g'. r = Ok g' \<Longrightarrow> graph_inv g' \<Longrightarrow> adds_edges (f g') g' R' D'"
  shows "adds_edges (and_then r f) g (R \<union> R') (D \<union> D')"
proof (cases r)
  case (Ok g')
  with assms(1) have g': "graph_inv g'" "dg_nodes g' = dg_nodes g" "dg_indices g' = dg_indices g"
    "edges g' = edges g \<union> named_edges (dg_indices g) R D" "R \<union> Field D \<subseteq> dom (dg_indices g)"
    by (simp_all add: adds_edges_def)
  from assms(2) [OF Ok g'(1)] show ?thesis
    using g' Ok by (cases "f g'") (auto simp: adds_edges_def named_edges_Un Field_Un)
qed (use assms(1) in \<open>auto simp: adds_edges_def Field_Un\<close>)

lemma insert_edge_adds:
  assumes "graph_inv g"
  shows "adds_edges (insert_edge a b g) g {} {(a, b)}"
proof (cases "dg_indices g a = None \<or> dg_indices g b = None")
  case True
  then show ?thesis
    by (auto simp: adds_edges_def insert_edge_def get_index_def ok_or_def split: option.splits)
next
  case False
  then obtain g' where "insert_edge a b g = Ok g'"
    by (auto simp: insert_edge_def get_index_def)
  moreover from insert_edge_inv [OF assms this] obtain i j where
    "dg_indices g a = Some i" "dg_indices g b = Some j" "graph_inv g'" "edges g' = insert (i, j) (edges g)"
    "dg_nodes g' = dg_nodes g" "dg_indices g' = dg_indices g"
    by metis
  moreover from this have "named_edges (dg_indices g) {} {(a, b)} = {(i, j)}"
    by (simp add: named_edges_def)
  ultimately show ?thesis
    by (simp add: adds_edges_def Field_def dom_def)
qed

lemma insert_root_edge_adds:
  assumes "graph_inv g"
  shows "adds_edges (insert_edge_from_root b g) g {b} {}"
proof (cases "dg_indices g b = None")
  case True
  then show ?thesis
    by (simp add: adds_edges_def insert_edge_from_root_def get_index_def)
next
  case False
  then obtain g' where "insert_edge_from_root b g = Ok g'"
    by (auto simp: insert_edge_from_root_def get_index_def)
  moreover from insert_edge_from_root_inv [OF assms this] obtain j where
    "dg_indices g b = Some j" "graph_inv g'" "edges g' = insert (0, j) (edges g)"
    "dg_nodes g' = dg_nodes g" "dg_indices g' = dg_indices g"
    by metis
  moreover from this have "named_edges (dg_indices g) {b} {} = {(0, j)}"
    by (simp add: named_edges_def)
  ultimately show ?thesis
    by (simp add: adds_edges_def dom_def)
qed

lemma insert_root_edges_adds: "graph_inv g \<Longrightarrow> adds_edges (insert_root_edges is g) g (include_names is) {}"
proof (induction "is" arbitrary: g)
  case (Cons i "is")
  from adds_edges_then [OF insert_root_edge_adds [OF Cons.prems] Cons.IH, of "inc_name i"] show ?case
    by simp
qed (simp add: adds_edges_refl)

lemma insert_edges_from_adds: "graph_inv g \<Longrightarrow> adds_edges (insert_edges_from a is g) g {} ({a} \<times> include_names is)"
proof (induction "is" arbitrary: g)
  case (Cons i "is")
  have "{a} \<times> include_names (i # is) = {(a, inc_name i)} \<union> {a} \<times> include_names is" by auto
  with adds_edges_then [OF insert_edge_adds [OF Cons.prems] Cons.IH, of a "inc_name i"] show ?case
    by simp
qed (simp add: adds_edges_refl)

lemma insert_library_edges_adds: "graph_inv g \<Longrightarrow> adds_edges (insert_library_edges libs g) g {} (uses libs)"
proof (induction libs arbitrary: g)
  case (Cons l libs)
  have "uses (l # libs) = {lib_name l} \<times> include_names (lib_using l) \<union> uses libs"
    by (auto simp: uses_def)
  with adds_edges_then [OF insert_edges_from_adds [OF Cons.prems] Cons.IH, of "lib_name l" "lib_using l"] show ?case
    by simp
qed (simp add: adds_edges_refl uses_def)

section \<open>Orders\<close>

lemma filter_split:
  "filter P L = ys @ x # zs \<Longrightarrow> \<exists>us vs. L = us @ x # vs \<and> filter P us = ys"
proof (induction L arbitrary: ys)
  case (Cons a L)
  show ?case
  proof (cases "P a \<and> ys = []")
    case True
    with Cons.prems show ?thesis by (intro exI [of _ "[]"] exI [of _ L]) auto
  next
    case False
    with Cons.prems have "filter P L = (if P a then tl ys else ys) @ x # zs"
      by (cases ys) (auto split: if_splits)
    from Cons.IH [OF this] obtain us vs where "L = us @ x # vs" "filter P us = (if P a then tl ys else ys)"
      by blast
    with False Cons.prems show ?thesis
      by (intro exI [of _ "a # us"] exI [of _ vs]) (cases ys; auto split: if_splits)
  qed
qed simp

lemma dependencies_after_filter:
  assumes "dependencies_after E L"
  shows "dependencies_after E (filter P L)"
  unfolding dependencies_after_def
proof (intro allI impI ballI)
  fix ys x zs i
  assume L: "filter P L = ys @ x # zs" and i: "i \<in> set (filter P L)" "(i, x) \<in> E"
  from filter_split [OF L] obtain us vs where uv: "L = us @ x # vs" "filter P us = ys"
    by blast
  have "i \<in> set L"
    using i(1) by simp
  with assms i(2) uv(1) have "i \<in> set us"
    unfolding dependencies_after_def by blast
  with i uv(2) show "i \<in> set ys" by auto
qed

lemma dependencies_after_map:
  assumes "dependencies_after E L" and "\<And>i j. i \<in> set L \<Longrightarrow> j \<in> set L \<Longrightarrow> (f i, f j) \<in> E' \<Longrightarrow> (i, j) \<in> E"
  shows "dependencies_after E' (map f L)"
  unfolding dependencies_after_def
proof (intro allI impI ballI)
  fix ys x zs a
  assume L: "map f L = ys @ x # zs" and a: "a \<in> set (map f L)" "(a, x) \<in> E'"
  from L obtain ys' x' zs' where L': "L = ys' @ x' # zs'" "ys = map f ys'" "x = f x'"
    by (auto simp: map_eq_append_conv map_eq_Cons_conv)
  from a(1) obtain i where i: "i \<in> set L" "a = f i" by auto
  with a(2) L' have "(i, x') \<in> E"
    by (intro assms(2)) auto
  with assms(1) L'(1) i(1) have "i \<in> set ys'"
    unfolding dependencies_after_def by blast
  with i(2) L'(2) show "a \<in> set ys" by simp
qed

section \<open>Names of nodes\<close>

text \<open>The graph that \<open>resolve_dependencies\<close> builds, related to the libraries.\<close>

definition represents ::
    "(CompoundIdentifier, LibraryAst) DependencyGraph \<Rightarrow> Include list \<Rightarrow> LibraryAst list \<Rightarrow> bool" where
  "represents g using libs \<longleftrightarrow>
     graph_inv g \<and> lookup_node g = library_map libs
     \<and> edges g = named_edges (dg_indices g) (include_names using) (uses libs)
     \<and> include_names using \<union> Field (uses libs) \<subseteq> dom (dg_indices g)"

definition needed :: "Include list \<Rightarrow> LibraryAst list \<Rightarrow> CompoundIdentifier set" where
  "needed using libs = (uses libs)\<^sup>* `` include_names using"

lemma library_map_name: "library_map libs n = Some l \<Longrightarrow> lib_name l = n \<and> l \<in> set libs"
  by (auto simp: library_map_def dest!: map_of_SomeD)

lemma represents_index:
  assumes "represents g using libs" and "dg_indices g n = Some i"
  shows "\<exists>l. dg_nodes g ! i = Data n l \<and> library_map libs n = Some l" and "i \<noteq> 0"
proof -
  have inv: "graph_inv g"
    using assms(1) by (simp add: represents_def)
  from index_live [OF inv assms(2)] obtain l where l: "dg_nodes g ! i = Data n l" "i \<noteq> 0" by auto
  then have "lookup_node g n = Some l"
    by (simp add: lookup_node_def assms(2))
  with l assms(1) show "\<exists>l. dg_nodes g ! i = Data n l \<and> library_map libs n = Some l" "i \<noteq> 0"
    by (simp_all add: represents_def)
qed

lemma represents_inj:
  assumes "represents g using libs" and "dg_indices g a = Some i" and "dg_indices g b = Some i"
  shows "a = b"
  using represents_index(1) [OF assms(1,2)] represents_index(1) [OF assms(1,3)] by auto

lemma represents_edges:
  assumes "represents g using libs"
  shows "(i, j) \<in> edges g \<longleftrightarrow> (i = 0 \<and> (\<exists>b\<in>include_names using. dg_indices g b = Some j))
    \<or> (\<exists>a b. (a, b) \<in> uses libs \<and> dg_indices g a = Some i \<and> dg_indices g b = Some j)"
proof -
  have "edges g = named_edges (dg_indices g) (include_names using) (uses libs)"
    using assms by (simp add: represents_def)
  then show ?thesis by (simp add: named_edges_def)
qed

lemma represents_edge:
  assumes r: "represents g using libs" and i: "dg_indices g a = Some i"
  shows "(i, j) \<in> edges g \<longleftrightarrow> (\<exists>b. (a, b) \<in> uses libs \<and> dg_indices g b = Some j)"
  unfolding represents_edges [OF r] using represents_index(2) [OF r i] represents_inj [OF r i] i by blast

lemma represents_root_edge:
  assumes r: "represents g using libs"
  shows "(0, j) \<in> edges g \<longleftrightarrow> (\<exists>b\<in>include_names using. dg_indices g b = Some j)"
  unfolding represents_edges [OF r] using represents_index(2) [OF r] by blast

lemma represents_reach:
  assumes r: "represents g using libs"
  shows "(0, i) \<in> (edges g)\<^sup>* \<longleftrightarrow> i = 0 \<or> (\<exists>n\<in>needed using libs. dg_indices g n = Some i)"
proof
  assume "(0, i) \<in> (edges g)\<^sup>*"
  then show "i = 0 \<or> (\<exists>n\<in>needed using libs. dg_indices g n = Some i)"
  proof (induction rule: rtrancl_induct)
    case (step i j)
    from step.IH show ?case
    proof
      assume "i = 0"
      with step.hyps(2) represents_root_edge [OF r] show ?thesis
        by (auto simp: needed_def)
    next
      assume "\<exists>n\<in>needed using libs. dg_indices g n = Some i"
      then obtain n where n: "n \<in> needed using libs" "dg_indices g n = Some i" by blast
      with step.hyps(2) represents_edge [OF r n(2)] obtain b where
        "(n, b) \<in> uses libs" "dg_indices g b = Some j" by auto
      with n(1) show ?thesis
        by (auto simp: needed_def intro: rtrancl_into_rtrancl)
    qed
  qed simp
next
  have path: "(0, i) \<in> (edges g)\<^sup>*"
    if "(a, n) \<in> (uses libs)\<^sup>*" "a \<in> include_names using" "dg_indices g n = Some i" for a n i
    using that
  proof (induction arbitrary: i rule: rtrancl_induct)
    case base
    then show ?case using represents_root_edge [OF r] by auto
  next
    case (step m n)
    from step.hyps(2) r obtain k where k: "dg_indices g m = Some k"
      by (fastforce simp: represents_def Field_def)
    with step represents_edge [OF r k] have "(k, i) \<in> edges g" by auto
    with step.IH [OF step.prems(1) k] show ?case by (rule rtrancl_into_rtrancl)
  qed
  assume "i = 0 \<or> (\<exists>n\<in>needed using libs. dg_indices g n = Some i)"
  then show "(0, i) \<in> (edges g)\<^sup>*"
    using path by (auto simp: needed_def)
qed

lemma represents_acyclic:
  assumes r: "represents g using libs"
  shows "acyclic (edges g) \<longleftrightarrow> acyclic (uses libs)"
proof -
  have named: "\<exists>i. dg_indices g a = Some i" if "(a, b) \<in> uses libs \<or> (b, a) \<in> uses libs" for a b
    using r that unfolding represents_def Field_def by blast
  have up: "(i, j) \<in> (edges g)\<^sup>+" if "(a, b) \<in> (uses libs)\<^sup>+" "dg_indices g a = Some i" "dg_indices g b = Some j" for a b i j
    using that
  proof (induction arbitrary: j rule: trancl_induct)
    case (base b)
    then show ?case using represents_edge [OF r] by blast
  next
    case (step b c)
    from named step.hyps(2) obtain k where k: "dg_indices g b = Some k" by blast
    with step represents_edge [OF r k] have "(k, j) \<in> edges g" by blast
    with step.IH [OF step.prems(1) k] show ?case by (rule trancl_into_trancl)
  qed
  have down: "i = 0 \<and> j \<noteq> 0 \<or> (\<exists>a b. (a, b) \<in> (uses libs)\<^sup>+ \<and> dg_indices g a = Some i \<and> dg_indices g b = Some j)"
    if "(i, j) \<in> (edges g)\<^sup>+" for i j
    using that
  proof (induction rule: trancl_induct)
    case (base j)
    then show ?case
      using represents_edges [OF r, of i j] represents_index(2) [OF r, of _ j] by blast
  next
    case (step j k)
    have k: "k \<noteq> 0"
      using step.hyps(2) represents_edges [OF r, of j k] represents_index(2) [OF r, of _ k] by blast
    from step.IH show ?case
    proof (elim disjE exE conjE)
      fix a b
      assume "(a, b) \<in> (uses libs)\<^sup>+" "dg_indices g a = Some i" "dg_indices g b = Some j"
      with step.hyps(2) represents_edge [OF r, of b j k] show ?thesis
        by (meson trancl_into_trancl)
    qed (use k in simp)
  qed
  show ?thesis
    unfolding acyclic_def
  proof (intro iffI allI notI)
    fix a
    assume *: "\<forall>i. (i, i) \<notin> (edges g)\<^sup>+" "(a, a) \<in> (uses libs)\<^sup>+"
    then obtain i where "dg_indices g a = Some i"
      using named by (metis tranclD)
    with * up show False by blast
  next
    fix i
    assume *: "\<forall>a. (a, a) \<notin> (uses libs)\<^sup>+" "(i, i) \<in> (edges g)\<^sup>+"
    from down [OF *(2)] obtain a b where ab: "(a, b) \<in> (uses libs)\<^sup>+" "dg_indices g a = Some i" "dg_indices g b = Some i"
      by blast
    from represents_inj [OF r ab(2,3)] ab(1) *(1) show False by simp
  qed
qed

section \<open>Resolution\<close>

lemma represents_data:
  assumes r: "represents g using libs" and L: "set L = {i. (0, i) \<in> (edges g)\<^sup>*}"
  obtains nm where "node_data g L = map (\<lambda>i. the (library_map libs (nm i))) (filter (\<lambda>i. i \<noteq> 0) L)"
    and "\<forall>i\<in>set L. i \<noteq> 0 \<longrightarrow> dg_indices g (nm i) = Some i \<and> nm i \<in> needed using libs
      \<and> (\<exists>l. library_map libs (nm i) = Some l)"
proof -
  have ex: "\<exists>n. dg_indices g n = Some i \<and> n \<in> needed using libs" if "i \<in> set L" "i \<noteq> 0" for i
    using that L represents_reach [OF r, of i] by auto
  then obtain nm where nm: "\<And>i. i \<in> set L \<Longrightarrow> i \<noteq> 0 \<Longrightarrow> dg_indices g (nm i) = Some i \<and> nm i \<in> needed using libs"
    by metis
  have root: "dg_nodes g ! 0 = Root"
    using r by (simp add: represents_def graph_inv_def)
  have data: "\<exists>n. dg_nodes g ! i = Data n (the (library_map libs (nm i)))" if "i \<in> set L" "i \<noteq> 0" for i
    using represents_index(1) [OF r conjunct1 [OF nm [OF that]]] by auto
  have "node_data g K = map (\<lambda>i. the (library_map libs (nm i))) (filter (\<lambda>i. i \<noteq> 0) K)" if "set K \<subseteq> set L" for K
    using that
  proof (induction K)
    case (Cons i K)
    then show ?case
      using data [of i] root by (auto simp: node_data_def)
  qed (simp add: node_data_def)
  then have "node_data g L = map (\<lambda>i. the (library_map libs (nm i))) (filter (\<lambda>i. i \<noteq> 0) L)" by simp
  moreover have "\<forall>i\<in>set L. i \<noteq> 0 \<longrightarrow> dg_indices g (nm i) = Some i \<and> nm i \<in> needed using libs
      \<and> (\<exists>l. library_map libs (nm i) = Some l)"
    using nm represents_index(1) [OF r] by meson
  ultimately show thesis by (rule that)
qed

lemma represents_resolve:
  assumes r: "represents g using libs"
  obtains (ok) ls where "acyclic (uses libs)" and "resolve ord g = Ok ls" and "distinct (map lib_name ls)"
      and "lib_name ` set ls = needed using libs" and "\<forall>l\<in>set ls. library_map libs (lib_name l) = Some l"
      and "dependencies_after (uses libs) (map lib_name ls)"
    | (circular) "\<not> acyclic (uses libs)" and "resolve ord g = Err CircularDependency"
proof -
  have inv: "graph_inv g"
    using r by (simp add: represents_def)
  show thesis
  proof (cases rule: resolve_spec [OF inv, of ord])
    case (1 L)
    obtain nm where nm: "node_data g L = map (\<lambda>i. the (library_map libs (nm i))) (filter (\<lambda>i. i \<noteq> 0) L)"
      "\<forall>i\<in>set L. i \<noteq> 0 \<longrightarrow> dg_indices g (nm i) = Some i \<and> nm i \<in> needed using libs
        \<and> (\<exists>l. library_map libs (nm i) = Some l)"
      by (rule represents_data [OF r 1(4)])
    let ?L = "filter (\<lambda>i. i \<noteq> 0) L" and ?ls = "node_data g L"
    have names: "map lib_name ?ls = map nm ?L"
      unfolding nm(1) using nm(2) library_map_name by (auto simp: o_def)
    have "inj_on nm (set ?L)"
      using nm(2) by (intro inj_onI) (metis (mono_tags, lifting) mem_Collect_eq option.inject set_filter)
    then have "distinct (map lib_name ?ls)"
      unfolding names using 1(3) by (simp add: distinct_map)
    moreover have "nm ` set ?L = needed using libs"
    proof
      show "nm ` set ?L \<subseteq> needed using libs" using nm(2) by auto
      show "needed using libs \<subseteq> nm ` set ?L"
      proof
        fix n
        assume n: "n \<in> needed using libs"
        then have "n \<in> include_names using \<union> Field (uses libs)"
          by (auto simp: needed_def Field_def elim: rtranclE)
        then obtain i where i: "dg_indices g n = Some i"
          using r by (auto simp: represents_def)
        with n have "i \<in> set L" "i \<noteq> 0"
          using 1(4) represents_reach [OF r] represents_index(2) [OF r] by auto
        with nm(2) i represents_inj [OF r] have "n = nm i" "i \<in> set ?L" by auto
        then show "n \<in> nm ` set ?L" by blast
      qed
    qed
    then have "lib_name ` set ?ls = needed using libs"
      by (metis list.set_map names)
    moreover have "\<forall>l\<in>set ?ls. library_map libs (lib_name l) = Some l"
      unfolding nm(1) using nm(2) library_map_name by fastforce
    moreover have "dependencies_after (uses libs) (map lib_name ?ls)"
      unfolding names
    proof (rule dependencies_after_map [OF dependencies_after_filter [OF 1(5)]])
      show "(i, j) \<in> edges g" if "i \<in> set ?L" "j \<in> set ?L" "(nm i, nm j) \<in> uses libs" for i j
        using that nm(2) represents_edge [OF r, of "nm i" i j] by fastforce
    qed
    ultimately show thesis
      using 1(1,2) by (intro ok) (simp_all add: represents_acyclic [OF r])
  next
    case 2
    with circular represents_acyclic [OF r] show thesis by blast
  qed
qed

lemma lookup_node_dom:
  assumes "graph_inv g"
  shows "dom (lookup_node g) = dom (dg_indices g)"
proof -
  have "lookup_node g k = None \<longleftrightarrow> dg_indices g k = None" for k
    using index_live [OF assms, of k] by (cases "dg_indices g k") (auto simp: lookup_node_def)
  then show ?thesis by (simp add: dom_def)
qed

lemma library_map_dom: "dom (library_map libs) = lib_name ` set libs"
  by (force simp: library_map_def dom_map_of_conv_image_fst)

text \<open>
  The graph handed to \<open>resolve\<close>, or the name of a library that is used and does not exist.
\<close>

lemma dependency_graph_cases:
  obtains (ok) g where "resolve_dependencies ord using libs = map_err CeDependencyError (resolve ord g)"
      and "represents g using libs" and "include_names using \<union> Field (uses libs) \<subseteq> lib_name ` set libs"
    | (missing) n where "resolve_dependencies ord using libs = Err (CeDependencyError (MissingDependency n))"
      and "n \<in> include_names using \<union> Field (uses libs)" and "n \<notin> lib_name ` set libs"
proof -
  have new: "nodes_only new_graph" "lookup_node new_graph = Map.empty"
    using new_graph_inv by (simp_all add: nodes_only_def lookup_node_def new_graph_def edges_def entry_of_def fun_eq_iff)
  have "\<exists>g. insert_libraries libs new_graph = Ok g \<and> nodes_only g
      \<and> lookup_node g = lookup_node new_graph ++ map_of (rev (map (\<lambda>l. (lib_name l, l)) libs))"
    by (rule libs.insert_all) (simp_all add: new(1))
  then obtain g where g: "insert_libraries libs new_graph = Ok g" "nodes_only g" "lookup_node g = library_map libs"
    unfolding new(2) library_map_def by auto
  have inv: "graph_inv g" "edges g = {}"
    using g(2) by (simp_all add: nodes_only_def)
  define r where "r = and_then (insert_root_edges using g) (insert_library_edges libs)"
  have r: "adds_edges r g (include_names using) (uses libs)"
    unfolding r_def
    using adds_edges_then [OF insert_root_edges_adds [OF inv(1)] insert_library_edges_adds, of "using" libs] by simp
  have dom: "dom (dg_indices g) = lib_name ` set libs"
    using lookup_node_dom [OF inv(1)] g(3) library_map_dom by simp
  have eq: "resolve_dependencies ord using libs = map_err CeDependencyError (and_then r (resolve ord))"
    by (simp add: resolve_dependencies_def g(1) r_def and_then_assoc)
  show thesis
  proof (cases r)
    case (Ok g')
    then have "represents g' using libs" "include_names using \<union> Field (uses libs) \<subseteq> lib_name ` set libs"
      using r inv(2) dom by (simp_all add: adds_edges_def represents_def lookup_node_def [abs_def] cong: option.case_cong flip: g(3))
    then show thesis using Ok eq by (intro ok) simp_all
  next
    case (Err e)
    with r obtain n where "n \<in> include_names using \<union> Field (uses libs)" "dg_indices g n = None" "e = MissingDependency n"
      by (auto simp: adds_edges_def)
    then show thesis using Err eq dom by (intro missing [of n]) auto
  qed (use r in \<open>simp add: adds_edges_def\<close>)
qed

lemma resolve_dependencies_no_panic: "resolve_dependencies ord using libs \<noteq> Panic"
proof (cases rule: dependency_graph_cases [of ord "using" libs])
  case (ok g)
  then show ?thesis
    by (cases rule: represents_resolve [OF ok(2), of ord]) simp_all
qed simp

text \<open>
  C16. Library resolution, for every iteration order of the hash sets. When every library that is
  named exists and libraries do not use each other in a cycle, the result is exactly the libraries
  needed by the rule, each once, each the last one given under its name, and every library before
  the ones it uses. Otherwise the result is an error that names a library that is used and missing,
  or reports a cycle that exists. There is no panic and no other error. A cycle among libraries that
  the rule does not need is reported too, although the comments on \<open>resolve\<close> and \<open>prune_orphans\<close> say
  that nodes without a path from the root are pruned: the nodes of a cycle all have parents.
\<close>

theorem resolve_dependencies_correct:
  "case resolve_dependencies ord using libs of
     Ok ls \<Rightarrow>
       acyclic (uses libs) \<and> include_names using \<union> Field (uses libs) \<subseteq> lib_name ` set libs
       \<and> distinct (map lib_name ls) \<and> lib_name ` set ls = needed using libs
       \<and> list_all (\<lambda>l. library_map libs (lib_name l) = Some l) ls
       \<and> dependencies_after (uses libs) (map lib_name ls)
   | Err (CeDependencyError (MissingDependency n)) \<Rightarrow>
       n \<in> include_names using \<union> Field (uses libs) \<and> n \<notin> lib_name ` set libs
   | Err (CeDependencyError CircularDependency) \<Rightarrow>
       \<not> acyclic (uses libs) \<and> include_names using \<union> Field (uses libs) \<subseteq> lib_name ` set libs
   | _ \<Rightarrow> False"
proof (cases rule: dependency_graph_cases [of ord "using" libs])
  case (ok g)
  note g = this
  show ?thesis
  proof (cases rule: represents_resolve [OF g(2), of ord])
    case (1 ls)
    with g show ?thesis
      by (simp add: list_all_iff)
  next
    case 2
    with g show ?thesis by simp
  qed
next
  case (missing n)
  then show ?thesis by simp
qed

end
