(* ===== verification/Parser_Contract.thy ===== *)
theory Parser_Contract
  imports Bind_Grammar
begin

text \<open>
  What every parser of the development promises on a source below 2 GiB: it neither panics nor
  asks for more input, the span it leaves is a located suffix of the span it got, and its value
  satisfies a given predicate. The combinators keep the promise.
\<close>

named_theorems parser_rules \<open>parsers that keep the contract\<close>

section \<open>Located spans\<close>

definition located :: "string \<Rightarrow> NomSpan \<Rightarrow> bool" where
  "located src i \<longleftrightarrow>
     (\<exists>pre post. src = pre @ ns_fragment i @ post \<and> ns_offset i = length pre
       \<and> ns_line i = as_u32 (Suc (newlines pre)))"

definition advances :: "NomSpan \<Rightarrow> NomSpan \<Rightarrow> bool" where
  "advances i j \<longleftrightarrow> (\<exists>c. ns_fragment i = c @ ns_fragment j \<and> ns_offset j = ns_offset i + length c)"

definition span_ok :: "string \<Rightarrow> Span \<Rightarrow> bool" where
  "span_ok src sp \<longleftrightarrow>
     sp_fragment sp = take (length (sp_fragment sp)) (drop (sp_offset sp) src)
     \<and> sp_line sp = as_u32 (Suc (newlines (take (sp_offset sp) src)))"

lemma locatedI:
  "src = pre @ ns_fragment i @ post \<Longrightarrow> ns_offset i = length pre \<Longrightarrow> ns_line i = as_u32 (Suc (newlines pre))
   \<Longrightarrow> located src i"
  unfolding located_def by blast

lemma newlines_append [simp]: "newlines (a @ b) = newlines a + newlines b"
  by (simp add: newlines_def)

lemma newlines_le: "newlines s \<le> length s"
  by (simp add: newlines_def)

lemma advances_refl [simp]: "advances i i"
  by (simp add: advances_def)

lemma advances_trans: "advances i j \<Longrightarrow> advances j k \<Longrightarrow> advances i k"
  by (fastforce simp: advances_def)

lemma advances_length: "advances i j \<Longrightarrow> length (ns_fragment j) \<le> length (ns_fragment i)"
  by (auto simp: advances_def)

lemma located_new_span: "located src (new_span src)"
  by (auto simp: located_def new_span_def newlines_def)

text \<open>A span is determined by how far it has advanced.\<close>

lemma advances_eq:
  assumes "located src i" and "located src j" and "advances i j" and "length (ns_fragment j) = length (ns_fragment i)"
  shows "j = i"
proof -
  from assms(3,4) have same: "ns_fragment j = ns_fragment i" "ns_offset j = ns_offset i"
    by (auto simp: advances_def)
  moreover have "ns_line j = ns_line i"
    using assms(1,2) same by (auto simp: located_def append_eq_append_conv)
  ultimately show ?thesis by simp
qed

lemma from_to_ok:
  assumes "located src i" and "advances i j"
  obtains sp where "from_to i j = Ok sp" and "span_ok src sp"
proof -
  from assms(1) obtain pre post where src: "src = pre @ ns_fragment i @ post" "ns_offset i = length pre"
    "ns_line i = as_u32 (Suc (newlines pre))"
    by (auto simp: located_def)
  from assms(2) obtain c where c: "ns_fragment i = c @ ns_fragment j" "ns_offset j = ns_offset i + length c"
    by (auto simp: advances_def)
  show thesis
    by (rule that [of "\<lparr>sp_offset = ns_offset i, sp_line = ns_line i, sp_fragment = c\<rparr>"])
      (simp_all add: from_to_def span_ok_def src c)
qed

section \<open>The contract\<close>

definition outcome_ok ::
    "string \<Rightarrow> bool \<Rightarrow> ('a \<Rightarrow> bool) \<Rightarrow> NomSpan \<Rightarrow> (NomSpan \<times> 'a, 'e NomErr) result \<Rightarrow> bool" where
  "outcome_ok src strict Q i r \<longleftrightarrow>
     (case r of
        Ok (j, x) \<Rightarrow>
          located src j \<and> advances i j \<and> (strict \<longrightarrow> length (ns_fragment j) < length (ns_fragment i)) \<and> Q x
      | Err NomIncomplete \<Rightarrow> False
      | Err _ \<Rightarrow> True
      | Panic \<Rightarrow> False)"

text \<open>The bound \<open>n\<close> limits the contract to spans shorter than \<open>n\<close>; it carries the nesting of statements.\<close>

definition parser_ok :: "string \<Rightarrow> nat \<Rightarrow> bool \<Rightarrow> ('a \<Rightarrow> bool) \<Rightarrow> ('a, 'e) parser \<Rightarrow> bool" where
  "parser_ok src n strict Q p \<longleftrightarrow>
     (length src < 2 ^ 31 \<longrightarrow>
       (\<forall>i. located src i \<longrightarrow> length (ns_fragment i) < n \<longrightarrow> outcome_ok src strict Q i (p i)))"

lemma parser_okI:
  assumes "\<And>i. length src < 2 ^ 31 \<Longrightarrow> located src i \<Longrightarrow> length (ns_fragment i) < n \<Longrightarrow> outcome_ok src strict Q i (p i)"
  shows "parser_ok src n strict Q p"
  using assms by (simp add: parser_ok_def)

lemma parser_okD:
  "parser_ok src n strict Q p \<Longrightarrow> length src < 2 ^ 31 \<Longrightarrow> located src i \<Longrightarrow> length (ns_fragment i) < n
   \<Longrightarrow> outcome_ok src strict Q i (p i)"
  by (simp add: parser_ok_def)

lemma outcome_ok_simps [simp]:
  "outcome_ok src strict Q i (Ok (j, x)) \<longleftrightarrow>
     located src j \<and> advances i j \<and> (strict \<longrightarrow> length (ns_fragment j) < length (ns_fragment i)) \<and> Q x"
  "outcome_ok src strict Q i (Err (NomError e))"
  "outcome_ok src strict Q i (Err (NomFailure e))"
  "\<not> outcome_ok src strict Q i (Err NomIncomplete)"
  "\<not> outcome_ok src strict Q i Panic"
  by (simp_all add: outcome_ok_def)

lemma outcome_ok_cases:
  assumes "outcome_ok src strict Q i r"
  obtains (ok) j x where "r = Ok (j, x)" and "located src j" and "advances i j"
      and "strict \<longrightarrow> length (ns_fragment j) < length (ns_fragment i)" and "Q x"
    | (error) e where "r = Err (NomError e)"
    | (failure) e where "r = Err (NomFailure e)"
  using assms by (auto simp: outcome_ok_def split: result.splits NomErr.splits)

lemma outcome_ok_then:
  assumes r: "outcome_ok src s1 P i r" and adv: "advances i0 i"
    and f: "\<And>j x. located src j \<Longrightarrow> advances i j \<Longrightarrow> advances i0 j
      \<Longrightarrow> (s1 \<longrightarrow> length (ns_fragment j) < length (ns_fragment i)) \<Longrightarrow> P x \<Longrightarrow> outcome_ok src s Q i0 (f (j, x))"
  shows "outcome_ok src s Q i0 (and_then r f)"
  using r
proof (cases rule: outcome_ok_cases)
  case (ok j x)
  then show ?thesis using f [of j x] advances_trans [OF adv] by simp
qed simp_all

lemma parser_ok_weaken:
  assumes "parser_ok src n s P p" and "t \<longrightarrow> s" and "\<And>x. P x \<Longrightarrow> Q x" and "m \<le> n"
  shows "parser_ok src m t Q p"
proof (rule parser_okI)
  fix i
  assume "length src < 2 ^ 31" "located src i" "length (ns_fragment i) < m"
  with assms(4) have "outcome_ok src s P i (p i)"
    by (intro parser_okD [OF assms(1)]) simp_all
  then show "outcome_ok src t Q i (p i)"
    by (cases rule: outcome_ok_cases) (use assms(2,3) in auto)
qed

lemma any_value_ok: "parser_ok src n s P p \<Longrightarrow> parser_ok src n s (\<lambda>_. True) p"
  by (erule parser_ok_weaken) simp_all

section \<open>Slicing\<close>

lemma slice_from_ok:
  assumes "length src < 2 ^ 31" and "located src i" and "n \<le> length (ns_fragment i)"
  obtains j where "(slice_from n i :: (NomSpan, 'e) result) = Ok j" and "located src j" and "advances i j"
    and "ns_fragment j = drop n (ns_fragment i)"
proof (cases "n = 0")
  case True
  with assms(2) show thesis by (intro that [of i]) (simp_all add: slice_from_def)
next
  case False
  from assms(2) obtain pre post where src: "src = pre @ ns_fragment i @ post" "ns_offset i = length pre"
    "ns_line i = as_u32 (Suc (newlines pre))"
    by (auto simp: located_def)
  let ?c = "take n (ns_fragment i)" and ?d = "drop n (ns_fragment i)"
  have "newlines pre + newlines ?c \<le> length src"
    using newlines_le [of pre] newlines_le [of ?c] by (simp add: src(1) min_def split: if_splits)
  with assms(1) have small: "Suc (newlines pre) + newlines ?c < 2 ^ 32" by simp
  let ?j = "\<lparr>ns_offset = ns_offset i + n, ns_line = ns_line i + as_u32 (newlines ?c), ns_fragment = ?d\<rparr>"
  have "unat (ns_line i) + unat (as_u32 (newlines ?c)) < 2 ^ 32"
    using small by (simp add: src(3) del: of_nat_Suc unat_of_nat)
  then have "(slice_from n i :: (NomSpan, 'e) result) = Ok ?j"
    using False assms(3) by (simp add: slice_from_def Let_def checked_add_ok)
  moreover have "located src ?j"
    by (rule locatedI [where pre = "pre @ ?c" and post = post]) (use assms(3) in \<open>simp_all add: src\<close>)
  moreover have "advances i ?j"
    unfolding advances_def using assms(3) by (intro exI [of _ ?c]) simp
  moreover have "ns_fragment ?j = drop n (ns_fragment i)" by simp
  ultimately show thesis by (rule that)
qed

lemma take_split_ok:
  assumes "length src < 2 ^ 31" and "located src i" and "n \<le> length (ns_fragment i)"
  obtains j t where "(take_split n i :: (NomSpan \<times> NomSpan, 'e) result) = Ok (j, t)" and "located src j" and "advances i j"
    and "ns_fragment j = drop n (ns_fragment i)" and "located src t" and "ns_fragment t = take n (ns_fragment i)"
    and "ns_offset t = ns_offset i"
proof -
  obtain j where j: "(slice_from n i :: (NomSpan, 'e) result) = Ok j" "located src j" "advances i j" "ns_fragment j = drop n (ns_fragment i)"
    using slice_from_ok [OF assms] by metis
  let ?t = "i\<lparr>ns_fragment := take n (ns_fragment i)\<rparr>"
  have "located src ?t"
  proof -
    from assms(2) obtain pre post where "src = pre @ ns_fragment i @ post" "ns_offset i = length pre"
      "ns_line i = as_u32 (Suc (newlines pre))"
      by (auto simp: located_def)
    then show ?thesis
      by (intro locatedI [where pre = pre and post = "drop n (ns_fragment i) @ post"]) simp_all
  qed
  with j assms(3) show thesis
    by (intro that [of j ?t]) (simp_all add: take_split_def slice_to_def)
qed

end
