(* ===== verification/Nom_Rules.thy ===== *)
theory Nom_Rules
  imports Parser_Contract
begin

text \<open>The contract of parsers for the basic parsers and the combinators of \<open>Nom\<close>.\<close>

section \<open>Basic parsers\<close>

lemma split_ok:
  assumes "length src < 2 ^ 31" and "located src i" and "n \<le> length (ns_fragment i)" and "strict \<longrightarrow> 0 < n"
    and "\<And>t. located src t \<Longrightarrow> Q t"
  shows "outcome_ok src strict Q i (take_split n i)"
proof -
  obtain j t where "(take_split n i :: (NomSpan \<times> NomSpan, 'a NomErr) result) = Ok (j, t)" "located src j" "advances i j"
    "ns_fragment j = drop n (ns_fragment i)" "located src t" "ns_fragment t = take n (ns_fragment i)" "ns_offset t = ns_offset i"
    using take_split_ok [OF assms(1-3)] by metis
  with assms(3-5) show ?thesis by auto
qed

lemma slice_ok:
  assumes "length src < 2 ^ 31" and "located src i" and "n \<le> length (ns_fragment i)" and "strict \<longrightarrow> 0 < n" and "Q x"
  shows "outcome_ok src strict Q i (and_then (slice_from n i) (\<lambda>r. Ok (r, x)) :: (NomSpan \<times> 'a, 'e NomErr) result)"
proof -
  obtain j where "(slice_from n i :: (NomSpan, 'e NomErr) result) = Ok j" "located src j" "advances i j"
    "ns_fragment j = drop n (ns_fragment i)"
    using slice_from_ok [OF assms(1-3)] by metis
  with assms(3-5) show ?thesis by auto
qed

lemma starts_with_length: "starts_with t s \<Longrightarrow> length t \<le> length s"
  by (metis length_take min.cobounded1 starts_with_def)

lemma position_less: "position P s = Some n \<Longrightarrow> n < length s \<and> P (s ! n)"
proof (induction s arbitrary: n)
  case (Cons c s)
  then show ?case
    by (cases "P c") (auto simp: position_def list_ex_iff split: if_splits)
qed (simp add: position_def)

lemma find_substring_less: "find_substring t s = Some n \<Longrightarrow> n + length t \<le> length s"
proof (induction t s arbitrary: n rule: find_substring.induct)
  case (2 t c cs)
  then show ?case
    by (auto split: if_splits dest: starts_with_length)
qed (simp split: if_splits)

lemma tag_ok [parser_rules]: "t \<noteq> [] \<Longrightarrow> parser_ok src n True (\<lambda>_. True) (tag mk t)"
  by (rule parser_okI) (auto simp: tag_def intro!: split_ok dest: starts_with_length)

lemma split_at_position_ok: "parser_ok src n True (\<lambda>_. True) (split_at_position1_complete mk P e)"
  by (rule parser_okI)
    (auto simp: split_at_position1_complete_def intro!: split_ok split: option.splits dest: position_less)

lemmas split_at_position_rules [parser_rules] =
  split_at_position_ok [of _ _ _ "\<lambda>c. c \<in> set arr" EkIsNot for arr, folded is_not_def]
  split_at_position_ok [of _ _ _ "\<lambda>c. \<not> is_dec_digit c" EkDigit, folded digit1_def]
  split_at_position_ok [of _ _ _ "\<lambda>c. \<not> is_hex_digit c" EkHexDigit, folded hex_digit1_def]
  split_at_position_ok [of _ _ _ "\<lambda>c. \<not> is_multispace c" EkMultiSpace, folded multispace1_def]

lemma line_ending_ok [parser_rules]: "parser_ok src n True (\<lambda>_. True) (line_ending mk)"
  by (rule parser_okI) (auto simp: line_ending_def intro!: split_ok dest!: starts_with_length)

lemma not_line_ending_ok [parser_rules]: "parser_ok src n False (\<lambda>_. True) (not_line_ending mk)"
  by (rule parser_okI)
    (auto simp: not_line_ending_def intro!: split_ok slice_ok split: option.splits dest: position_less)

lemma nom_char_ok [parser_rules]: "parser_ok src n True (\<lambda>_. True) (nom_char mk c)"
  by (rule parser_okI) (auto simp: nom_char_def intro!: slice_ok split: list.splits)

lemma one_of_ok [parser_rules]: "parser_ok src n True (\<lambda>_. True) (one_of mk cs)"
  by (rule parser_okI) (auto simp: one_of_def intro!: slice_ok split: list.splits)

lemma take_until_ok: "parser_ok src n False (located src) (take_until mk t)"
  by (rule parser_okI)
    (auto simp: take_until_def intro!: split_ok split: option.splits dest!: find_substring_less)

section \<open>Sequences\<close>

lemma then_ok:
  assumes p: "parser_ok src n s1 P p" and q: "\<And>x. P x \<Longrightarrow> parser_ok src (if s1 then n - 1 else n) s2 Q (f x)"
  shows "parser_ok src n (s1 \<or> s2) Q (\<lambda>i. and_then (p i) (\<lambda>(j, x). f x j))"
proof (rule parser_okI)
  fix i
  assume i: "length src < 2 ^ 31" "located src i" "length (ns_fragment i) < n"
  from parser_okD [OF p i] show "outcome_ok src (s1 \<or> s2) Q i (and_then (p i) (\<lambda>(j, x). f x j))"
  proof (rule outcome_ok_then [OF _ advances_refl])
    fix j x
    assume j: "located src j" "advances i j" "s1 \<longrightarrow> length (ns_fragment j) < length (ns_fragment i)" "P x"
    then have "length (ns_fragment j) < (if s1 then n - 1 else n)"
      using advances_length [OF j(2)] i(3) by auto
    from parser_okD [OF q [OF j(4)] i(1) j(1) this]
    show "outcome_ok src (s1 \<or> s2) Q i (case (j, x) of (j, x) \<Rightarrow> f x j)"
      by (cases rule: outcome_ok_cases)
        (use j advances_length [OF j(2)] advances_length [of j] in \<open>fastforce intro: advances_trans\<close>)+
  qed
qed

lemma return_ok: "Q x \<Longrightarrow> parser_ok src n False Q (\<lambda>i. Ok (i, x))"
  by (simp add: parser_ok_def)

text \<open>The rules below keep the bound \<open>n\<close>; \<open>smaller\<close> lets a bound grow for the parser after a strict one.\<close>

lemma smaller: "parser_ok src n s Q p \<Longrightarrow> parser_ok src (if b then n - 1 else n) s Q p"
  by (rule parser_ok_weaken) auto

lemma map_p_ok:
  assumes "parser_ok src n s P p" and "\<And>x. P x \<Longrightarrow> Q (f x)"
  shows "parser_ok src n s Q (map_p p f)"
  using then_ok [OF assms(1), of False Q "\<lambda>x i. Ok (i, f x)"] assms(2)
  by (simp add: map_p_def [abs_def] return_ok)

lemma value_p_ok [parser_rules]:
  assumes "parser_ok src n s P p"
  shows "parser_ok src n s (\<lambda>_. True) (value_p v p)"
  using then_ok [OF assms(1), of False "\<lambda>_. True" "\<lambda>x i. Ok (i, v)"]
  by (simp add: value_p_def [abs_def] split_def return_ok)

lemma map_res_ok [parser_rules]:
  assumes "parser_ok src n s P p"
  shows "parser_ok src n s (\<lambda>_. True) (map_res mk p f)"
proof (rule parser_okI)
  fix i
  assume "length src < 2 ^ 31" "located src i" "length (ns_fragment i) < n"
  from parser_okD [OF assms this] show "outcome_ok src s (\<lambda>_. True) i (map_res mk p f i)"
    by (cases rule: outcome_ok_cases) (auto simp: map_res_def split: option.split)
qed

lemma opt_ok:
  assumes "parser_ok src n s P p"
  shows "parser_ok src n False (\<lambda>_. True) (opt p)"
proof (rule parser_okI)
  fix i
  assume i: "length src < 2 ^ 31" "located src i" "length (ns_fragment i) < n"
  from parser_okD [OF assms this] show "outcome_ok src False (\<lambda>_. True) i (opt p i)"
    by (cases rule: outcome_ok_cases) (auto simp: opt_def i)
qed

lemma preceded_strict_ok:
  assumes "parser_ok src (Suc n) True P p" and "parser_ok src n s Q q"
  shows "parser_ok src (Suc n) True Q (preceded p q)"
  using then_ok [OF assms(1), of s Q "\<lambda>_. q"] assms(2)
  by (simp add: preceded_def [abs_def] split_def)

lemma preceded_ok [parser_rules]:
  assumes "parser_ok src n s P p" and "parser_ok src n t Q q"
  shows "parser_ok src n (s \<or> t) Q (preceded p q)"
  using then_ok [OF assms(1), of t Q "\<lambda>_. q"] smaller [OF assms(2)]
  by (simp add: preceded_def [abs_def] split_def)

lemma pair_strict_ok:
  assumes p: "parser_ok src (Suc n) True P p" and q: "parser_ok src n t Q q"
  shows "parser_ok src (Suc n) True (\<lambda>(x, y). P x \<and> Q y) (pair p q)"
proof -
  have "parser_ok src n t (\<lambda>(x, y). P x \<and> Q y) (\<lambda>i. and_then (q i) (\<lambda>(j, y). Ok (j, (x, y))))" if "P x" for x
    using then_ok [OF q, of False "\<lambda>(x, y). P x \<and> Q y" "\<lambda>y i. Ok (i, (x, y))"] that by (simp add: return_ok)
  with then_ok [OF p, of t "\<lambda>(x, y). P x \<and> Q y" "\<lambda>x i. and_then (q i) (\<lambda>(j, y). Ok (j, (x, y)))"] show ?thesis
    by (simp add: pair_def [abs_def])
qed

lemma pair_ok [parser_rules]:
  assumes p: "parser_ok src n s P p" and q: "parser_ok src n t Q q"
  shows "parser_ok src n (s \<or> t) (\<lambda>(x, y). P x \<and> Q y) (pair p q)"
proof -
  have "parser_ok src n t (\<lambda>(x, y). P x \<and> Q y) (\<lambda>i. and_then (q i) (\<lambda>(j, y). Ok (j, (x, y))))" if "P x" for x
    using then_ok [OF q, of False "\<lambda>(x, y). P x \<and> Q y" "\<lambda>y i. Ok (i, (x, y))"] that by (simp add: return_ok)
  with then_ok [OF p, of t "\<lambda>(x, y). P x \<and> Q y" "\<lambda>x i. and_then (q i) (\<lambda>(j, y). Ok (j, (x, y)))"] show ?thesis
    by (simp add: pair_def [abs_def] smaller)
qed

lemma terminated_ok [parser_rules]:
  assumes "parser_ok src n s P p" and "parser_ok src n t Q q"
  shows "parser_ok src n (s \<or> t) P (terminated p q)"
proof -
  have "terminated p q = map_p (pair p q) fst"
    by (auto simp: terminated_def map_p_def pair_def and_then_def fun_eq_iff split: result.split)
  with map_p_ok [OF pair_ok [OF assms], of P fst] show ?thesis by auto
qed

lemma delimited_eq: "delimited p q r = terminated (preceded p q) r"
  by (auto simp: delimited_def terminated_def preceded_def and_then_def fun_eq_iff split: result.split)

lemma delimited_ok [parser_rules]:
  assumes "parser_ok src n s P p" and "parser_ok src n t Q q" and "parser_ok src n u R r"
  shows "parser_ok src n (s \<or> t \<or> u) Q (delimited p q r)"
  using terminated_ok [OF preceded_ok [OF assms(1,2)] assms(3)] by (simp add: delimited_eq)

lemma separated_pair_ok [parser_rules]:
  assumes "parser_ok src n s P p" and "parser_ok src n t Q q" and "parser_ok src n u R r"
  shows "parser_ok src n (s \<or> t \<or> u) (\<lambda>(x, y). P x \<and> R y) (separated_pair p q r)"
proof -
  have "separated_pair p q r = pair p (preceded q r)"
    by (auto simp: separated_pair_def pair_def preceded_def and_then_def fun_eq_iff split: result.split)
  with pair_ok [OF assms(1) preceded_ok [OF assms(2,3)]] show ?thesis by simp
qed

section \<open>Choice\<close>

lemma alt_from_ok:
  assumes "\<forall>p\<in>set ps. parser_ok src n s Q p" and "ps \<noteq> [] \<or> err \<noteq> None"
  shows "parser_ok src n s Q (alt_from err ps)"
proof (rule parser_okI)
  fix i
  assume i: "length src < 2 ^ 31" "located src i" "length (ns_fragment i) < n"
  from assms show "outcome_ok src s Q i (alt_from err ps i)"
  proof (induction ps arbitrary: err)
    case (Cons p ps)
    from Cons.prems(1) have "outcome_ok src s Q i (p i)"
      by (intro parser_okD [OF _ i]) simp
    then show ?case
      by (cases rule: outcome_ok_cases) (use Cons.IH Cons.prems(1) in simp_all)
  qed auto
qed

lemma alt_ok: "ps \<noteq> [] \<Longrightarrow> \<forall>p\<in>set ps. parser_ok src n s Q p \<Longrightarrow> parser_ok src n s Q (alt ps)"
  unfolding alt_def by (rule alt_from_ok) simp_all

section \<open>Loops\<close>

text \<open>A round of a loop that goes on has consumed something.\<close>

lemma round_less:
  assumes "located src i" and "located src j" and "advances i j" and "j \<noteq> i"
  shows "length (ns_fragment j) < length (ns_fragment i)"
  using advances_eq [OF assms(1-3)] advances_length [OF assms(3)] assms(4) by fastforce

lemma many_loop_ok:
  assumes f: "parser_ok src n s Q f" and src: "length src < 2 ^ 31" and "located src i" and "length (ns_fragment i) < n"
    and "length (ns_fragment i) < m" and "list_all Q acc" and "advances i0 i"
  shows "outcome_ok src False (list_all Q) i0 (many_loop mk kind f m acc i)"
  using assms(3-)
proof (induction m arbitrary: acc i)
  case (Suc m)
  from parser_okD [OF f src Suc.prems(1,2)] show ?case
  proof (cases rule: outcome_ok_cases)
    case (ok j x)
    show ?thesis
    proof (cases "j = i")
      case False
      from round_less [OF Suc.prems(1) ok(2,3) this] have less: "length (ns_fragment j) < length (ns_fragment i)" .
      have "outcome_ok src False (list_all Q) i0 (many_loop mk kind f m (acc @ [x]) j)"
        by (rule Suc.IH) (use ok less Suc.prems in \<open>auto intro: advances_trans\<close>)
      with ok(1) False show ?thesis by simp
    qed (use ok in simp)
  qed (use Suc.prems in simp_all)
qed simp

lemma many0_ok [parser_rules]:
  assumes "parser_ok src n s Q f"
  shows "parser_ok src n False (list_all Q) (many0 mk f)"
  unfolding many0_def by (rule parser_okI) (intro many_loop_ok [OF assms]; simp)

lemma many1_ok:
  assumes "parser_ok src n s Q f"
  shows "parser_ok src n s (list_all Q) (many1 mk f)"
proof (rule parser_okI)
  fix i
  assume i: "length src < 2 ^ 31" "located src i" "length (ns_fragment i) < n"
  from parser_okD [OF assms i] show "outcome_ok src s (list_all Q) i (many1 mk f i)"
  proof (cases rule: outcome_ok_cases)
    case (ok j x)
    then have len: "length (ns_fragment j) \<le> length (ns_fragment i)" by (simp add: advances_length)
    have "outcome_ok src False (list_all Q) j (many_loop mk EkMany1 f (Suc (length (ns_fragment j))) [x] j)"
      by (rule many_loop_ok [OF assms i(1)]) (use ok i len in simp_all)
    then have "outcome_ok src s (list_all Q) i (many_loop mk EkMany1 f (Suc (length (ns_fragment j))) [x] j)"
      by (cases rule: outcome_ok_cases)
        (use ok len advances_length in \<open>auto intro: advances_trans dest: order_le_less_trans\<close>)
    then show ?thesis by (simp add: many1_def ok(1))
  qed (simp_all add: many1_def)
qed

lemma separated_loop_ok:
  assumes sep: "parser_ok src n s P sep" and f: "parser_ok src n t Q f" and src: "length src < 2 ^ 31"
    and "located src i" and "length (ns_fragment i) < n" and "length (ns_fragment i) < m"
    and "res \<noteq> [] \<and> list_all Q res" and "advances i0 i"
  shows "outcome_ok src False (\<lambda>xs. xs \<noteq> [] \<and> list_all Q xs) i0 (separated_loop mk sep f m res i)"
  using assms(4-)
proof (induction m arbitrary: res i)
  case (Suc m)
  from parser_okD [OF sep src Suc.prems(1,2)] show ?case
  proof (cases rule: outcome_ok_cases)
    case (ok i1 x)
    note i1 = this
    show ?thesis
    proof (cases "i1 = i")
      case False
      from round_less [OF Suc.prems(1) i1(2,3) this] have less: "length (ns_fragment i1) < length (ns_fragment i)" .
      with Suc.prems(2) have "length (ns_fragment i1) < n" by simp
      from parser_okD [OF f src i1(2) this] show ?thesis
      proof (cases rule: outcome_ok_cases)
        case (ok i2 y)
        from advances_length [OF ok(3)] less have less2: "length (ns_fragment i2) < length (ns_fragment i)" by simp
        have "outcome_ok src False (\<lambda>xs. xs \<noteq> [] \<and> list_all Q xs) i0 (separated_loop mk sep f m (res @ [y]) i2)"
          by (rule Suc.IH) (use ok i1 less2 Suc.prems in \<open>auto intro: advances_trans\<close>)
        with i1(1) False ok(1) show ?thesis by simp
      qed (use i1 False Suc.prems in simp_all)
    qed (use i1 in simp)
  qed (use Suc.prems in simp_all)
qed simp

lemma separated_nonempty_list_ok [parser_rules]:
  assumes "parser_ok src n s P sep" and "parser_ok src n t Q f"
  shows "parser_ok src n True (\<lambda>xs. xs \<noteq> [] \<and> list_all Q xs) (separated_nonempty_list mk sep f)"
proof (rule parser_okI)
  let ?Q = "\<lambda>xs. xs \<noteq> [] \<and> list_all Q xs"
  fix i
  assume i: "length src < 2 ^ 31" "located src i" "length (ns_fragment i) < n"
  from parser_okD [OF assms(2) i] show "outcome_ok src True ?Q i (separated_nonempty_list mk sep f i)"
  proof (cases rule: outcome_ok_cases)
    case (ok j x)
    show ?thesis
    proof (cases "j = i")
      case False
      from round_less [OF i(2) ok(2,3) this] have less: "length (ns_fragment j) < length (ns_fragment i)" .
      have "outcome_ok src False ?Q j (separated_loop mk sep f (Suc (length (ns_fragment j))) [x] j)"
        by (rule separated_loop_ok [OF assms i(1)]) (use ok i less in simp_all)
      then have "outcome_ok src True ?Q i (separated_loop mk sep f (Suc (length (ns_fragment j))) [x] j)"
        by (cases rule: outcome_ok_cases)
          (use ok less advances_length in \<open>auto intro: advances_trans dest: order_le_less_trans\<close>)
      with ok(1) False show ?thesis by (simp add: separated_nonempty_list_def)
    qed (use ok in \<open>simp add: separated_nonempty_list_def\<close>)
  qed (simp_all add: separated_nonempty_list_def)
qed

section \<open>Escapes\<close>

lemma escaped_loop_ok:
  fixes normal :: "(NomSpan, 'e) parser"
  assumes normal: "parser_ok src n True P normal" and escapable: "parser_ok src n True R escapable"
    and src: "length src < 2 ^ 31" and input: "located src input" "length (ns_fragment input) < n"
    and "located src i" and "advances input i" and "length (ns_fragment i) < m"
  shows "outcome_ok src False (\<lambda>_. True) input (escaped_loop mk normal c escapable input m i)"
  using assms(6-)
proof (induction m arbitrary: i)
  case (Suc m)
  have all: "outcome_ok src False (\<lambda>_. True) input
      (and_then (slice_from (length (ns_fragment input)) input) (\<lambda>r. Ok (r, input)) :: (_, 'e NomErr) result)"
    by (rule slice_ok) (use src input in simp_all)
  have "length (ns_fragment i) < n"
    using advances_length [OF Suc.prems(2)] input(2) by simp
  from parser_okD [OF normal src Suc.prems(1) this] show ?case
  proof (cases rule: outcome_ok_cases)
    case (ok j x)
    with Suc all show ?thesis
      by (auto intro!: Suc.IH intro: advances_trans)
  next
    case (error e)
    show ?thesis
    proof (cases "ns_fragment i = []")
      case False
      show ?thesis
      proof (cases "hd (ns_fragment i) = c \<and> 1 < length (ns_fragment i)")
        case True
        have one: "1 \<le> length (ns_fragment i)" using True by simp
        obtain j where j: "(slice_from 1 i :: (NomSpan, 'e NomErr) result) = Ok j" "located src j" "advances i j"
          "ns_fragment j = drop 1 (ns_fragment i)"
          using slice_from_ok [OF src Suc.prems(1) one] by metis
        have "length (ns_fragment j) < n" using \<open>length (ns_fragment i) < n\<close> j(4) by simp
        from parser_okD [OF escapable src j(2) this]
        have "outcome_ok src False (\<lambda>_. True) input (and_then (escapable j) (\<lambda>(i2, _).
            if ns_fragment i2 = [] then and_then (slice_from (length (ns_fragment input)) input) (\<lambda>r. Ok (r, input))
            else escaped_loop mk normal c escapable input m i2))"
        proof (cases rule: outcome_ok_cases)
          case (ok k x)
          have "outcome_ok src False (\<lambda>_. True) input (escaped_loop mk normal c escapable input m k)"
            by (rule Suc.IH) (use ok j Suc.prems in \<open>auto intro: advances_trans\<close>)
          with ok(1) all show ?thesis by simp
        qed simp_all
        with error False True j(1) show ?thesis by simp
      next
        case other: False
        from Suc.prems(2) obtain d where d: "ns_fragment input = d @ ns_fragment i" "ns_offset i = ns_offset input + length d"
          by (auto simp: advances_def)
        have "outcome_ok src False (\<lambda>_. True) input (take_split (length d) input)"
          by (rule split_ok) (use src input d in simp_all)
        with error False other d(2) show ?thesis by auto
      qed
    qed (use all in simp)
  qed (use all in \<open>simp_all\<close>)
qed simp

lemma escaped_ok [parser_rules]:
  assumes "parser_ok src n True P normal" and "parser_ok src n True R escapable"
  shows "parser_ok src n False (\<lambda>_. True) (escaped mk normal c escapable)"
  unfolding escaped_def by (rule parser_okI) (rule escaped_loop_ok [OF assms]; simp)

end
