(* ===== verification/Grammar_Safe.thy ===== *)
theory Grammar_Safe
  imports Nom_Rules
begin

text \<open>
  The parsers of the bind language keep the contract: they never panic on a source below 2 GiB,
  their loops and their recursion end, and every span in a syntax tree is a located part of the
  source.
\<close>

section \<open>Whitespace and comments\<close>

lemma comment_loop_ok:
  fixes stack :: u32
  assumes "unat stack + length s < 2 ^ 31" and "stack \<noteq> 0"
  shows "\<exists>k rest. (comment_loop stack s :: (_, 'e) result) = Ok (k, rest) \<and> length rest \<le> length s"
  using assms
proof (induction stack s rule: comment_loop.induct)
  case (1 stack first second rest)
  have up: "unat (stack + 1) \<le> unat stack + 1" "stack \<noteq> 0x7FFFFFFF" "stack + 1 \<noteq> 0"
  proof -
    have "unat stack < 2 ^ 31 - 2" using 1(4) by simp
    then have "unat (stack + 1) = unat stack + 1"
      by (simp add: unat_word_ariths)
    moreover have "unat (0x7FFFFFFF :: u32) = 2 ^ 31 - 1" by simp
    ultimately show "unat (stack + 1) \<le> unat stack + 1" "stack \<noteq> 0x7FFFFFFF" "stack + 1 \<noteq> 0"
      using \<open>unat stack < 2 ^ 31 - 2\<close> by (auto simp flip: unat_eq_0)
  qed
  have down: "unat (stack - 1) < unat stack"
    using 1(5) by (simp add: measure_unat)
  show ?case
    using 1 up down by (auto split: if_splits)
qed simp_all

lemma map_err_p_ok:
  assumes "parser_ok src n s Q p"
  shows "parser_ok src n s Q (map_err_p p f)"
proof (rule parser_okI)
  fix i
  assume "length src < 2 ^ 31" "located src i" "length (ns_fragment i) < n"
  from parser_okD [OF assms this] show "outcome_ok src s Q i (map_err_p p f i)"
    by (cases rule: outcome_ok_cases) (auto simp: map_err_p_def)
qed

lemmas keyword_ok = map_err_p_ok [OF tag_ok]

lemma multiline_comment_ok: "parser_ok src n True (\<lambda>_. True) multiline_comment"
proof (rule parser_okI)
  fix i
  assume i: "length src < 2 ^ 31" "located src i" "length (ns_fragment i) < n"
  have "parser_ok src n True (\<lambda>_. True) (tag from_error_kind ''/*'')"
    by (rule tag_ok) simp
  from parser_okD [OF this i] show "outcome_ok src True (\<lambda>_. True) i (multiline_comment i)"
  proof (cases rule: outcome_ok_cases)
    case (ok j x)
    have "length (ns_fragment j) \<le> length src" "length (ns_fragment j) < length (ns_fragment i)" "length (ns_fragment i) \<le> length src"
      using ok(2,4) i(2) by (auto simp: located_def)
    then have "unat (1 :: u32) + length (ns_fragment j) < 2 ^ 31"
      using i(1) by simp
    then obtain k rest where loop: "(comment_loop 1 (ns_fragment j) :: (_, BindParserError NomErr) result) = Ok (k, rest)"
      "length rest \<le> length (ns_fragment j)"
      using comment_loop_ok [of 1] by fastforce
    have "outcome_ok src False (\<lambda>_. True) j
        (and_then (slice_from (length (ns_fragment j) - length rest) j) (\<lambda>r. Ok (r, ())) :: (_, BindParserError NomErr) result)"
      by (rule slice_ok) (use i ok in simp_all)
    then have "outcome_ok src True (\<lambda>_. True) i
        (and_then (slice_from (length (ns_fragment j) - length rest) j) (\<lambda>r. Ok (r, ())) :: (_, BindParserError NomErr) result)"
      by (cases rule: outcome_ok_cases) (use ok advances_length in \<open>auto intro: advances_trans dest: order_le_less_trans\<close>)
    with ok(1) loop(1) show ?thesis by (simp add: multiline_comment_def)
  qed (simp_all add: multiline_comment_def)
qed

lemma singleline_comment_ok: "parser_ok src n True (\<lambda>_. True) singleline_comment"
  using value_p_ok [OF pair_ok [OF tag_ok pair_ok [OF not_line_ending_ok line_ending_ok]], of "''//''"]
  by (simp add: singleline_comment_def)

lemma comment_or_whitespace_ok: "parser_ok src n False (\<lambda>_. True) comment_or_whitespace"
proof -
  have "parser_ok src n True (\<lambda>_. True) (alt [value_p () (multispace1 from_error_kind), multiline_comment, singleline_comment])"
    by (rule alt_ok)
      (simp_all add: value_p_ok [OF split_at_position_rules(4)] multiline_comment_ok singleline_comment_ok)
  from value_p_ok [OF many0_ok [OF this]] show ?thesis
    by (simp add: comment_or_whitespace_def)
qed

lemma ws_ok: "parser_ok src n s Q f \<Longrightarrow> parser_ok src n s Q (ws f)"
  using preceded_ok [OF comment_or_whitespace_ok, of src n s Q f] by (simp add: ws_def)

lemma skip_ws_cases:
  assumes "length src < 2 ^ 31" and "located src i"
  obtains (ok) j where "skip_ws i = Ok j" and "located src j" and "advances i j"
    | (error) e where "skip_ws i = Err (NomError e)"
    | (failure) e where "skip_ws i = Err (NomFailure e)"
proof -
  have "outcome_ok src False (\<lambda>_. True) i (comment_or_whitespace i)"
    by (rule parser_okD [OF comment_or_whitespace_ok assms, of "Suc (length (ns_fragment i))"]) simp
  then show thesis
    by (cases rule: outcome_ok_cases) (auto simp: skip_ws_def intro: that)
qed

text \<open>The parsers that note where they started: a body after whitespace, and the span it covered.\<close>

definition spanned :: "'a bind_parser \<Rightarrow> (Span \<Rightarrow> 'a \<Rightarrow> 'b) \<Rightarrow> 'b bind_parser" where
  "spanned p f i =
     and_then (skip_ws i) (\<lambda>frm.
     and_then (p frm) (\<lambda>(to, x). and_then (from_to frm to) (\<lambda>sp. Ok (to, f sp x))))"

lemma spanned_ok:
  assumes p: "parser_ok src n True P p" and f: "\<And>sp x. span_ok src sp \<Longrightarrow> P x \<Longrightarrow> Q (f sp x)"
  shows "parser_ok src n True Q (spanned p f)"
proof (rule parser_okI)
  fix i
  assume i: "length src < 2 ^ 31" "located src i" "length (ns_fragment i) < n"
  show "outcome_ok src True Q i (spanned p f i)"
  proof (cases rule: skip_ws_cases [OF i(1,2)])
    case (1 j)
    note j = this
    have "length (ns_fragment j) < n" using advances_length [OF j(3)] i(3) by simp
    from parser_okD [OF p i(1) j(2) this] show ?thesis
    proof (cases rule: outcome_ok_cases)
      case (ok k x)
      obtain sp where sp: "(from_to j k :: (_, BindParserError NomErr) result) = Ok sp" "span_ok src sp"
        using from_to_ok [OF j(2) ok(3)] by metis
      have "length (ns_fragment k) < length (ns_fragment i)"
        using ok(4) advances_length [OF j(3)] by simp
      with j ok sp f [OF sp(2) ok(5)] show ?thesis by (auto simp: spanned_def intro: advances_trans)
    qed (simp_all add: j spanned_def)
  qed (simp_all add: spanned_def)
qed

lemma spanned_eqI:
  "p = spanned q f \<Longrightarrow> parser_ok src n True P q \<Longrightarrow> (\<And>sp x. span_ok src sp \<Longrightarrow> P x \<Longrightarrow> Q (f sp x))
   \<Longrightarrow> parser_ok src n True Q p"
  by (simp add: spanned_ok)

lemma until_eof_loop_ok:
  assumes f: "parser_ok src n True Q f" and src: "length src < 2 ^ 31"
    and "located src i" and "length (ns_fragment i) < n" and "length (ns_fragment i) < m" and "list_all Q acc" and "advances i0 i"
  shows "outcome_ok src False (list_all Q) i0 (until_eof_loop f m acc i)"
  using assms(3-)
proof (induction m arbitrary: acc i)
  case (Suc m)
  show ?case
  proof (cases rule: skip_ws_cases [OF src Suc.prems(1)])
    case (1 r)
    from parser_okD [OF f src Suc.prems(1,2)]
    have "outcome_ok src False (list_all Q) i0 (and_then (f i) (\<lambda>(i1, res).
           if length (ns_fragment i) = length (ns_fragment i1) then Panic
           else until_eof_loop f m (acc @ [res]) i1))"
    proof (cases rule: outcome_ok_cases)
      case (ok j x)
      have "outcome_ok src False (list_all Q) i0 (until_eof_loop f m (acc @ [x]) j)"
        by (rule Suc.IH) (use ok Suc.prems in \<open>auto intro: advances_trans\<close>)
      with ok(1,4) show ?thesis by simp
    qed simp_all
    with 1 Suc.prems show ?thesis by (auto intro: advances_trans)
  qed simp_all
qed simp

lemma many_until_eof_ok: "parser_ok src n True Q f \<Longrightarrow> parser_ok src n False (list_all Q) (many_until_eof f)"
  unfolding many_until_eof_def by (rule parser_okI) (rule until_eof_loop_ok; simp)

section \<open>Literals and identifiers\<close>

lemma quoted_ok: "parser_ok src n True (\<lambda>_. True) quoted"
  using delimited_ok [OF nom_char_ok escaped_ok [OF split_at_position_rules(1) one_of_ok] nom_char_ok]
  by (simp add: quoted_def)

lemma string_literal_ok: "parser_ok src n True (\<lambda>_. True) string_literal"
  unfolding string_literal_def by (intro map_err_p_ok map_p_ok [OF quoted_ok]) simp

lemma node_name_ok: "parser_ok src n True (\<lambda>_. True) node_name"
  unfolding node_name_def by (intro map_err_p_ok map_p_ok [OF quoted_ok]) simp

lemma numeric_literal_ok: "parser_ok src n True (\<lambda>_. True) numeric_literal"
proof -
  have "parser_ok src n True (\<lambda>_. True) (preceded (tag Pair ''0x'') (hex_digit1 Pair))"
    using preceded_ok [OF tag_ok split_at_position_rules(3), of "''0x''"] by simp
  then show ?thesis
    unfolding numeric_literal_def
    by (intro map_err_p_ok alt_ok) (auto intro!: map_res_ok split_at_position_rules)
qed

lemma bool_literal_ok: "parser_ok src n True (\<lambda>_. True) bool_literal"
  unfolding bool_literal_def by (intro map_err_p_ok alt_ok) (auto intro!: value_p_ok tag_ok)

lemma identifier_match_length:
  "identifier_match s = Some m \<Longrightarrow> 0 < length m \<and> length m \<le> length s"
proof (induction s rule: identifier_match.induct)
  case (2 c cs)
  have "length (dropWhile P (rev (takeWhile is_word cs))) \<le> length cs" for P
    by (metis length_dropWhile_le length_rev length_takeWhile_le order_trans)
  with 2 show ?case by (auto split: if_splits)
qed simp

lemma identifier_p_ok: "parser_ok src n True (\<lambda>_. True) identifier_p"
  by (rule parser_okI)
    (auto simp: identifier_p_def intro!: slice_ok split: option.split dest!: identifier_match_length)

lemma compound_identifier_ok: "parser_ok src n True (\<lambda>_. True) compound_identifier"
proof (rule parser_okI)
  fix i
  assume i: "length src < 2 ^ 31" "located src i" "length (ns_fragment i) < n"
  have "parser_ok src n True (\<lambda>xs. xs \<noteq> [] \<and> list_all (\<lambda>_. True) xs)
      (separated_nonempty_list from_error_kind (tag from_error_kind ''.'') identifier_p)"
    by (rule separated_nonempty_list_ok [OF tag_ok identifier_p_ok]) simp
  from parser_okD [OF this i] show "outcome_ok src True (\<lambda>_. True) i (compound_identifier i)"
    by (cases rule: outcome_ok_cases) (auto simp: compound_identifier_def)
qed

lemma condition_value_ok: "parser_ok src n True (\<lambda>_. True) condition_value"
proof (rule parser_okI)
  fix i
  assume i: "length src < 2 ^ 31" "located src i" "length (ns_fragment i) < n"
  have "parser_ok src n True (\<lambda>_. True)
      (alt [map_p (ws string_literal) StringLiteral, map_p (ws numeric_literal) NumericLiteral,
        map_p (ws bool_literal) BoolLiteral, map_p (ws compound_identifier) Identifier])"
    by (rule alt_ok)
      (auto intro!: map_p_ok ws_ok string_literal_ok numeric_literal_ok bool_literal_ok compound_identifier_ok)
  from parser_okD [OF this i] show "outcome_ok src True (\<lambda>_. True) i (condition_value i)"
    by (cases rule: outcome_ok_cases) (auto simp: condition_value_def)
qed

lemma using_p_ok: "parser_ok src n True (\<lambda>_. True) using_p"
proof -
  have as_part: "parser_ok src n False (\<lambda>_. True) (opt (preceded (ws (keyword_tag ''as'' PeAsKeyword)) (ws identifier_p)))"
    for src :: string and n
    by (rule opt_ok [OF preceded_ok [OF ws_ok [OF keyword_ok] ws_ok [OF identifier_p_ok]]]) simp
  have "using_p = map_p (pair (ws compound_identifier) (opt (preceded (ws (keyword_tag ''as'' PeAsKeyword)) (ws identifier_p))))
      (\<lambda>(name, alias). \<lparr>inc_name = name, inc_alias = alias\<rparr>)"
    by (auto simp: using_p_def map_p_def pair_def and_then_def fun_eq_iff split: result.split)
  then show ?thesis
    using map_p_ok [OF pair_ok [OF ws_ok [OF compound_identifier_ok] as_part], of "\<lambda>_. True"] by metis
qed

lemma terminator_ok: "parser_ok src n True (\<lambda>_. True) terminator"
  by (rule ws_ok [OF keyword_ok]) simp

lemma using_list_ok: "parser_ok src n False (\<lambda>_. True) using_list"
proof -
  have "parser_ok src n True (\<lambda>_. True)
      (delimited (ws (keyword_tag ''using'' PeUsingKeyword)) (ws using_p) terminator)"
    using delimited_ok [OF ws_ok [OF keyword_ok] ws_ok [OF using_p_ok] terminator_ok, of "''using''"] by simp
  from parser_ok_weaken [OF many0_ok [OF ws_ok [OF this]], of False "\<lambda>_. True" n] show ?thesis
    by (simp add: using_list_def)
qed

section \<open>Statements\<close>

fun statement_spans :: "Statement \<Rightarrow> Span list"
  and block_spans :: "Statement list \<Rightarrow> Span list"
  and branch_spans :: "(Condition \<times> Statement list) list \<Rightarrow> Span list" where
  "statement_spans (ConditionStatement sp c) = [sp, cond_span c]"
| "statement_spans (Accept sp _ _) = [sp]"
| "statement_spans (IfStatement sp blocks els) = sp # branch_spans blocks @ block_spans els"
| "statement_spans (FalseStatement sp) = [sp]"
| "statement_spans (TrueStatement sp) = [sp]"
| "block_spans [] = []"
| "block_spans (s # ss) = statement_spans s @ block_spans ss"
| "branch_spans [] = []"
| "branch_spans ((c, b) # bs) = cond_span c # block_spans b @ branch_spans bs"

abbreviation statement_located :: "string \<Rightarrow> Statement \<Rightarrow> bool" where
  "statement_located src s \<equiv> list_all (span_ok src) (statement_spans s)"

lemma block_spans_located:
  "list_all (span_ok src) (block_spans b) \<longleftrightarrow> list_all (statement_located src) b"
  by (induction b) simp_all

lemma branch_spans_located:
  "list_all (span_ok src) (branch_spans bs) \<longleftrightarrow>
     list_all (\<lambda>(c, b). span_ok src (cond_span c) \<and> list_all (statement_located src) b) bs"
  by (induction bs) (auto simp: block_spans_located)

lemma condition_op_ok: "parser_ok src n True (\<lambda>_. True) condition_op"
  unfolding condition_op_def by (intro map_err_p_ok alt_ok) (auto intro!: value_p_ok tag_ok)

lemma condition_p_ok: "parser_ok src n True (\<lambda>c. span_ok src (cond_span c)) condition_p"
proof -
  let ?body = "pair (ws compound_identifier) (pair (ws condition_op) (ws condition_value))"
  have "condition_p = spanned ?body
      (\<lambda>sp (lhs, op, rhs). \<lparr>cond_span = sp, cond_lhs = lhs, cond_op = op, cond_rhs = rhs\<rparr>)"
    by (auto simp: condition_p_def spanned_def pair_def and_then_assoc fun_eq_iff split_def)
  moreover have "parser_ok src n True (\<lambda>_. True) ?body"
    using any_value_ok [OF pair_ok [OF ws_ok [OF compound_identifier_ok]
      pair_ok [OF ws_ok [OF condition_op_ok] ws_ok [OF condition_value_ok]]], of src n] by simp
  ultimately show ?thesis
    by (rule spanned_eqI) (simp split: prod.split)
qed

lemma condition_statement_ok: "parser_ok src n True (statement_located src) condition_statement"
proof -
  have "condition_statement = spanned (terminated condition_p terminator) ConditionStatement"
    by (auto simp: condition_statement_def spanned_def fun_eq_iff)
  then show ?thesis
    by (rule spanned_eqI [OF _ terminated_ok [OF condition_p_ok terminator_ok, simplified]]) simp
qed

lemma keyword_if_ok: "parser_ok src n True (\<lambda>_. True) keyword_if"
  unfolding keyword_if_def by (rule ws_ok [OF keyword_ok]) simp

lemma keyword_else_ok: "parser_ok src n True (\<lambda>_. True) keyword_else"
  unfolding keyword_else_def by (rule ws_ok [OF keyword_ok]) simp

lemma statement_block_ok:
  assumes "parser_ok src n True Q st"
  shows "parser_ok src n True (list_all Q) (statement_block st)"
  using delimited_ok [OF ws_ok [OF keyword_ok] many1_ok [OF ws_ok [OF assms]] ws_ok [OF keyword_ok], of "''{''" "''}''"]
  by (simp add: statement_block_def)

lemma if_statement_ok:
  assumes "parser_ok src n True (statement_located src) st"
  shows "parser_ok src (Suc n) True (statement_located src) (if_statement st)"
proof -
  let ?block = "pair (preceded keyword_if condition_p) (statement_block st)"
  let ?body = "pair (separated_nonempty_list from_error_kind keyword_else ?block) (preceded keyword_else (statement_block st))"
  let ?P = "\<lambda>(c, b). span_ok src (cond_span c) \<and> list_all (statement_located src) b"
  have block: "parser_ok src (Suc n) True ?P ?block"
    using pair_strict_ok [OF _ statement_block_ok [OF assms]] preceded_ok [OF keyword_if_ok condition_p_ok, of src "Suc n"]
    by simp
  have "parser_ok src (Suc n) True (\<lambda>(bs, els). (bs \<noteq> [] \<and> list_all ?P bs) \<and> list_all (statement_located src) els) ?body"
    using pair_ok [OF separated_nonempty_list_ok [OF keyword_else_ok block]
      preceded_strict_ok [OF keyword_else_ok statement_block_ok [OF assms]]] by simp
  note body = this
  have "if_statement st = spanned ?body (\<lambda>sp (bs, els). IfStatement sp bs els)"
    by (auto simp: if_statement_def spanned_def pair_def and_then_assoc fun_eq_iff split_def)
  from spanned_eqI [OF this body] show ?thesis
    by (auto simp: block_spans_located branch_spans_located)
qed

lemma list_separator_ok: "parser_ok src n True (\<lambda>_. True) list_separator"
  unfolding list_separator_def by (rule ws_ok [OF keyword_ok]) simp

lemma list_ok:
  assumes "parser_ok src n s Q f"
  shows "parser_ok src n True (\<lambda>xs. xs \<noteq> [] \<and> list_all Q xs)
    (terminated (separated_nonempty_list from_error_kind list_separator f) (opt list_separator))"
  using terminated_ok [OF separated_nonempty_list_ok [OF list_separator_ok assms] opt_ok [OF list_separator_ok]] by simp

lemma accept_values_ok: "parser_ok src n True (\<lambda>_. True) accept_values"
  using any_value_ok [OF delimited_ok [OF ws_ok [OF keyword_ok] list_ok [OF ws_ok [OF condition_value_ok]] ws_ok [OF keyword_ok]],
    of "''{''" "''}''"]
  by (simp add: accept_values_def)

lemma accept_ok: "parser_ok src n True (statement_located src) accept"
proof -
  let ?body = "preceded keyword_accept (pair (ws compound_identifier) accept_values)"
  have "parser_ok src n True (\<lambda>_. True) keyword_accept"
    unfolding keyword_accept_def by (rule ws_ok [OF keyword_ok]) simp
  from any_value_ok [OF preceded_ok [OF this pair_ok [OF ws_ok [OF compound_identifier_ok] accept_values_ok]]]
  have "parser_ok src n True (\<lambda>_. True) ?body" by simp
  note body = this
  have "accept = spanned ?body (\<lambda>sp (identifier, vs). Accept sp identifier vs)"
    by (auto simp: accept_def spanned_def fun_eq_iff split_def)
  from spanned_eqI [OF this body] show ?thesis
    by (simp split: prod.split)
qed

lemma keyword_statement_ok:
  assumes "p = spanned (terminated (ws (keyword_tag kw e)) terminator) (\<lambda>sp _. f sp)"
    and "kw \<noteq> []" and "\<And>sp. span_ok src sp \<Longrightarrow> Q (f sp)"
  shows "parser_ok src n True Q p"
  by (rule spanned_eqI [OF assms(1) terminated_ok [OF ws_ok [OF keyword_ok [OF assms(2)]] terminator_ok, simplified]])
    (rule assms(3))

lemma keyword_false_ok: "parser_ok src n True (statement_located src) keyword_false"
proof -
  have "keyword_false = spanned (terminated (ws (keyword_tag ''false'' PeFalseKeyword)) terminator) (\<lambda>sp _. FalseStatement sp)"
    by (auto simp: keyword_false_def spanned_def fun_eq_iff)
  then show ?thesis by (rule keyword_statement_ok) simp_all
qed

lemma keyword_true_ok: "parser_ok src n True (statement_located src) keyword_true"
proof -
  have "keyword_true = spanned (terminated (ws (keyword_tag ''true'' PeTrueKeyword)) terminator) (\<lambda>sp _. TrueStatement sp)"
    by (auto simp: keyword_true_def spanned_def fun_eq_iff)
  then show ?thesis by (rule keyword_statement_ok) simp_all
qed

text \<open>The fuel bounds the length of the spans a statement is read from, and so its nesting.\<close>

lemma statement_ok: "parser_ok src n True (statement_located src) (statement n)"
proof (induction n)
  case (Suc n)
  have "statement (Suc n) = alt [condition_statement, if_statement (statement n), accept, keyword_false, keyword_true]"
    by (simp add: fun_eq_iff)
  with Suc show ?case
    by (auto intro!: alt_ok condition_statement_ok if_statement_ok accept_ok keyword_false_ok keyword_true_ok)
qed (simp add: parser_ok_def)

section \<open>Libraries\<close>

lemma value_list_ok:
  assumes "\<And>m. parser_ok src m s Q f"
  shows "parser_ok src n True (\<lambda>_. True) (value_list f)"
proof (rule parser_okI)
  fix i
  assume i: "length src < 2 ^ 31" "located src i" "length (ns_fragment i) < n"
  let ?until = "map_err_p (terminated (take_until Pair '';'') (tag Pair '';'')) PeSemicolon"
  let ?list = "delimited (ws (keyword_tag ''{'' PeListStart))
    (ws (terminated (separated_nonempty_list from_error_kind list_separator f) (opt list_separator)))
    (ws (keyword_tag ''}'' PeListEnd))"
  have "parser_ok src n True (located src) ?until"
    using map_err_p_ok [OF terminated_ok [OF take_until_ok tag_ok], of "'';''"] by simp
  from parser_okD [OF this i] show "outcome_ok src True (\<lambda>_. True) i (value_list f i)"
  proof (cases rule: outcome_ok_cases)
    case (ok j vals)
    have "parser_ok src (Suc (length (ns_fragment vals))) True (\<lambda>_. True) ?list"
      using any_value_ok [OF delimited_ok [OF ws_ok [OF keyword_ok] ws_ok [OF list_ok [OF assms]] ws_ok [OF keyword_ok]],
        of "''{''" "''}''"] by simp
    from parser_okD [OF this i(1) ok(5)] have "outcome_ok src True (\<lambda>_. True) vals (?list vals)" by simp
    then show ?thesis
      by (cases rule: outcome_ok_cases) (use ok in \<open>auto simp: value_list_def\<close>)
  qed (simp_all add: value_list_def)
qed

lemma assigned_ok:
  assumes "parser_ok src n s P p"
  shows "parser_ok src n True (\<lambda>_. True) (assigned p)"
  using any_value_ok [OF separated_pair_ok [OF ws_ok [OF identifier_p_ok] ws_ok [OF keyword_ok] ws_ok [OF assms]],
    of "''=''"] by (simp add: assigned_def)

lemma value_parser_ok: "parser_ok src n True (\<lambda>_. True) (value_parser t)"
  by (cases t)
    (auto simp: number_value_list_def string_value_list_def bool_value_list_def enum_value_list_def
      intro!: value_list_ok map_p_ok assigned_ok ws_ok numeric_literal_ok string_literal_ok bool_literal_ok identifier_p_ok)

lemma value_type_ok: "parser_ok src n True (\<lambda>_. True) (alt [keyword_uint, keyword_string, keyword_bool, keyword_enum])"
  by (rule alt_ok)
    (auto simp: keyword_uint_def keyword_string_def keyword_bool_def keyword_enum_def
      intro!: value_p_ok ws_ok keyword_ok)

lemma declaration_p_ok: "parser_ok src n True (\<lambda>_. True) declaration_p"
proof -
  let ?head = "pair (opt keyword_extend) (pair (alt [keyword_uint, keyword_string, keyword_bool, keyword_enum]) (ws compound_identifier))"
  have "parser_ok src n True (\<lambda>_. True) keyword_extend"
    unfolding keyword_extend_def by (intro ws_ok tag_ok) simp
  from any_value_ok [OF pair_ok [OF opt_ok [OF this] pair_ok [OF value_type_ok ws_ok [OF compound_identifier_ok]]]]
  have head: "parser_ok src n True (\<lambda>_. True) ?head" by simp
  let ?f = "\<lambda>(extends, value_type, name). map_p (value_parser value_type)
    (\<lambda>vals. \<lparr>dc_identifier = name, dc_value_type = value_type, dc_extends = (extends \<noteq> None), dc_values = vals\<rparr>)"
  have eq: "declaration_p = (\<lambda>i. and_then (?head i) (\<lambda>(j, x). ?f x j))"
    by (auto simp: declaration_p_def pair_def map_p_def and_then_assoc fun_eq_iff split_def)
  have rest: "parser_ok src m True (\<lambda>_. True) (?f x)" for m x
    by (cases x) (auto intro!: map_p_ok [OF value_parser_ok])
  have "parser_ok src n (True \<or> True) (\<lambda>_. True) (\<lambda>i. and_then (?head i) (\<lambda>(j, x). ?f x j))"
    by (rule then_ok [OF head]) (rule rest)
  then show ?thesis unfolding eq by simp
qed

lemma library_ok: "parser_ok src n True (\<lambda>_. True) library"
proof -
  have "parser_ok src n True (\<lambda>_. True) library_name"
    using delimited_ok [OF ws_ok [OF keyword_ok] ws_ok [OF compound_identifier_ok] terminator_ok, of "''library''"]
    by (simp add: library_name_def)
  from pair_ok [OF ws_ok [OF this] pair_ok [OF ws_ok [OF using_list_ok] many_until_eof_ok [OF ws_ok [OF declaration_p_ok]]]]
  show ?thesis
    unfolding library_def by (auto intro: map_p_ok)
qed

section \<open>Composite rules\<close>

lemma node_p_ok:
  "parser_ok src n True (\<lambda>(_, _, b). list_all (statement_located src) b) (node_p n)"
proof -
  have "parser_ok src n True (\<lambda>_. True) keyword_primary" "parser_ok src n True (\<lambda>_. True) keyword_node"
    unfolding keyword_primary_def keyword_node_def by (intro ws_ok keyword_ok; simp)+
  from pair_ok [OF pair_ok [OF opt_ok [OF this(1)] this(2)]
    pair_ok [OF ws_ok [OF node_name_ok] statement_block_ok [OF statement_ok]]]
  have "parser_ok src n True (\<lambda>(_, _, b). list_all (statement_located src) b)
      (pair (pair (opt keyword_primary) keyword_node) (pair (ws node_name) (statement_block (statement n))))"
    by (simp add: split_def)
  moreover have "node_p n = map_p
      (pair (pair (opt keyword_primary) keyword_node) (pair (ws node_name) (statement_block (statement n))))
      (\<lambda>(keywords, name, b). (fst keywords \<noteq> None, name, b))"
    by (auto simp: node_p_def pair_def map_p_def and_then_assoc fun_eq_iff split_def)
  ultimately show ?thesis
    by (auto intro: map_p_ok)
qed

text \<open>The primary node and the other nodes, from a list of nodes with marks.\<close>

definition node_located :: "string \<Rightarrow> CompositeAstNode \<Rightarrow> bool" where
  "node_located src nd \<longleftrightarrow> list_all (statement_located src) (can_statements nd)"

lemma sort_nodes_ok:
  assumes "list_all (\<lambda>(_, _, b). list_all (statement_located src) b) nodes"
    and "pred_option (node_located src) primary" and "list_all (node_located src) others"
  shows "case sort_nodes input nodes names primary others of
      Ok (p, ns) \<Rightarrow> node_located src p \<and> list_all (node_located src) ns
    | Err (NomError e) \<Rightarrow> True
    | _ \<Rightarrow> False"
  using assms
  by (induction input nodes names primary others rule: sort_nodes.induct)
    (auto simp: node_located_def Let_def split: option.splits)

lemma composite_nodes_ok:
  "parser_ok src n False (\<lambda>(p, ns). node_located src p \<and> list_all (node_located src) ns) (composite_nodes n)"
proof (rule parser_okI)
  fix i
  assume i: "length src < 2 ^ 31" "located src i" "length (ns_fragment i) < n"
  from parser_okD [OF many_until_eof_ok [OF ws_ok [OF node_p_ok]] i]
  show "outcome_ok src False (\<lambda>(p, ns). node_located src p \<and> list_all (node_located src) ns) i (composite_nodes n i)"
  proof (cases rule: outcome_ok_cases)
    case (ok j nodes)
    with sort_nodes_ok [of src nodes None "[]" "ns_fragment j" "{}"] show ?thesis
      by (auto simp: composite_nodes_def split: result.splits NomErr.splits)
  qed (simp_all add: composite_nodes_def)
qed

section \<open>The three entry points\<close>

lemma parse_outcome_ok:
  assumes "\<And>n. length src < n \<Longrightarrow> parser_ok src n s Q p" and "length src < 2 ^ 31"
  shows "case parse_outcome (p (new_span src)) of Ok x \<Rightarrow> Q x | Err _ \<Rightarrow> True | Panic \<Rightarrow> False"
proof -
  have "outcome_ok src s Q (new_span src) (p (new_span src))"
    by (rule parser_okD [OF assms(1) assms(2) located_new_span, of "Suc (length src)"]) (simp_all add: new_span_def)
  then show ?thesis
    by (cases rule: outcome_ok_cases) (simp_all add: parse_outcome_def)
qed

lemma rules_ok: "parser_ok src n False (\<lambda>ast. list_all (statement_located src) (ast_statements ast)) rules"
proof (rule parser_okI)
  fix i
  assume i: "length src < 2 ^ 31" "located src i" "length (ns_fragment i) < n"
  let ?m = "Suc (length (ns_fragment i))"
  have "outcome_ok src False (\<lambda>_. True) i (ws using_list i)"
    by (rule parser_okD [OF ws_ok [OF using_list_ok] i])
  then show "outcome_ok src False (\<lambda>ast. list_all (statement_located src) (ast_statements ast)) i (rules i)"
  proof (cases rule: outcome_ok_cases)
    case (ok j incs)
    have "length (ns_fragment j) < ?m" using advances_length [OF ok(3)] by simp
    from parser_okD [OF many_until_eof_ok [OF ws_ok [OF statement_ok]] i(1) ok(2) this] show ?thesis
      by (cases rule: outcome_ok_cases) (use ok in \<open>auto simp: rules_def Let_def intro: advances_trans\<close>)
  qed (simp_all add: rules_def Let_def)
qed

definition composite_located :: "string \<Rightarrow> CompositeAst \<Rightarrow> bool" where
  "composite_located src ast \<longleftrightarrow>
     node_located src (cast_primary_node ast) \<and> list_all (node_located src) (cast_nodes ast)"

lemma composite_ok: "parser_ok src n False (composite_located src) composite"
proof (rule parser_okI)
  fix i
  assume i: "length src < 2 ^ 31" "located src i" "length (ns_fragment i) < n"
  let ?m = "Suc (length (ns_fragment i))"
  have "parser_ok src ?m True (\<lambda>_. True) keyword_composite"
    unfolding keyword_composite_def by (intro ws_ok keyword_ok) simp
  from delimited_ok [OF this ws_ok [OF compound_identifier_ok] terminator_ok]
  have "parser_ok src ?m True (\<lambda>_. True) composite_name"
    by (simp add: composite_name_def)
  from pair_ok [OF ws_ok [OF this] pair_ok [OF ws_ok [OF using_list_ok] composite_nodes_ok]]
  have "parser_ok src ?m True (composite_located src)
      (map_p (pair (ws composite_name) (pair (ws using_list) (composite_nodes ?m)))
        (\<lambda>(name, includes, primary_node, nodes).
          \<lparr>cast_name = name, cast_using = includes, cast_primary_node = primary_node, cast_nodes = nodes\<rparr>))"
    by (auto intro!: map_p_ok simp: composite_located_def)
  from parser_okD [OF this i(1,2)] have "outcome_ok src True (composite_located src) i (composite i)"
    by (simp add: composite_def)
  then show "outcome_ok src False (composite_located src) i (composite i)"
    by (cases rule: outcome_ok_cases) auto
qed

text \<open>
  C18. Parsing a file of bind rules of less than 2 GiB returns a syntax tree or an error: it does
  not panic, and no loop or recursion of the parser runs on. Every span of the tree is a part of
  the source: its text stands at its offset, and its line is one more than the line breaks before it.
\<close>

theorem rules_parse_located:
  assumes "length src < 2 ^ 31"
  shows "case rules_try_from src of
      Ok ast \<Rightarrow> list_all (span_ok src) (block_spans (ast_statements ast))
    | Err _ \<Rightarrow> True
    | Panic \<Rightarrow> False"
  using parse_outcome_ok [OF rules_ok assms] by (simp add: rules_try_from_def block_spans_located split: result.splits)

theorem rules_parse_located_witness:
  "length ''a == 1;'' < 2 ^ 31
   \<and> (\<exists>ast. rules_try_from ''a == 1;'' = Ok ast \<and> list_all (span_ok ''a == 1;'') (block_spans (ast_statements ast)))"
proof -
  have "case rules_try_from ''a == 1;'' of Ok _ \<Rightarrow> True | _ \<Rightarrow> False"
    by code_simp
  then show ?thesis
    using rules_parse_located [of "''a == 1;''"] by (auto split: result.splits)
qed

text \<open>
  C19. Parsing a library or a file of composite rules of less than 2 GiB returns a syntax tree or
  an error, and the spans of composite rules are parts of the source.
\<close>

theorem library_composite_parse_located:
  assumes "length src < 2 ^ 31"
  shows "library_try_from src \<noteq> Panic
    \<and> (case composite_try_from src of
         Ok ast \<Rightarrow>
           list_all (span_ok src) (block_spans (can_statements (cast_primary_node ast)))
           \<and> list_all (\<lambda>nd. list_all (span_ok src) (block_spans (can_statements nd))) (cast_nodes ast)
       | Err _ \<Rightarrow> True
       | Panic \<Rightarrow> False)"
proof
  show "library_try_from src \<noteq> Panic"
    using parse_outcome_ok [OF library_ok assms] by (auto simp: library_try_from_def split: result.splits)
  show "case composite_try_from src of
         Ok ast \<Rightarrow>
           list_all (span_ok src) (block_spans (can_statements (cast_primary_node ast)))
           \<and> list_all (\<lambda>nd. list_all (span_ok src) (block_spans (can_statements nd))) (cast_nodes ast)
       | Err _ \<Rightarrow> True
       | Panic \<Rightarrow> False"
    using parse_outcome_ok [OF composite_ok assms]
    by (simp add: composite_try_from_def composite_located_def node_located_def [abs_def] block_spans_located split: result.splits)
qed

theorem library_composite_parse_located_witness:
  "length ''composite a; primary node \"b\" { true; }'' < 2 ^ 31
   \<and> (\<exists>ast. composite_try_from ''composite a; primary node \"b\" { true; }'' = Ok ast
        \<and> list_all (span_ok ''composite a; primary node \"b\" { true; }'')
             (block_spans (can_statements (cast_primary_node ast))))"
proof -
  have "case composite_try_from ''composite a; primary node \"b\" { true; }'' of Ok _ \<Rightarrow> True | _ \<Rightarrow> False"
    by code_simp
  then show ?thesis
    using library_composite_parse_located [of "''composite a; primary node \"b\" { true; }''"]
    by (auto split: result.splits)
qed

end
