(* ===== verification/Compile_Safe.thy ===== *)
theory Compile_Safe
  imports Compile_Rules Rules_Size Library_Order Grammar_Safe
begin

text \<open>The compiler never panics: not in its parsers, not in the graph of libraries, not on its labels.\<close>

lemma map_err_no_panic: "r \<noteq> Panic \<Longrightarrow> map_err f r \<noteq> Panic"
  by (cases r) simp_all

lemma collect_results_no_panic:
  "(\<And>x. x \<in> set xs \<Longrightarrow> f x \<noteq> Panic) \<Longrightarrow> collect_results f xs \<noteq> Panic"
  by (induction xs) (auto simp: result_simps)

lemma insert_values_no_panic: "insert_values q vs st \<noteq> Panic"
  by (induction vs arbitrary: st) (simp_all add: Let_def)

lemma insert_declaration_no_panic: "insert_declaration name incs d st \<noteq> Panic"
proof -
  have "find_qualified_identifier d incs q \<noteq> Panic" for q
    by (simp add: find_qualified_identifier_def result_simps split: option.split)
  moreover have "check_key d q st \<noteq> Panic" for q
    by (simp add: check_key_def split: option.split Symbol.split)
  ultimately show ?thesis
    by (simp add: insert_declaration_def Let_def result_simps insert_values_no_panic)
qed

lemma insert_declarations_no_panic: "insert_declarations name incs ds st \<noteq> Panic"
  by (induction ds arbitrary: st) (simp_all add: result_simps insert_declaration_no_panic)

lemma construct_symbol_table_no_panic: "construct_symbol_table libs \<noteq> Panic"
proof -
  have "insert_library_symbols libs st \<noteq> Panic" for st
    by (induction libs arbitrary: st) (simp_all add: result_simps insert_declarations_no_panic)
  then show ?thesis
    by (simp add: construct_symbol_table_def)
qed

lemma try_from_no_panic:
  assumes "length src < 2 ^ 31"
  shows "rules_try_from src \<noteq> Panic" and "composite_try_from src \<noteq> Panic" and "library_try_from src \<noteq> Panic"
  using parse_outcome_ok [OF rules_ok assms] parse_outcome_ok [OF composite_ok assms] parse_outcome_ok [OF library_ok assms]
  by (auto simp: rules_try_from_def composite_try_from_def library_try_from_def split: result.splits)

lemma get_symbol_table_from_libraries_no_panic:
  assumes "list_all (\<lambda>l. length l < 2 ^ 31) libraries"
  shows "get_symbol_table_from_libraries ord incs libraries lint \<noteq> Panic"
proof -
  have "parse_library lint l \<noteq> Panic" if "l \<in> set libraries" for l
    using that assms try_from_no_panic(3) [of l]
    by (auto simp: parse_library_def result_simps list_all_iff lint_library_def)
  then show ?thesis
    using collect_results_no_panic resolve_dependencies_no_panic construct_symbol_table_no_panic
    by (auto simp: get_symbol_table_from_libraries_def result_simps)
qed

lemma compile_bind_no_panic:
  assumes "length src < 2 ^ 31" and "list_all (\<lambda>l. length l < 2 ^ 31) libraries"
  shows "compile_bind ord src libraries lint auto use_new \<noteq> Panic"
proof -
  have "compile_statements (ast_statements ast) st use_new \<noteq> Panic" if "rules_try_from src = Ok ast" for ast st
    using rules_labels [OF that] assms(1) by (intro compile_statements_no_panic) simp
  then show ?thesis
    using try_from_no_panic(1) [OF assms(1)] get_symbol_table_from_libraries_no_panic [OF assms(2)]
    by (auto simp: compile_bind_def result_simps)
qed

lemma compile_bind_composite_no_panic:
  assumes "length src < 2 ^ 31" and "list_all (\<lambda>l. length l < 2 ^ 31) libraries"
  shows "compile_bind_composite ord src libraries lint use_new \<noteq> Panic"
proof -
  have *: "compile_node st use_new nd \<noteq> Panic"
    if "composite_try_from src = Ok ast" "nd = cast_primary_node ast \<or> nd \<in> set (cast_nodes ast)" for ast st nd
  proof -
    have "labels_needed (can_statements nd) \<le> node_labels ast"
      using that(2) member_le_sum_list [of "labels_needed (can_statements nd)" "map (\<lambda>nd. labels_needed (can_statements nd)) (cast_nodes ast)"]
      by (auto simp: node_labels_def intro: trans_le_add2)
    also have "\<dots> < 2 ^ 32"
      using composite_labels [OF that(1)] assms(1) by simp
    finally show ?thesis
      using compile_statements_no_panic by (simp add: compile_node_def result_simps)
  qed
  have "compile_node st use_new (cast_primary_node ast) \<noteq> Panic"
    and "collect_results (compile_node st use_new) (cast_nodes ast) \<noteq> Panic"
    if "composite_try_from src = Ok ast" for ast st
    using * [OF that] by (auto intro!: collect_results_no_panic)
  then show ?thesis
    using try_from_no_panic(2) [OF assms(1)] get_symbol_table_from_libraries_no_panic [OF assms(2)]
    by (auto simp: compile_bind_composite_def result_simps)
qed

text \<open>
  C5. The compiler returns. For rules and libraries of less than 2 GiB each, with any options and
  any iteration order of the hash sets, \<open>compile\<close> returns compiled rules or an error: no parser
  loops or panics, library resolution terminates, and the counter of labels does not overflow,
  since every label is paid for by a byte of the source.
\<close>

theorem compile_no_panic:
  assumes "length rules_str < 2 ^ 31" and "list_all (\<lambda>l. length l < 2 ^ 31) libraries"
  shows "compile ord rules_str libraries lint disable_autobind use_new_bytecode \<noteq> Panic"
  using try_from_no_panic(2) [OF assms(1)] compile_bind_no_panic [OF assms] compile_bind_composite_no_panic [OF assms]
  by (auto simp: compile_def result_simps split: result.splits)

theorem compile_no_panic_witness:
  "length ex_source < 2 ^ 31 \<and> compile (\<lambda>_ xs. xs) ex_source [''library a;''] True False True \<noteq> Panic"
proof
  show "length ex_source < 2 ^ 31" by (simp add: ex_source_def)
  then show "compile (\<lambda>_ xs. xs) ex_source [''library a;''] True False True \<noteq> Panic"
    by (intro compile_no_panic) simp_all
qed

end
