(* ===== verification/Driver_Index_Safe.thy ===== *)
theory Driver_Index_Safe
  imports Driver_Index_Props Compile_Rules
begin

text \<open>
  What holds in every state the driver index can reach: its drivers are well-formed, and which
  requests can make it panic.
\<close>

section \<open>A run with a composite driver\<close>

text \<open>The boot file system has one driver, whose bind rules are the given bytes.\<close>

definition ex_boot_ops :: "(string \<times> string option) UrlOps" where
  "ex_boot_ops = ex_ops\<lparr>url_parse := (\<lambda>s. Some (s, Some ''meta/x.cm''))\<rparr>"

definition ex_component :: ComponentDecl where
  "ex_component =
     \<lparr>cd_runner = Some ''driver'',
      cd_program = Some (Some [\<lparr>de_key = ''bind'', de_value = Some (DvStr ''bind/x'')\<rparr>])\<rparr>"

definition ex_boot_driver :: "DecodedRules \<Rightarrow> (string \<times> string option) ResolvedDriver" where
  "ex_boot_driver decoded =
     \<lparr>rd_component_url = (''fuchsia-boot:///#meta/x.cm'', Some ''meta/x.cm''), rd_v1_driver_path = None,
      rd_bind_rules = decoded, rd_colocate = False\<rparr>"

lemma ex_boot:
  assumes "new_DecodedRules bytes = Ok decoded"
  shows "load_boot_drivers ex_boot_ops [''meta/x.cm'' \<mapsto> ex_component] [''bind/x'' \<mapsto> bytes]
      (Some [(True, ''readme''), (True, ''x.cm'')]) = Ok [ex_boot_driver decoded]"
  using assms
  by (simp add: load_boot_drivers_def ends_with_def ex_boot_ops_def ex_ops_def load_driver_def ex_component_def
      get_rules_string_value_def ex_boot_driver_def)

lemma ex_boot_composite:
  obtains bytes d where "encode_to_bytecode (CompositeBind ex_composite_compiled) = Ok bytes"
    and "new_DecodedRules bytes = Ok (Composite d)"
proof -
  obtain bytes where bytes: "encode_to_bytecode (CompositeBind ex_composite_compiled) = Ok bytes" "length bytes < 2 ^ 32"
    by (rule ex_composite_bytes)
  then have "encode_composite_to_bytecode ex_composite_compiled = Ok bytes" by simp
  from composite_roundtrip_lemma [OF this bytes(2) ex_composite_good] bytes(1) that show thesis by blast
qed

section \<open>Drivers are well-formed in every state\<close>

text \<open>
  C23. The rules of every driver are well-formed. Boot drivers are loaded from files and base drivers
  through the resolver. In every state the index can reach from there, the symbol table of every
  driver numbers strings from 1, none of them empty, longer than 255 bytes or with a zero byte.
  Every instruction section is shorter than \<open>2\<^sup>3\<^sup>2\<close> bytes. In composite rules the name of the device and the names of all
  nodes are in the table. Names that occur inside instructions are looked up when rules are
  matched, and this is not part of the invariant.
\<close>

theorem index_drivers_wf:
  assumes "load_boot_drivers ops rc rb meta = Ok boot" and "index_run ops send resolver boot s"
  shows "list_all (\<lambda>d. rules_wf (rd_bind_rules d)) (boot_repo (st_index s) @ base_drivers (st_index s))"
  using index_run_wf [OF load_boot_drivers_wf [OF assms(1)] assms(2)] by (simp add: index_wf_def)

text \<open>The index that has just started with the composite driver.\<close>

definition ex_boot_state :: "DecodedRules \<Rightarrow> (string \<times> string option, nat) IndexState" where
  "ex_boot_state decoded = initial_state [ex_boot_driver decoded]"

lemma ex_boot_run: "index_run ex_boot_ops (\<lambda>_. SendOk) Map.empty [ex_boot_driver decoded] (ex_boot_state decoded)"
  by (simp add: ex_boot_state_def)

theorem index_drivers_wf_witness:
  "\<exists>bytes d. encode_to_bytecode (CompositeBind ex_composite_compiled) = Ok bytes
     \<and> new_DecodedRules bytes = Ok (Composite d)
     \<and> boot_repo (st_index (ex_boot_state (Composite d))) = [ex_boot_driver (Composite d)]
     \<and> rules_wf (Composite d)"
proof -
  obtain bytes d where bytes: "encode_to_bytecode (CompositeBind ex_composite_compiled) = Ok bytes"
    and d: "new_DecodedRules bytes = Ok (Composite d)"
    by (rule ex_boot_composite)
  moreover have "boot_repo (st_index (ex_boot_state (Composite d))) = [ex_boot_driver (Composite d)]"
    by (simp add: ex_boot_state_def initial_state_def new_indexer_def)
  moreover from index_drivers_wf [OF ex_boot [OF d] ex_boot_run] this have "rules_wf (Composite d)"
    by (simp add: ex_boot_driver_def)
  ultimately show ?thesis by blast
qed

section \<open>Which requests can panic\<close>







end
