(* ===== verification/Encoder_Complete.thy ===== *)
theory Encoder_Complete
  imports Compile_Rules
begin

text \<open>
  The encoder of instructions as an implementation: of the reference layout, of a list of distinct
  strings, and, on the code of the compiler, as a function that fails only for values of the wrong
  type and for strings that are too long.
\<close>

section \<open>Interning\<close>

lemma ste_inv_unique: "ste_inv e ss \<Longrightarrow> unique_key e = - 1 \<longleftrightarrow> length ss = 2 ^ 32 - 2"
  by (auto simp: ste_inv_def word_unat_eq_iff unsigned_minus_1_eq_mask mask_eq_exp_minus_1)

lemma get_key_refines:
  assumes "ste_inv e ss"
  shows "case get_key v e of
      Ok (k, e') \<Rightarrow> ste_inv e' (if v \<in> set ss then ss else ss @ [v])
        \<and> symbols_of (if v \<in> set ss then ss else ss @ [v]) k = Some v
    | Err err \<Rightarrow> err = EeInvalidStringLength v \<and> v \<notin> set ss \<and> MAX_STRING_LENGTH < length v
    | Panic \<Rightarrow> v \<notin> set ss \<and> length ss = 2 ^ 32 - 2"
proof (cases "encoded_symbols e v")
  case None
  then have new: "v \<notin> set ss" and key: "get_key v e = add_symbol v e"
    using ste_inv_mem [OF assms] by (auto simp: get_key_def)
  show ?thesis
  proof (cases "add_symbol v e")
    case (Ok r)
    obtain k e' where r: "r = (k, e')" by force
    from add_symbol_inv [OF assms None Ok [unfolded r]] have "ste_inv e' (ss @ [v])" "encoded_symbols e' v = Some k"
      by simp_all
    with new show ?thesis
      unfolding key Ok r by (simp add: ste_inv_def)
  next
    case (Err err)
    with new show ?thesis
      unfolding key by (auto simp: add_symbol_def checked_inc_def split: if_splits)
  next
    case Panic
    with new ste_inv_unique [OF assms] show ?thesis
      unfolding key by (auto simp: add_symbol_def checked_inc_def split: if_splits)
  qed
next
  case (Some k)
  with assms have "v \<in> set ss" "symbols_of ss k = Some v"
    using ste_inv_mem [OF assms] by (auto simp: ste_inv_def)
  with assms Some show ?thesis by (simp add: get_key_def)
qed

text \<open>The strings of the encoder are among \<open>U\<close>.\<close>

definition interns :: "string set \<Rightarrow> SymbolTableEncoder \<Rightarrow> bool" where
  "interns U e \<longleftrightarrow> (\<exists>ss. ste_inv e ss \<and> set ss \<subseteq> U)"

definition small_strings :: "string set \<Rightarrow> bool" where
  "small_strings U \<longleftrightarrow> finite U \<and> Suc (card U) < 2 ^ 32 \<and> (\<forall>s\<in>U. length s \<le> MAX_STRING_LENGTH)"

lemma interns_extends: "interns U e \<Longrightarrow> ste_extends V e e' \<Longrightarrow> V \<subseteq> U \<Longrightarrow> interns U e'"
  by (fastforce simp: interns_def ste_extends_def)

lemma interns_new: "interns U new_symbol_table_encoder"
  using ste_inv_new by (fastforce simp: interns_def)

lemma get_key_total:
  assumes "interns U e" and "small_strings U" and "v \<in> U"
  shows "\<exists>k e'. get_key v e = Ok (k, e')"
proof -
  from assms(1) obtain ss where ss: "ste_inv e ss" "set ss \<subseteq> U"
    by (auto simp: interns_def)
  have "length ss = card (set ss)"
    using ss(1) by (simp add: ste_inv_def distinct_card)
  also have "\<dots> \<le> card U"
    using ss(2) assms(2) by (intro card_mono) (simp_all add: small_strings_def)
  finally have "length ss < 2 ^ 32 - 2 \<or> length ss = 2 ^ 32 - 2 \<and> card (set ss) = card U"
    using assms(2) \<open>length ss = card (set ss)\<close> by (auto simp: small_strings_def)
  moreover have "v \<in> set ss" if "card (set ss) = card U"
    using card_subset_eq [OF _ ss(2) that] assms(2,3) by (simp add: small_strings_def)
  ultimately show ?thesis
    using get_key_refines [OF ss(1), of v] assms(2,3)
    by (auto simp: small_strings_def split: result.splits)
qed

section \<open>Progress of the first pass\<close>

lemma append_value_total:
  assumes "interns U e" and "small_strings U" and "symbol_strings s \<subseteq> U"
  shows "\<exists>bc' e'. append_value bc e s = Ok (bc', e')"
  using get_key_total [OF assms(1,2)] assms(3) by (cases s) (fastforce simp: append_value_def)+

lemma append_value_comparison_total:
  assumes "interns U e" and "small_strings U" and "symbol_strings l \<union> symbol_strings r \<subseteq> U" and "comparison_ok l r"
  shows "\<exists>bc' e'. append_value_comparison bc e l r = Ok (bc', e')"
proof -
  from append_value_total [OF assms(1,2), of l bc] assms(3) obtain bc1 e1
    where l: "append_value bc e l = Ok (bc1, e1)" by auto
  with append_value_appends [OF l] assms(3) have "interns U e1"
    by (intro interns_extends [OF assms(1)]) (auto simp: appends_def)
  from append_value_total [OF this assms(2), of r bc1] assms(3) obtain bc2 e2
    where "append_value bc1 e1 r = Ok (bc2, e2)" by auto
  with l assms(4) show ?thesis
    by (auto simp: append_value_comparison_def comparison_ok_def split: Symbol.splits)
qed

lemma encode_step_total:
  assumes "interns U e" and "small_strings U" and "inst_strings (si_instruction i) \<subseteq> U"
    and "inst_ok (si_instruction i)"
    and "\<forall>l. touched_label (si_instruction i) = Some l \<longrightarrow> \<not> label_seen lm l"
  shows "\<exists>bc1 e1. interns U e1 \<and> length bc1 = length bc + inst_size (si_instruction i)
    \<and> encode_loop (i # is) lm bc e = encode_loop is (note_labels (length bc) (si_instruction i) lm) bc1 e1"
proof -
  have compare: "\<exists>bc1 e1. append_value_comparison (bc @ pre) e l r = Ok (bc1, e1)
      \<and> interns U e1 \<and> length bc1 = length bc + length pre + 10"
    if "comparison_ok l r" "symbol_strings l \<union> symbol_strings r \<subseteq> U" for pre l r
  proof -
    from append_value_comparison_total [OF assms(1,2) that(2,1)] obtain bc1 e1
      where c: "append_value_comparison (bc @ pre) e l r = Ok (bc1, e1)" by blast
    with comparison_after [OF c] that(2) show ?thesis
      by (auto simp: appends_def intro: interns_extends [OF assms(1)])
  qed
  show ?thesis
  proof (cases "si_instruction i")
    case (AbortIfEqual l r)
    with compare [of l r "[raw_op_byte OpInequalCondition]"] assms(3,4) obtain bc1 e1
      where "append_value_comparison (bc @ [raw_op_byte OpInequalCondition]) e l r = Ok (bc1, e1)"
        "interns U e1" "length bc1 = length bc + 11"
      by auto
    with AbortIfEqual show ?thesis
      by (intro exI [of _ bc1] exI [of _ e1]) (simp add: note_labels_def)
  next
    case (AbortIfNotEqual l r)
    with compare [of l r "[raw_op_byte OpEqualCondition]"] assms(3,4) obtain bc1 e1
      where "append_value_comparison (bc @ [raw_op_byte OpEqualCondition]) e l r = Ok (bc1, e1)"
        "interns U e1" "length bc1 = length bc + 11"
      by auto
    with AbortIfNotEqual show ?thesis
      by (intro exI [of _ bc1] exI [of _ e1]) (simp add: note_labels_def)
  next
    case (JumpIfEqual l r lab)
    with compare [of l r "raw_op_byte OpJumpIfEqual # to_le_bytes 0"] assms(3,4) obtain bc1 e1
      where "append_value_comparison (bc @ raw_op_byte OpJumpIfEqual # to_le_bytes 0) e l r = Ok (bc1, e1)"
        "interns U e1" "length bc1 = length bc + 15"
      by auto
    with JumpIfEqual assms(5) show ?thesis
      by (intro exI [of _ bc1] exI [of _ e1]) (simp add: note_labels_def append_jmp_statement_def Let_def)
  next
    case (JumpIfNotEqual l r lab)
    with compare [of l r "raw_op_byte OpJumpIfNotEqual # to_le_bytes 0"] assms(3,4) obtain bc1 e1
      where "append_value_comparison (bc @ raw_op_byte OpJumpIfNotEqual # to_le_bytes 0) e l r = Ok (bc1, e1)"
        "interns U e1" "length bc1 = length bc + 15"
      by auto
    with JumpIfNotEqual assms(5) show ?thesis
      by (intro exI [of _ bc1] exI [of _ e1]) (simp add: note_labels_def append_jmp_statement_def Let_def)
  next
    case (UnconditionalJump lab)
    with assms(1,5) show ?thesis
      by (intro exI [of _ "bc @ raw_op_byte OpUnconditionalJump # to_le_bytes 0"] exI [of _ e])
        (simp add: note_labels_def append_jmp_statement_def Let_def)
  next
    case (SymLabel lab)
    with assms(1,5) show ?thesis
      by (intro exI [of _ "bc @ [raw_op_byte OpJumpLandPad]"] exI [of _ e])
        (simp add: note_labels_def append_and_update_label_info)
  next
    case UnconditionalAbort
    with assms(1) show ?thesis
      by (intro exI [of _ "bc @ [raw_op_byte OpAbort]"] exI [of _ e]) (simp add: note_labels_def)
  qed (use assms(4) in simp)
qed

text \<open>An entry of the label map is there because its label has been placed or used.\<close>

definition entries_used :: "LabelMap \<Rightarrow> bool" where
  "entries_used lm \<longleftrightarrow> (\<forall>(l, d)\<in>set lm. li_index d \<noteq> None \<or> li_jump_instructions d \<noteq> [])"

lemma entries_used_update:
  "entries_used lm \<Longrightarrow> li_index d \<noteq> None \<or> li_jump_instructions d \<noteq> [] \<Longrightarrow> entries_used (AList.update l d lm)"
  by (induction lm) (auto simp: entries_used_def)

lemma entries_used_note: "entries_used lm \<Longrightarrow> entries_used (note_labels pos i lm)"
  by (auto simp: note_labels_def push_usage_info set_label_def intro!: entries_used_update
      split: option.split SymbolicInstruction.split)

lemma forward_unseen:
  assumes "label_rep code lm" and "distinct (labels_of (code @ i # is))" and "jumps_forward (i # is)"
    and "touched_label i = Some l"
  shows "\<not> label_seen lm l"
proof -
  have "l \<notin> set (labels_of code)"
    using assms(2-4) by (cases i) auto
  with assms(1) show ?thesis
    by (simp add: label_rep_def label_seen_info label_pos_None)
qed

lemma jumps_forward_tl: "jumps_forward (i # is) \<Longrightarrow> jumps_forward is"
  by (cases i) auto

lemma encode_loop_total:
  assumes "label_rep code lm" and "length bc = code_size code" and "entries_used lm"
    and "distinct (labels_of (code @ sym_code is))" and "jumps_forward (sym_code is)"
    and "list_all inst_ok (sym_code is)" and "code_strings (sym_code is) \<subseteq> U" and "small_strings U" and "interns U e"
  shows "\<exists>lm' bc' e'. encode_loop is lm bc e = Ok (lm', bc', e') \<and> entries_used lm'"
  using assms
proof (induction "is" arbitrary: code lm bc e)
  case (Cons i "is")
  let ?i = "si_instruction i"
  have unseen: "\<forall>l. touched_label ?i = Some l \<longrightarrow> \<not> label_seen lm l"
    using forward_unseen [OF Cons.prems(1), of ?i "sym_code is"] Cons.prems(4,5) by auto
  with encode_step_total [OF Cons.prems(9,8), of i lm bc "is"] Cons.prems(6,7) obtain bc1 e1
    where step: "interns U e1" "length bc1 = length bc + inst_size ?i"
      "encode_loop (i # is) lm bc e = encode_loop is (note_labels (length bc) ?i lm) bc1 e1"
    by auto
  have "label_rep (code @ [?i]) (note_labels (length bc) ?i lm)"
    using label_rep_step [OF Cons.prems(1)] unseen Cons.prems(2) by auto
  then show ?case
    unfolding step(3)
    by (rule Cons.IH) (use Cons.prems step(1,2) in \<open>auto simp: entries_used_note dest: jumps_forward_tl\<close>)
qed auto

section \<open>Progress of the second pass\<close>

lemma usages_label: "u \<in> set (usages l pos is) \<Longrightarrow> jumps_forward is \<Longrightarrow> l \<in> set (labels_of is)"
proof (induction "is" arbitrary: pos)
  case (Cons i "is")
  then show ?case by (cases i) (auto split: if_splits)
qed simp

lemma patch_labels_total:
  assumes rep: "label_rep code lm" and "entries_used lm" and "jumps_forward code" and "code_size code < 2 ^ 32"
  shows "\<exists>bc. patch_labels lm (layout_at K f 0 code) = Ok bc"
proof -
  have reach: "reaches 0 code l u" if "u \<in> set (usages l 0 code)" for l u
  proof -
    from usages_label [OF that assms(3)] obtain p where p: "label_pos l code = Some p"
      using label_pos_None [of l code] by auto
    with rep that label_pos_less [OF p] assms(4) show ?thesis
      by (auto simp: reaches_def label_rep_def)
  qed
  have "label_ok code (field_value 0 code) d" if d: "(l, d) \<in> set lm" for l d
  proof (rule label_rep_ok [OF rep d _ reach])
    have "label_pos l code \<noteq> None \<or> usages l 0 code \<noteq> []"
      using assms(2) d label_rep_entry(1) [OF rep d] by (fastforce simp: entries_used_def)
    moreover have "label_pos l code \<noteq> None" if "usages l 0 code \<noteq> []"
      using that usages_label [of _ l 0 code, OF _ assms(3)] by (cases "usages l 0 code") (auto simp: label_pos_None)
    ultimately show "label_pos l code \<noteq> None" by blast
  qed
  then have "list_all (\<lambda>(l, d). label_ok code (field_value 0 code) d) lm"
    by (auto simp: list_all_iff)
  from patch_labels_layout [OF this] show ?thesis by blast
qed

lemma encode_instructions_total:
  assumes "distinct (labels_of (sym_code is))" and "jumps_forward (sym_code is)"
    and "list_all inst_ok (sym_code is)" and "code_size (sym_code is) < 2 ^ 32"
    and "small_strings (code_strings (sym_code is))"
  shows "\<exists>bc e'. encode_instructions is new_symbol_table_encoder = Ok (bc, e')"
proof -
  have "entries_used []" by (simp add: entries_used_def)
  with encode_loop_total [OF label_rep_Nil, of "[]" "is" "code_strings (sym_code is)" new_symbol_table_encoder] assms
    interns_new
  obtain lm bc e' where loop: "encode_loop is [] [] new_symbol_table_encoder = Ok (lm, bc, e')" "entries_used lm"
    by auto
  from encode_loop_spec [OF loop(1) label_rep_Nil]
  have "appends (code_strings (sym_code is)) (\<lambda>K. layout_at K (\<lambda>_. 0) 0 (sym_code is)) [] new_symbol_table_encoder bc e'"
    and rep: "label_rep (sym_code is) lm"
    by simp_all
  then have "bc = layout_at (encoded_symbols e') (\<lambda>_. 0) 0 (sym_code is)"
    by (simp add: appends_def)
  with patch_labels_total [OF rep loop(2) assms(2,4), of "encoded_symbols e'" "\<lambda>_. 0"] loop(1) show ?thesis
    by (auto simp: encode_instructions_def)
qed

section \<open>The encoder as an implementation\<close>

text \<open>
  C13. The two passes of the instruction encoder implement the reference layout. When the encoder
  succeeds, its bytes are those of a single pass over the instructions in which every jump carries
  the distance to its label and every string the key it has in the symbol table. Every jump finds
  its label behind it, at a distance of less than \<open>2\<^sup>3\<^sup>2\<close>, and no label occurs twice.
\<close>

theorem encoder_refines_layout:
  assumes "encode_instructions is e = Ok (bc, e')"
  shows "bc = layout (encoded_symbols e') (sym_code is) \<and> offsets_fit (sym_code is)
    \<and> distinct (labels_of (sym_code is))"
  using encode_instructions_spec [OF assms] by simp

definition ex_jump :: "SymbolicInstructionInfo list" where
  "ex_jump =
     map (\<lambda>i. \<lparr>si_location = None, si_instruction = i\<rparr>)
       [JumpIfEqual (Key ''k'' VtBool) (BoolValue True) 7, UnconditionalAbort, SymLabel 7]"

theorem encoder_refines_layout_witness:
  "\<exists>bc e'. encode_instructions ex_jump new_symbol_table_encoder = Ok (bc, e')
     \<and> bc = layout (encoded_symbols e') (sym_code ex_jump) \<and> offsets_fit (sym_code ex_jump)"
proof -
  have "small_strings {''k''}" by (simp add: small_strings_def MAX_STRING_LENGTH_def)
  then obtain bc e' where "encode_instructions ex_jump new_symbol_table_encoder = Ok (bc, e')"
    using encode_instructions_total [of ex_jump] by (auto simp: ex_jump_def comparison_ok_def)
  with encoder_refines_layout [OF this] show ?thesis by blast
qed

text \<open>
  C14. The symbol table encoder implements a list of distinct strings. Asking for the key of a string
  leaves the list alone if the string is there and appends it otherwise, and the key given is the
  position of the string. It fails only for a new string that is too long, and overflows only when
  all keys are taken.
\<close>

theorem get_key_interns:
  assumes "ste_inv e ss"
  shows "case get_key v e of
      Ok (k, e') \<Rightarrow> ste_inv e' (if v \<in> set ss then ss else ss @ [v])
        \<and> symbols_of (if v \<in> set ss then ss else ss @ [v]) k = Some v
    | Err err \<Rightarrow> err = EeInvalidStringLength v \<and> v \<notin> set ss \<and> MAX_STRING_LENGTH < length v
    | Panic \<Rightarrow> v \<notin> set ss \<and> length ss = 2 ^ 32 - 2"
  by (rule get_key_refines [OF assms])

theorem get_key_interns_witness:
  "case get_key ''k'' new_symbol_table_encoder of
     Ok (k, e') \<Rightarrow> ste_inv e' [''k''] \<and> symbols_of [''k''] k = Some ''k'' | Err err \<Rightarrow> False | Panic \<Rightarrow> False"
  using get_key_interns [OF ste_inv_new, of "''k''"]
  by (auto simp: MAX_STRING_LENGTH_def split: result.splits)

section \<open>When compiled rules can be encoded\<close>

lemma inst_size_le: "inst_size i \<le> 15"
  by (cases i) auto

lemma code_size_le: "code_size is \<le> 15 * length is"
proof (induction "is")
  case (Cons i "is")
  with inst_size_le [of i] show ?case by simp
qed simp

lemma inst_strings_card: "finite (inst_strings i) \<and> card (inst_strings i) \<le> 2"
proof -
  have "finite (symbol_strings s) \<and> card (symbol_strings s) \<le> 1" for s
    by (cases s) auto
  then have "finite (symbol_strings l \<union> symbol_strings r) \<and> card (symbol_strings l \<union> symbol_strings r) \<le> 2" for l r
    using card_Un_le [of "symbol_strings l" "symbol_strings r"] by (metis add_mono finite_UnI le_trans one_add_one)
  then show ?thesis by (cases i) auto
qed

lemma code_strings_card: "finite (code_strings is) \<and> card (code_strings is) \<le> 2 * length is"
proof (induction "is")
  case (Cons i "is")
  with inst_strings_card [of i] card_Un_le [of "inst_strings i" "code_strings is"] show ?case by auto
qed simp

lemma symbol_bytes_le:
  "list_all (\<lambda>s. length s \<le> MAX_STRING_LENGTH) ss \<Longrightarrow> length (symbol_bytes n ss) \<le> 260 * length ss"
proof (induction ss arbitrary: n)
  case (Cons s ss)
  from Cons.IH [of "Suc n"] Cons.prems show ?case by (simp add: MAX_STRING_LENGTH_def into_bytes_def)
qed simp

lemma encode_symbols:
  assumes "encode_instructions is new_symbol_table_encoder = Ok (bc, e')"
  obtains ss where "ste_inv e' ss" and "set ss = code_strings (sym_code is)"
proof -
  have ext: "ste_extends (code_strings (sym_code is)) new_symbol_table_encoder e'"
    by (rule encode_instructions_spec [OF assms])
  then have "\<exists>ts. ste_inv e' ([] @ ts) \<and> set ts \<subseteq> code_strings (sym_code is)"
    using ste_inv_new unfolding ste_extends_def by blast
  then obtain ss where ss: "ste_inv e' ss" "set ss \<subseteq> code_strings (sym_code is)"
    by auto
  moreover have "code_strings (sym_code is) \<subseteq> set ss"
    using ext ste_inv_mem [OF ss(1)] unfolding ste_extends_def dom_def by blast
  ultimately show thesis using that by blast
qed

lemma encode_v2_length:
  assumes "encode_to_bytecode_v2 br = Ok bytes"
  shows "length bytes \<le> 24 + 535 * length (br_instructions br)"
proof -
  from assms obtain bc e' where e: "encode_instructions (br_instructions br) new_symbol_table_encoder = Ok (bc, e')"
    and bytes: "length bytes = 24 + length (ste_bytecode e') + length bc"
    by (auto simp: encode_to_bytecode_v2_def result_simps)
  let ?code = "sym_code (br_instructions br)"
  from encode_symbols [OF e] obtain ss where ss: "ste_inv e' ss" "set ss = code_strings ?code" .
  then have "length ss = card (code_strings ?code)"
    by (metis ste_inv_def distinct_card)
  then have "length ss \<le> 2 * length (br_instructions br)"
    using code_strings_card [of ?code] by simp
  moreover have "length (ste_bytecode e') \<le> 260 * length ss"
    using ss(1) symbol_bytes_le by (simp add: ste_inv_def)
  moreover have "length bc \<le> 15 * length (br_instructions br)"
    using encode_instructions_spec(2) [OF e map_le_refl] code_size_le [of ?code] by simp
  ultimately show ?thesis using bytes by linarith
qed

text \<open>
  C15. The size of bytecode. Bytecode of the new format for \<open>n\<close> instructions is at most \<open>24 + 535 n\<close>
  bytes long: three headers, fifteen bytes for each instruction, and two strings of 260 bytes with
  key and terminator for each instruction. So the 32 bit length fields hold for up to eight million
  instructions.
\<close>

theorem encode_v2_bound:
  assumes "encode_to_bytecode_v2 br = Ok bytes"
  shows "length bytes \<le> 24 + 535 * length (br_instructions br)"
  by (rule encode_v2_length [OF assms])

theorem encode_v2_bound_witness:
  "\<exists>bytes. encode_to_bytecode (Bind ex_compiled) = Ok bytes \<and> length bytes \<le> 24 + 535 * 2"
proof -
  obtain bytes where bytes: "encode_to_bytecode (Bind ex_compiled) = Ok bytes"
    by (rule ex_compiled_bytes)
  then have "encode_to_bytecode_v2 ex_compiled = Ok bytes" by (simp add: ex_compiled_def)
  from encode_v2_bound [OF this] have "length bytes \<le> 24 + 535 * 2"
    by (simp add: ex_compiled_def)
  with bytes show ?thesis by blast
qed

lemma compile_bind_code:
  assumes "compile_bind ord rules_str libraries lint disable_autobind True = Ok br"
  shows "distinct (labels_of (sym_code (br_instructions br)))" and "jumps_forward (sym_code (br_instructions br))"
    and "br_use_new_bytecode br"
proof -
  obtain ast st "is" where "rules_try_from rules_str = Ok ast"
    and "get_symbol_table_from_libraries ord (ast_using ast) libraries lint = Ok st"
    and code: "compile_statements (ast_statements ast) st True = Ok is"
    and br: "br = \<lparr>br_symbol_table = st,
       br_instructions = (if disable_autobind then disable_autobind_inst # is else is), br_use_new_bytecode = True\<rparr>"
    by (rule compile_bind_Ok [OF assms])
  from code have "block_code is" by (rule compile_statements_block_code)
  with br show "distinct (labels_of (sym_code (br_instructions br)))" "jumps_forward (sym_code (br_instructions br))"
    "br_use_new_bytecode br"
    by (auto simp: block_code_def disable_autobind_inst_def)
qed

lemma compiled_encodes:
  assumes "compile_bind ord rules_str libraries lint disable_autobind True = Ok br"
    and "length (br_instructions br) < 2 ^ 28"
  shows "(\<exists>bytes. encode_to_bytecode (Bind br) = Ok bytes) \<longleftrightarrow>
    list_all inst_ok (sym_code (br_instructions br))
    \<and> (\<forall>s\<in>code_strings (sym_code (br_instructions br)). length s \<le> MAX_STRING_LENGTH)"
proof -
  let ?is = "br_instructions br"
  have "(\<exists>bytes. encode_to_bytecode (Bind br) = Ok bytes) \<longleftrightarrow>
      (\<exists>r. encode_instructions ?is new_symbol_table_encoder = Ok r)"
    using compile_bind_code(3) [OF assms(1)] by (force simp: encode_to_bytecode_v2_def result_simps)
  also have "\<dots> \<longleftrightarrow> list_all inst_ok (sym_code ?is) \<and> (\<forall>s\<in>code_strings (sym_code ?is). length s \<le> MAX_STRING_LENGTH)"
  proof
    assume "\<exists>r. encode_instructions ?is new_symbol_table_encoder = Ok r"
    then obtain bc e' where e: "encode_instructions ?is new_symbol_table_encoder = Ok (bc, e')" by force
    from encode_symbols [OF e] obtain ss where ss: "ste_inv e' ss" "set ss = code_strings (sym_code ?is)" .
    then have "\<forall>s\<in>set ss. length s \<le> MAX_STRING_LENGTH" by (simp add: ste_inv_def list_all_iff)
    with encode_instructions_spec(3) [OF e] ss(2)
    show "list_all inst_ok (sym_code ?is) \<and> (\<forall>s\<in>code_strings (sym_code ?is). length s \<le> MAX_STRING_LENGTH)"
      by simp
  next
    assume ok: "list_all inst_ok (sym_code ?is) \<and> (\<forall>s\<in>code_strings (sym_code ?is). length s \<le> MAX_STRING_LENGTH)"
    moreover have "Suc (card (code_strings (sym_code ?is))) < 2 ^ 32" "code_size (sym_code ?is) < 2 ^ 32"
      using code_strings_card [of "sym_code ?is"] code_size_le [of "sym_code ?is"] assms(2) by simp_all
    ultimately show "\<exists>r. encode_instructions ?is new_symbol_table_encoder = Ok r"
      using encode_instructions_total [OF compile_bind_code(1,2) [OF assms(1)]] code_strings_card [of "sym_code ?is"]
      by (fastforce simp: small_strings_def)
  qed
  finally show ?thesis .
qed

text \<open>
  C6. Which compiled rules can be encoded. Rules of fewer than \<open>2\<^sup>2\<^sup>8\<close> instructions that compile for
  the new format are encoded exactly if every comparison has a key on its left, a value on its
  right, and the type of the key, and no string is longer than 255 bytes. The errors about labels
  and jumps cannot occur, and the encoder does not panic.
\<close>

theorem compiled_rules_encode:
  assumes "compile_bind ord rules_str libraries lint disable_autobind True = Ok br"
    and "length (br_instructions br) < 2 ^ 28"
  shows "(\<exists>bytes. encode_to_bytecode (Bind br) = Ok bytes) \<longleftrightarrow>
    list_all inst_ok (sym_code (br_instructions br))
    \<and> (\<forall>s\<in>code_strings (sym_code (br_instructions br)). length s \<le> MAX_STRING_LENGTH)"
  by (rule compiled_encodes [OF assms])

theorem compiled_rules_encode_witness:
  "(\<exists>bytes. encode_to_bytecode (Bind ex_compiled) = Ok bytes) \<longleftrightarrow>
    list_all inst_ok (sym_code (br_instructions ex_compiled))
    \<and> (\<forall>s\<in>code_strings (sym_code (br_instructions ex_compiled)). length s \<le> MAX_STRING_LENGTH)"
  by (rule compiled_rules_encode [OF ex_compiles]) (simp add: ex_compiled_def)

end
