(* ===== verification/Encode_V1_Props.thy ===== *)
theory Encode_V1_Props
  imports Encode_V1
begin

text \<open>The fields of the old bytecode: what a field holds after encoding and decoding.\<close>

section \<open>Bits\<close>

lemma length_set_bits_from [simp]: "length (set_bits_from i n v ws) = length ws"
  by (induction i n v ws rule: set_bits_from.induct) simp_all

lemma bit_one_word [simp]: "bit (1 :: u32) n \<longleftrightarrow> n = 0"
  by (simp add: bit_1_iff)

lemma bit_set_bits_from:
  assumes "k < length ws" and "j < 32"
  shows "bit (set_bits_from i n v ws ! k) j \<longleftrightarrow>
    (if i \<le> 32 * k + j \<and> 32 * k + j < i + n then bit v (32 * k + j - i) else bit (ws ! k) j)"
  using assms
proof (induction i n v ws rule: set_bits_from.induct)
  case (2 i n v ws)
  let ?w = "(ws ! (i div 32) AND NOT (push_bit (i mod 32) 1)) OR push_bit (i mod 32) (v AND 1)"
  have here: "32 * k + j = i \<longleftrightarrow> i div 32 = k \<and> i mod 32 = j"
    using 2(3) by auto
  have "bit (ws[i div 32 := ?w] ! k) j \<longleftrightarrow> (if 32 * k + j = i then bit v 0 else bit (ws ! k) j)"
    using 2(2,3) here by (cases "i div 32 = k") (auto simp: bit_simps)
  moreover have "Suc (32 * k + j - Suc i) = 32 * k + j - i" if "i \<le> 32 * k + j" "32 * k + j \<noteq> i"
    using that by simp
  ultimately show ?case
    using 2 by (cases "i \<le> 32 * k + j"; cases "32 * k + j = i") (auto simp: bit_simps)
qed auto

lemma bit_get_bits_from:
  assumes "n \<le> 32"
  shows "bit (get_bits_from i n ws) m \<longleftrightarrow> m < n \<and> bit (ws ! ((i + m) div 32)) ((i + m) mod 32)"
  using assms
proof (induction i n ws arbitrary: m rule: get_bits_from.induct)
  case (2 i n ws)
  have IH: "bit (get_bits_from (Suc i) n ws) k \<longleftrightarrow> k < n \<and> bit (ws ! ((Suc i + k) div 32)) ((Suc i + k) mod 32)" for k
    using 2 by simp
  show ?case
    unfolding get_bits_from.simps bit_or_iff bit_and_iff bit_push_bit_iff bit_drop_bit_eq IH
  proof (cases m)
    case (Suc k)
    with 2(2) show "(1 \<le> m \<and> possible_bit TYPE(u32) m \<and> m - 1 < n \<and> bit (ws ! ((Suc i + (m - 1)) div 32)) ((Suc i + (m - 1)) mod 32)
      \<or> (bit (ws ! (i div 32)) \<circ> (+) (i mod 32)) m \<and> bit (1 :: u32) m)
      = (m < Suc n \<and> bit (ws ! ((i + m) div 32)) ((i + m) mod 32))"
      by auto
  qed simp
qed simp

lemma bit_bit_range:
  assumes "lsb \<le> msb" and "msb + 1 - lsb \<le> 32"
  shows "bit (bit_range msb lsb ws) m \<longleftrightarrow>
    m < msb + 1 - lsb \<and> bit (ws ! ((lsb + m) div 32)) ((lsb + m) mod 32)"
proof -
  let ?n = "msb + 1 - lsb"
  have "bit (bit_range msb lsb ws) m \<longleftrightarrow> m < ?n \<and> 32 - ?n + m < 32 \<and> bit (get_bits_from lsb ?n ws) m"
    using assms bit_get_bits_from [OF assms(2), of lsb ws m]
    by (auto simp: bit_range_def Let_def bit_drop_bit_eq bit_push_bit_iff)
  then show ?thesis
    using assms bit_get_bits_from [OF assms(2)] by auto
qed

text \<open>Reading the field that was written, and reading another one.\<close>

lemma get_set_same:
  assumes "lsb \<le> msb" and "msb + 1 - lsb \<le> 32" and "msb < 32 * length ws"
  shows "bit_range msb lsb (set_bit_range msb lsb v ws) = take_bit (msb + 1 - lsb) v"
proof (rule bit_word_eqI)
  fix m
  show "bit (bit_range msb lsb (set_bit_range msb lsb v ws)) m = bit (take_bit (msb + 1 - lsb) v) m"
  proof (cases "m < msb + 1 - lsb")
    case True
    then have "(lsb + m) div 32 < length ws" "lsb + m < lsb + (msb + 1 - lsb)" "m < 32"
      using assms by (simp_all add: div_less_iff_less_mult)
    with True assms(1,2) show ?thesis
      by (simp add: bit_bit_range set_bit_range_def bit_set_bits_from bit_simps)
  qed (use assms(1,2) in \<open>simp add: bit_bit_range bit_simps\<close>)
qed

lemma get_set_other:
  assumes "lsb \<le> msb" and "msb + 1 - lsb \<le> 32" and "msb < 32 * length ws" and "lsb' \<le> msb'" and "msb < lsb' \<or> msb' < lsb"
  shows "bit_range msb lsb (set_bit_range msb' lsb' v ws) = bit_range msb lsb ws"
proof (rule bit_word_eqI)
  fix m
  show "bit (bit_range msb lsb (set_bit_range msb' lsb' v ws)) m = bit (bit_range msb lsb ws) m"
  proof (cases "m < msb + 1 - lsb")
    case True
    then have "(lsb + m) div 32 < length ws" "\<not> (lsb' \<le> lsb + m \<and> lsb + m < lsb' + (msb' + 1 - lsb'))"
      using assms by (auto simp: div_less_iff_less_mult)
    with True assms(1,2) show ?thesis
      by (auto simp: bit_bit_range set_bit_range_def bit_set_bits_from)
  qed (use assms(1,2) in \<open>simp add: bit_bit_range\<close>)
qed

lemma length_set_bit_range [simp]: "length (set_bit_range msb lsb v ws) = length ws"
  by (simp add: set_bit_range_def)

lemmas field_defs =
  condition_field_def operation_field_def parameter_a_def parameter_b_def value_field_def line_field_def
  ast_location_field_def extra_field_def set_condition_def set_operation_def set_parameter_a_def
  set_parameter_b_def set_value_def set_line_def set_ast_location_def set_extra_def

section \<open>Fields of an instruction\<close>

definition fields_of :: "RawInstruction \<Rightarrow> InstructionInfo \<Rightarrow> bool" where
  "fields_of raw info \<longleftrightarrow>
     length raw = 3
     \<and> (\<exists>a b. raw_fields (ii_instruction info) = Ok (condition_field raw, operation_field raw, a, b, value_field raw)
          \<and> parameter_a raw = take_bit 8 a \<and> parameter_b raw = take_bit 16 b)
     \<and> line_field raw = take_bit 8 (dbg_line (ii_debug info))
     \<and> ast_location_field raw = raw_ast_location (dbg_ast_location (ii_debug info))
     \<and> extra_field raw = take_bit 16 (dbg_extra (ii_debug info))"

lemma raw_fields_small:
  assumes "raw_fields i = Ok (c, o', a, b, v)"
  shows "take_bit 4 c = c" and "take_bit 4 o' = o'"
proof -
  have "c \<in> {0, 1, 2}" if "encode_condition k = Ok (c, b, v)" for k
    using that by (cases k) (auto simp: result_simps)
  with assms have "c \<in> {0, 1, 2}" "o' \<in> {0, 1, 2, 5}"
    by (cases i; fastforce simp: result_simps)+
  then show "take_bit 4 c = c" "take_bit 4 o' = o'"
    by (auto simp: take_bit_eq_mod)
qed

lemma raw_ast_location_small [simp]: "take_bit 8 (raw_ast_location l) = raw_ast_location l"
  by (cases l) (simp_all add: take_bit_eq_mod)

lemma take_bit_word_full [simp]: "take_bit 32 (w :: u32) = w"
  by (rule bit_word_eqI) (simp add: bit_take_bit_iff)

lemma encode_instruction_fields:
  assumes "encode_instruction info = Ok raw"
  shows "fields_of raw info"
proof -
  from assms obtain c o' a b v where f: "raw_fields (ii_instruction info) = Ok (c, o', a, b, v)"
    and raw: "raw = set_extra (dbg_extra (ii_debug info)) (set_ast_location (raw_ast_location (dbg_ast_location (ii_debug info)))
      (set_line (dbg_line (ii_debug info)) (set_value v (set_parameter_b b (set_parameter_a a
        (set_operation o' (set_condition c [0, 0, 0])))))))"
    by (auto simp: encode_instruction_def to_raw_instruction_def result_simps Let_def)
  show ?thesis
    unfolding fields_of_def f raw field_defs
    by (simp add: get_set_same get_set_other raw_fields_small [OF f])
qed

section \<open>Bytes\<close>

lemma read_raws_bytes:
  assumes "list_all (\<lambda>raw. length raw = 3) raws"
  shows "read_raws (concat (map raw_bytes raws)) = raws \<and> length (concat (map raw_bytes raws)) mod 12 = 0"
  using assms
proof (induction raws)
  case (Cons raw raws)
  then obtain x y z where raw: "raw = [x, y, z]"
    by (auto simp: length_Suc_conv numeral_3_eq_3)
  let ?rest = "concat (map raw_bytes raws)"
  obtain b bs where b: "to_le_bytes x @ to_le_bytes y @ to_le_bytes z @ ?rest = b # bs"
    by (cases "to_le_bytes x @ to_le_bytes y @ to_le_bytes z @ ?rest") auto
  have "read_raws (to_le_bytes x @ to_le_bytes y @ to_le_bytes z @ ?rest) = [x, y, z] # read_raws ?rest"
    unfolding b read_raws.simps by (simp flip: b)
  with Cons raw show ?case by simp
qed simp

text \<open>
  C20. Round trip of the old bytecode. The bytes of encoded rules decode to one raw instruction per
  instruction, and the fields of each hold what was encoded: condition, operation, value and the
  kind of location exactly, the label and the line modulo 256, the key and the extra word modulo 65536.
\<close>

theorem encode_decode_v1:
  assumes "encode_to_bytecode_v1 rules = Ok bytes"
  shows "\<exists>raws. decode_from_bytecode_v1 bytes = Ok raws
    \<and> list_all2 (\<lambda>raw inst. fields_of raw (to_instruction_info inst)) raws (br_instructions rules)"
proof -
  from assms obtain raws where raws: "bytes = concat (map raw_bytes raws)"
    "list_all2 (\<lambda>inst raw. encode_instruction (to_instruction_info inst) = Ok raw) (br_instructions rules) raws"
    by (auto simp: encode_to_bytecode_v1_def result_simps collect_results_Ok)
  have "list_all2 (\<lambda>raw inst. fields_of raw (to_instruction_info inst)) raws (br_instructions rules)"
    using raws(2) by (auto simp: list_all2_conv_all_nth intro: encode_instruction_fields)
  moreover from this have "list_all (\<lambda>raw. length raw = 3) raws"
    by (auto simp: list_all2_conv_all_nth list_all_length fields_of_def)
  ultimately show ?thesis
    using read_raws_bytes by (auto simp: raws(1) decode_from_bytecode_v1_def)
qed

definition ex_rules_v1 :: BindRules where
  "ex_rules_v1 =
     \<lparr>br_symbol_table = Map.empty,
      br_instructions =
        [\<lparr>si_location = None, si_instruction = JumpIfEqual (DeprecatedKey 0x10001) (NumberValue 7) 0x105\<rparr>],
      br_use_new_bytecode = False\<rparr>"

theorem encode_decode_v1_witness:
  "\<exists>bytes raws. encode_to_bytecode_v1 ex_rules_v1 = Ok bytes \<and> decode_from_bytecode_v1 bytes = Ok raws
     \<and> list_all2 (\<lambda>raw inst. fields_of raw (to_instruction_info inst)) raws (br_instructions ex_rules_v1)"
proof -
  obtain bytes where "encode_to_bytecode_v1 ex_rules_v1 = Ok bytes"
    by (simp add: encode_to_bytecode_v1_def ex_rules_v1_def encode_instruction_def to_raw_instruction_def
        to_instruction_info_def try_from_u64_def Let_def)
  with encode_decode_v1 [OF this] show ?thesis by blast
qed

end
