(* ===== verification/V1_Debugger_Sim.thy ===== *)
theory V1_Debugger_Sim
  imports V1_Debugger Encode_V1_Props Symbolic_Machine Compiler_Total
begin

text \<open>
  The debugger of the old bytecode decides what the rules mean, for code whose labels and keys fit
  their fields.
\<close>

section \<open>What the decision depends on\<close>

definition decision :: "(DeviceProperty set option \<times> Debugger, DebuggerError) result \<Rightarrow> (bool, DebuggerError) result" where
  "decision r = and_then r (\<lambda>(m, _). Ok (m \<noteq> None))"

definition of_device :: "DevicePropertyMap \<Rightarrow> Debugger \<Rightarrow> bool" where
  "of_device m d \<longleftrightarrow> dbg_properties d = m \<and> dbg_identifiers d = get_deprecated_key_identifiers"

lemma of_device_push [simp]: "of_device m (fold push_output xs d) \<longleftrightarrow> of_device m d"
  by (induction xs arbitrary: d) (simp_all add: of_device_def push_output_def)

lemma of_device_push_one [simp]: "of_device m (push_output x d) \<longleftrightarrow> of_device m d"
  using of_device_push [of m "[x]" d] by simp

lemma of_device_print [simp]: "of_device m (print_line s d) \<longleftrightarrow> of_device m d"
  by (simp add: of_device_def print_line_def)

text \<open>The value of a key, with the defaults of a missing property.\<close>

definition device_value :: "DevicePropertyMap \<Rightarrow> u32 \<Rightarrow> (u32, DebuggerError) result" where
  "device_value m key =
     (case m key of
        Some v \<Rightarrow> Ok v
      | None \<Rightarrow>
          if key = BIND_PROTOCOL then Err DbMissingBindProtocol
          else if key = BIND_AUTOBIND \<or> get_deprecated_key_identifiers key \<noteq> None then Ok 0
          else Err (DbInvalidDeprecatedKey key))"

lemma get_device_property_value:
  assumes "of_device m d"
  shows "device_value m key = Ok v \<Longrightarrow> \<exists>d'. get_device_property d key = Ok (\<lparr>dp_key = key, dp_value = v\<rparr>, d') \<and> of_device m d'"
    and "device_value m key = Err e \<Longrightarrow> get_device_property d key = Err e"
  using assms
  by (auto simp: device_value_def get_device_property_def key_string_def split: option.splits if_splits)
    (auto simp: of_device_def)

lemma device_value_no_panic [simp]: "device_value m key \<noteq> Panic"
  by (simp add: device_value_def split: option.split)

definition debug_equal :: "DevicePropertyMap \<Rightarrow> DebuggerError comparison" where
  "debug_equal m l r =
     (case (encode_symbol l, encode_symbol r) of
        (Ok k, Ok v) \<Rightarrow>
          if k = BIND_FLAGS then Err DbBindFlagsNotSupported
          else and_then (device_value m k) (\<lambda>w. Ok (w = v))
      | _ \<Rightarrow> Ok False)"

section \<open>Code in raw form\<close>

definition raw_of :: "SymbolicInstructionInfo \<Rightarrow> RawInstruction" where
  "raw_of i = (case encode_instruction (to_instruction_info i) of Ok raw \<Rightarrow> raw | _ \<Rightarrow> [])"

fun fields_fit :: "SymbolicInstruction \<Rightarrow> bool" where
  "fields_fit (AbortIfEqual l r) = (\<forall>k. encode_symbol l = Ok k \<longrightarrow> k < 0x10000)"
| "fields_fit (AbortIfNotEqual l r) = (\<forall>k. encode_symbol l = Ok k \<longrightarrow> k < 0x10000)"
| "fields_fit (SymLabel n) = (n < 0x100)"
| "fields_fit (UnconditionalJump n) = (n < 0x100)"
| "fields_fit (JumpIfEqual l r n) = ((\<forall>k. encode_symbol l = Ok k \<longrightarrow> k < 0x10000) \<and> n < 0x100)"
| "fields_fit (JumpIfNotEqual l r n) = ((\<forall>k. encode_symbol l = Ok k \<longrightarrow> k < 0x10000) \<and> n < 0x100)"
| "fields_fit _ = True"

definition v1_inst_ok :: "SymbolicInstructionInfo \<Rightarrow> bool" where
  "v1_inst_ok i \<longleftrightarrow>
     (\<exists>raw. encode_instruction (to_instruction_info i) = Ok raw) \<and> fields_fit (si_instruction i)
     \<and> (well_located i \<or> i = bind_inst)"

definition v1_code :: "SymbolicInstructionInfo list \<Rightarrow> bool" where
  "v1_code is \<longleftrightarrow> list_all v1_inst_ok is \<and> jumps_forward (sym_code is)"

lemma raw_of_fields: "v1_inst_ok i \<Longrightarrow> fields_of (raw_of i) (to_instruction_info i)"
  by (auto simp: v1_inst_ok_def raw_of_def intro: encode_instruction_fields)

lemma take_bit_small:
  "(x :: u32) < 0x100 \<Longrightarrow> take_bit 8 x = x"
  "(x :: u32) < 0x10000 \<Longrightarrow> take_bit 16 x = x"
  unfolding word_unat_eq_iff unsigned_take_bit_eq word_less_nat_alt by (simp_all add: take_bit_eq_mod)

text \<open>The fields of each kind of instruction.\<close>

lemma raw_codes [simp]:
  "raw_condition_of (raw_condition c) = Some c"
  "raw_op_v1_of (raw_op_v1 o') = Some o'"
  "raw_ast_location_of (raw_ast_location l) = Some l"
  by (cases c; cases o'; cases l; simp add: raw_condition_of_def raw_op_v1_of_def raw_ast_location_of_def)+

definition raw_is :: "RawOpV1 \<Rightarrow> RawCondition \<Rightarrow> u32 \<Rightarrow> u32 \<Rightarrow> u32 \<Rightarrow> SymbolicInstructionInfo \<Rightarrow> bool" where
  "raw_is o' c a b v i \<longleftrightarrow>
     raw_op_v1_of (operation_field (raw_of i)) = Some o' \<and> raw_condition_of (condition_field (raw_of i)) = Some c
     \<and> parameter_a (raw_of i) = a \<and> parameter_b (raw_of i) = b \<and> value_field (raw_of i) = v
     \<and> raw_ast_location_of (ast_location_field (raw_of i)) =
         Some (case si_location i of Some l \<Rightarrow> dbg_ast_location (to_instruction_debug l) | None \<Rightarrow> AlInvalid)"

lemma raw_is_intro:
  assumes "v1_inst_ok i" and "raw_fields (to_instruction (si_instruction i)) = Ok (raw_condition c, raw_op_v1 o', a, b, v)"
    and "a < 0x100" and "b < 0x10000"
  shows "raw_is o' c a b v i"
  using raw_of_fields [OF assms(1)] assms(2-)
  by (auto simp: raw_is_def fields_of_def take_bit_small to_instruction_info_def debug_none_def
      simp del: raw_condition.simps raw_op_v1.simps raw_ast_location.simps split: option.splits
      dest!: sym [of "raw_condition c"] sym [of "raw_op_v1 o'"])

lemma raw_of_condition:
  assumes "v1_inst_ok i"
  shows "si_instruction i = AbortIfEqual l r \<Longrightarrow> \<exists>k v. encode_symbol l = Ok k \<and> encode_symbol r = Ok v \<and> raw_is OpAbort CondEqual 0 k v i"
    and "si_instruction i = AbortIfNotEqual l r \<Longrightarrow> \<exists>k v. encode_symbol l = Ok k \<and> encode_symbol r = Ok v \<and> raw_is OpAbort CondNotEqual 0 k v i"
    and "si_instruction i = JumpIfEqual l r n \<Longrightarrow> \<exists>k v. encode_symbol l = Ok k \<and> encode_symbol r = Ok v \<and> raw_is OpGoto CondEqual n k v i"
    and "si_instruction i = JumpIfNotEqual l r n \<Longrightarrow> \<exists>k v. encode_symbol l = Ok k \<and> encode_symbol r = Ok v \<and> raw_is OpGoto CondNotEqual n k v i"
  using assms raw_is_intro [OF assms]
  by (auto simp: v1_inst_ok_def encode_instruction_def to_raw_instruction_def result_simps)

lemma raw_of_plain:
  assumes "v1_inst_ok i"
  shows "si_instruction i = SymLabel n \<Longrightarrow> raw_is OpLabel CondAlways n 0 0 i"
    and "si_instruction i = UnconditionalJump n \<Longrightarrow> raw_is OpGoto CondAlways n 0 0 i"
    and "si_instruction i = UnconditionalAbort \<Longrightarrow> raw_is OpAbort CondAlways 0 0 0 i"
    and "si_instruction i = UnconditionalBind \<Longrightarrow> raw_is OpMatch CondAlways 0 0 0 i"
  using assms raw_is_intro [OF assms] by (auto simp: v1_inst_ok_def)

lemma raw_is_op:
  assumes "v1_inst_ok i"
  shows "raw_op_v1_of (operation_field (raw_of i)) = Some OpLabel \<and> parameter_a (raw_of i) = n \<longleftrightarrow> si_instruction i = SymLabel n"
  using raw_of_plain [OF assms] raw_of_condition [OF assms]
  by (cases "si_instruction i") (auto simp: raw_is_def)

section \<open>Steps\<close>

lemma output_ok:
  assumes i: "v1_inst_ok i" and d: "of_device m d"
  shows "\<exists>d'. output_instruction (raw_of i) b d = Ok d' \<and> of_device m d'"
  using raw_of_plain [OF i] raw_of_condition [OF i] i d
  by (cases "si_instruction i")
    (auto simp: raw_is_def output_instruction_def output_of_def v1_inst_ok_def bind_inst_def)

lemma evaluate_condition_step:
  assumes "raw_is o' c a b v i" and "c \<noteq> CondAlways" and "of_device m d"
  shows "device_value m b = Err e \<Longrightarrow> b \<noteq> BIND_FLAGS \<Longrightarrow> evaluate_condition c (raw_of i) M d = Err e"
    and "b = BIND_FLAGS \<Longrightarrow> evaluate_condition c (raw_of i) M d = Err DbBindFlagsNotSupported"
    and "device_value m b = Ok w \<Longrightarrow> b \<noteq> BIND_FLAGS \<Longrightarrow>
      \<exists>M' d'. evaluate_condition c (raw_of i) M d = Ok ((c = CondEqual) = (w = v), M', d') \<and> of_device m d'"
  using assms get_device_property_value [OF assms(3)]
  by (auto simp: evaluate_condition_def raw_is_def Let_def) fastforce+

definition v1_run :: "Debugger \<Rightarrow> DeviceProperty set \<Rightarrow> SymbolicInstructionInfo list \<Rightarrow> (bool, DebuggerError) result" where
  "v1_run d M is = decision (evaluate_bind_rules (map raw_of (is @ [bind_inst])) M d)"

text \<open>A step on a comparison: where execution goes on when the condition holds and when it does not.\<close>

lemma comparison_step:
  assumes i: "v1_inst_ok i" "raw_is o' c a k v i" "c \<noteq> CondAlways" and d: "of_device m d"
    and enc: "encode_symbol l = Ok k" "encode_symbol r = Ok v"
  shows "\<exists>d' M'. of_device m d' \<and>
    v1_run d M (i # is) = and_then (debug_equal m l r) (\<lambda>b.
      if (c = CondEqual) = b
      then (case o' of OpAbort \<Rightarrow> Ok False | OpMatch \<Rightarrow> Ok True
            | OpGoto \<Rightarrow> decision (and_then (skip_to_label a (map raw_of (is @ [bind_inst]))) (\<lambda>rest. evaluate_bind_rules rest M' d'))
            | OpLabel \<Rightarrow> v1_run d' M' is)
      else v1_run d' M' is)"
proof (cases "k = BIND_FLAGS")
  case True
  with evaluate_condition_step(2) [OF i(2,3) d] i(2) d enc show ?thesis
    by (auto simp: v1_run_def decision_def raw_is_def debug_equal_def)
next
  case False
  show ?thesis
  proof (cases "device_value m k")
    case (Ok w)
    from evaluate_condition_step(3) [OF i(2,3) d Ok False] obtain M' d1 where
      e: "evaluate_condition c (raw_of i) M d = Ok ((c = CondEqual) = (w = v), M', d1)" "of_device m d1" by blast
    from output_ok [OF i(1) e(2)] obtain d2 where
      out: "output_instruction (raw_of i) ((c = CondEqual) = (w = v)) d1 = Ok d2" "of_device m d2" by blast
    have "debug_equal m l r = Ok (w = v)"
      by (simp add: debug_equal_def enc False Ok)
    with i(2) e out show ?thesis
      by (intro exI [of _ d2] exI [of _ M'])
        (auto simp: v1_run_def decision_def raw_is_def split: RawOpV1.split)
  next
    case (Err e)
    with evaluate_condition_step(1) [OF i(2,3) d Err False] i(2) d enc False show ?thesis
      by (auto simp: v1_run_def decision_def raw_is_def debug_equal_def)
  qed simp
qed

lemma plain_raw_step:
  assumes i: "v1_inst_ok i" "raw_is o' CondAlways a b v i" and d: "of_device m d"
  shows "\<exists>d'. of_device m d' \<and>
    decision (evaluate_bind_rules (raw_of i # raws) M d) =
      (case o' of OpAbort \<Rightarrow> Ok False | OpMatch \<Rightarrow> Ok True
       | OpGoto \<Rightarrow> decision (and_then (skip_to_label a raws) (\<lambda>rest. evaluate_bind_rules rest M d'))
       | OpLabel \<Rightarrow> decision (evaluate_bind_rules raws M d'))"
proof -
  from output_ok [OF i(1) d] obtain d' where "output_instruction (raw_of i) True d = Ok d'" "of_device m d'" by blast
  with i(2) show ?thesis
    by (intro exI [of _ d']) (auto simp: decision_def raw_is_def evaluate_condition_def split: RawOpV1.split)
qed

lemma plain_step:
  assumes "v1_inst_ok i" "raw_is o' CondAlways a b v i" "of_device m d"
  shows "\<exists>d'. of_device m d' \<and>
    v1_run d M (i # is) =
      (case o' of OpAbort \<Rightarrow> Ok False | OpMatch \<Rightarrow> Ok True
       | OpGoto \<Rightarrow> decision (and_then (skip_to_label a (map raw_of (is @ [bind_inst]))) (\<lambda>rest. evaluate_bind_rules rest M d'))
       | OpLabel \<Rightarrow> v1_run d' M is)"
  using plain_raw_step [OF assms, of "map raw_of (is @ [bind_inst])" M]
  by (simp only: v1_run_def append.simps list.map)

lemma skip_to_label_code:
  assumes "list_all v1_inst_ok is" and "skip_label si_instruction n is = Some js"
  shows "skip_to_label n (map raw_of (is @ [bind_inst])) = Ok (map raw_of (js @ [bind_inst]))"
  using assms
proof (induction "is")
  case (Cons i "is")
  then show ?case
    using raw_is_op [of i n] by (auto split: if_splits)
qed simp

lemma v1_jump:
  assumes "list_all v1_inst_ok is" and "n \<in> set (labels_of (sym_code is))"
  obtains js where "skip_label si_instruction n is = Some js"
    and "\<And>M d. decision (and_then (skip_to_label n (map raw_of (is @ [bind_inst]))) (\<lambda>rest. evaluate_bind_rules rest M d)) = v1_run d M js"
proof -
  from assms(2) obtain js where "skip_label si_instruction n is = Some js"
    using skip_label_exists by blast
  with skip_to_label_code [OF assms(1) this] show thesis
    by (intro that) (simp_all add: v1_run_def)
qed

lemma v1_run_end:
  assumes "of_device m d"
  shows "v1_run d M [] = Ok True"
proof -
  have "v1_inst_ok bind_inst"
    by (simp add: v1_inst_ok_def bind_inst_def encode_instruction_def to_raw_instruction_def to_instruction_info_def Let_def)
  from plain_raw_step [OF this raw_of_plain(4) [OF this] assms, of "[]" M] show ?thesis
    by (auto simp: v1_run_def bind_inst_def)
qed

lemma v1_code_Cons:
  assumes "v1_code (i # is)"
  shows "v1_inst_ok i" and "list_all v1_inst_ok is" and "v1_code is"
    and "si_instruction i = UnconditionalJump n \<Longrightarrow> n \<in> set (labels_of (sym_code is))"
    and "si_instruction i = JumpIfEqual l r n \<Longrightarrow> n \<in> set (labels_of (sym_code is))"
    and "si_instruction i = JumpIfNotEqual l r n \<Longrightarrow> n \<in> set (labels_of (sym_code is))"
  using assms by (cases "si_instruction i"; auto simp: v1_code_def)+

text \<open>A comparison, with what follows when the sides are equal and when they are not.\<close>

lemma v1_abort_if:
  assumes d: "of_device m d" and c: "v1_code (i # is)"
  shows "si_instruction i = AbortIfEqual l r \<Longrightarrow>
      \<exists>d' M'. of_device m d' \<and> v1_run d M (i # is) = and_then (debug_equal m l r) (\<lambda>b. if b then Ok False else v1_run d' M' is)"
      (is "?P \<Longrightarrow> ?Q")
    and "si_instruction i = AbortIfNotEqual l r \<Longrightarrow>
      \<exists>d' M'. of_device m d' \<and> v1_run d M (i # is) = and_then (debug_equal m l r) (\<lambda>b. if b then v1_run d' M' is else Ok False)"
      (is "?P' \<Longrightarrow> ?Q'")
proof -
  assume ?P
  from raw_of_condition(1) [OF v1_code_Cons(1) [OF c] this] obtain k v where
    e: "encode_symbol l = Ok k" "encode_symbol r = Ok v" "raw_is OpAbort CondEqual 0 k v i" by blast
  from comparison_step [OF v1_code_Cons(1) [OF c] e(3) _ d e(1,2), of M "is"] show ?Q
    by (simp cong: if_cong)
next
  assume ?P'
  from raw_of_condition(2) [OF v1_code_Cons(1) [OF c] this] obtain k v where
    e: "encode_symbol l = Ok k" "encode_symbol r = Ok v" "raw_is OpAbort CondNotEqual 0 k v i" by blast
  from comparison_step [OF v1_code_Cons(1) [OF c] e(3) _ d e(1,2), of M "is"] show ?Q'
    by (simp add: if_swap cong: if_cong)
qed

lemma v1_jump_if:
  assumes d: "of_device m d" and c: "v1_code (i # is)"
  shows "si_instruction i = JumpIfEqual l r n \<Longrightarrow>
      \<exists>js d' M'. skip_label si_instruction n is = Some js \<and> of_device m d' \<and>
        v1_run d M (i # is) = and_then (debug_equal m l r) (\<lambda>b. if b then v1_run d' M' js else v1_run d' M' is)"
      (is "?P \<Longrightarrow> ?Q")
    and "si_instruction i = JumpIfNotEqual l r n \<Longrightarrow>
      \<exists>js d' M'. skip_label si_instruction n is = Some js \<and> of_device m d' \<and>
        v1_run d M (i # is) = and_then (debug_equal m l r) (\<lambda>b. if b then v1_run d' M' is else v1_run d' M' js)"
      (is "?P' \<Longrightarrow> ?Q'")
proof -
  assume i: ?P
  from raw_of_condition(3) [OF v1_code_Cons(1) [OF c] this] obtain k v where
    e: "encode_symbol l = Ok k" "encode_symbol r = Ok v" "raw_is OpGoto CondEqual n k v i" by blast
  from v1_jump [OF v1_code_Cons(2) [OF c] v1_code_Cons(5) [OF c i]] comparison_step [OF v1_code_Cons(1) [OF c] e(3) _ d e(1,2), of M "is"]
  show ?Q by (simp cong: if_cong) metis
next
  assume i: ?P'
  from raw_of_condition(4) [OF v1_code_Cons(1) [OF c] this] obtain k v where
    e: "encode_symbol l = Ok k" "encode_symbol r = Ok v" "raw_is OpGoto CondNotEqual n k v i" by blast
  from v1_jump [OF v1_code_Cons(2) [OF c] v1_code_Cons(6) [OF c i]] comparison_step [OF v1_code_Cons(1) [OF c] e(3) _ d e(1,2), of M "is"]
  show ?Q' by (simp add: if_swap cong: if_cong) metis
qed

interpretation v1: located_machine "si_instruction :: SymbolicInstructionInfo \<Rightarrow> _" "debug_equal m"
  "\<lambda>(d, M). v1_run d M" v1_code "\<lambda>(d, M). of_device m d" for m
proof (unfold_locales, goal_cases)
  case (5 s i "is" n)
  then show ?case using plain_step [OF v1_code_Cons(1) raw_of_plain(1) [OF v1_code_Cons(1)]] by fastforce
next
  case (6 s i "is" n)
  then obtain d M where s: "s = (d, M)" "of_device m d" by (cases s) auto
  from 6(2,3) obtain js where js: "skip_label si_instruction n is = Some js"
    "\<And>M d. decision (and_then (skip_to_label n (map raw_of (is @ [bind_inst]))) (\<lambda>rest. evaluate_bind_rules rest M d)) = v1_run d M js"
    using v1_jump v1_code_Cons(2,4) by metis
  from plain_step [OF v1_code_Cons(1) [OF 6(2)] raw_of_plain(2) [OF v1_code_Cons(1) [OF 6(2)] 6(3)] s(2), of M "is"]
  show ?case using s js by simp metis
next
  case (3 s i "is" l r)
  then obtain d M where "s = (d, M)" "of_device m d" by (cases s) auto
  with v1_abort_if(1) [OF this(2) 3(2,3), of M] show ?case by auto
next
  case (4 s i "is" l r)
  then obtain d M where "s = (d, M)" "of_device m d" by (cases s) auto
  with v1_abort_if(2) [OF this(2) 4(2,3), of M] show ?case by auto
next
  case (7 s i "is" l r n)
  then obtain d M where s: "s = (d, M)" "of_device m d" by (cases s) auto
  from v1_jump_if(1) [OF s(2) 7(2,3), of M] obtain js d' M' where
    "skip_label si_instruction n is = Some js" "of_device m d'" and
    run: "v1_run d M (i # is) = and_then (debug_equal m l r)
      (\<lambda>b. if b then v1_run d' M' js else v1_run d' M' is)" by blast
  then show ?case
    by (intro exI [of _ js] exI [of _ "(d', M')"]) (simp add: s run cong: if_cong)
next
  case (8 s i "is" l r n)
  then obtain d M where s: "s = (d, M)" "of_device m d" by (cases s) auto
  from v1_jump_if(2) [OF s(2) 8(2,3), of M] obtain js d' M' where
    "skip_label si_instruction n is = Some js" "of_device m d'" and
    run: "v1_run d M (i # is) = and_then (debug_equal m l r)
      (\<lambda>b. if b then v1_run d' M' is else v1_run d' M' js)" by blast
  then show ?case
    by (intro exI [of _ js] exI [of _ "(d', M')"]) (simp add: s run cong: if_cong)
next
  case (9 s i "is")
  then show ?case using plain_step [OF v1_code_Cons(1) raw_of_plain(3) [OF v1_code_Cons(1)]] by fastforce
next
  case (10 s i "is")
  then show ?case using plain_step [OF v1_code_Cons(1) raw_of_plain(4) [OF v1_code_Cons(1)]] by fastforce
qed (auto simp: v1_run_end dest: v1_code_Cons(3))

section \<open>Explanations\<close>

text \<open>What the log relies on: the known keys, and no statement reported with the condition \<open>Always\<close>.\<close>

fun logged_condition :: "DebuggerOutput \<Rightarrow> bool" where
  "logged_condition (DoConditionStatement _ c _ _) = (c \<noteq> CondAlways)"
| "logged_condition (DoIfCondition _ c _ _) = (c \<noteq> CondAlways)"
| "logged_condition _ = True"

definition log_ready :: "Debugger \<Rightarrow> bool" where
  "log_ready d \<longleftrightarrow> dbg_identifiers d = get_deprecated_key_identifiers \<and> list_all logged_condition (dbg_output d)"

lemma log_ready_print [simp]: "log_ready (print_line s d) = log_ready d"
  by (simp add: log_ready_def print_line_def)

lemma log_ready_push [simp]: "log_ready (fold push_output xs d) \<longleftrightarrow> log_ready d \<and> list_all logged_condition xs"
  by (induction xs arbitrary: d) (auto simp: log_ready_def push_output_def)

lemma output_of_logged: "output_of o' c l i b = Ok xs \<Longrightarrow> list_all logged_condition xs"
  by (cases o'; cases c; cases l) (auto simp: output_of_def split: if_splits)

lemma output_instruction_ready: "output_instruction i b d = Ok d' \<Longrightarrow> log_ready d \<Longrightarrow> log_ready d'"
  by (auto simp: output_instruction_def result_simps intro: output_of_logged)

lemma evaluate_condition_ready: "evaluate_condition c i M d = Ok (b, M', d') \<Longrightarrow> log_ready d \<Longrightarrow> log_ready d'"
  by (auto simp: evaluate_condition_def get_device_property_def Let_def result_simps split: if_splits option.splits)

text \<open>The execution of an instruction: what comes before the choice of the next one, and that choice.\<close>

definition evaluate_step ::
    "RawInstruction \<Rightarrow> DeviceProperty set \<Rightarrow> Debugger
     \<Rightarrow> (bool \<times> RawOpV1 \<times> DeviceProperty set \<times> Debugger, DebuggerError) result" where
  "evaluate_step i M d =
     and_then (ok_or (raw_condition_of (condition_field i)) (DbInvalidCondition (condition_field i))) (\<lambda>c.
     and_then (ok_or (raw_op_v1_of (operation_field i)) (DbInvalidOperation (operation_field i))) (\<lambda>o'.
     and_then (evaluate_condition c i M d) (\<lambda>(b, M, d).
     and_then (output_instruction i b d) (\<lambda>d. Ok (b, o', M, d)))))"

lemma evaluate_bind_rules_step:
  "evaluate_bind_rules (i # is) M d =
     and_then (evaluate_step i M d) (\<lambda>(b, o', M, d).
       if \<not> b then evaluate_bind_rules is M d
       else case o' of OpAbort \<Rightarrow> Ok (None, d) | OpMatch \<Rightarrow> Ok (Some M, d)
         | OpGoto \<Rightarrow> and_then (skip_to_label (parameter_a i) is) (\<lambda>rest. evaluate_bind_rules rest M d)
         | OpLabel \<Rightarrow> evaluate_bind_rules is M d)"
  by (simp add: evaluate_step_def and_then_def split: result.split)

lemma evaluate_step_ready: "evaluate_step i M d = Ok (b, o', M', d') \<Longrightarrow> log_ready d \<Longrightarrow> log_ready d'"
  by (auto simp: evaluate_step_def result_simps dest!: output_instruction_ready evaluate_condition_ready)

lemma evaluate_bind_rules_ready:
  "evaluate_bind_rules raws M d = Ok (r, d') \<Longrightarrow> log_ready d \<Longrightarrow> log_ready d'"
proof (induction raws arbitrary: M d rule: length_induct)
  case (1 raws)
  show ?case
  proof (cases raws)
    case (Cons i "is")
    with 1 show ?thesis
      by (auto simp: evaluate_bind_rules_step result_simps simp del: evaluate_bind_rules.simps
          split: if_splits RawOpV1.splits dest!: evaluate_step_ready less_SucI [OF length_skip_to_label])
  qed (use 1 in simp)
qed

lemma key_string_Err:
  "log_ready d \<Longrightarrow> key_string d k = Err e \<Longrightarrow> e = DbInvalidDeprecatedKey k \<and> get_deprecated_key_identifiers k = None"
  by (auto simp: key_string_def log_ready_def split: option.splits)

lemma key_string_no_panic [simp]: "key_string d k \<noteq> Panic"
  by (simp add: key_string_def split: option.split)

lemma log_one_Err:
  assumes "log_ready d" and "logged_condition x" 
  shows "log_one d x \<noteq> Panic"
    and "log_one d x = Err e \<Longrightarrow> \<exists>k. e = DbInvalidDeprecatedKey k \<and> get_deprecated_key_identifiers k = None"
proof -
  note defs = log_condition_statement_def log_if_condition_def log_outcome_def actual_value_string_def
    log_accept_statement_success_def log_accept_statement_failure_def result_simps
  have *: "condition_needs_actual_value s c \<noteq> Panic \<and> (c \<noteq> CondAlways \<longrightarrow> condition_needs_actual_value s c \<noteq> Err e)" for s c e
    by (cases c) auto
  show "log_one d x \<noteq> Panic"
    using assms * by (cases x) (auto simp: defs split: if_splits)
  show "log_one d x = Err e \<Longrightarrow> \<exists>k. e = DbInvalidDeprecatedKey k \<and> get_deprecated_key_identifiers k = None"
    using assms * by (cases x) (auto simp: defs split: if_splits dest: key_string_Err)
qed

lemma evaluate_step_no_panic: "evaluate_step i M d \<noteq> Panic"
proof -
  have "output_instruction i b d \<noteq> Panic" for b d
    by (auto simp: output_instruction_def output_of_def result_simps
        split: RawOpV1.split RawCondition.split RawAstLocation.split)
  moreover have "evaluate_condition c i M d \<noteq> Panic" for c d
    by (simp add: evaluate_condition_def get_device_property_def Let_def result_simps split: option.split)
  ultimately show ?thesis
    by (simp add: evaluate_step_def result_simps)
qed

lemma evaluate_bind_rules_no_panic: "evaluate_bind_rules raws M d \<noteq> Panic"
proof (induction raws arbitrary: M d rule: length_induct)
  case (1 raws)
  have "skip_to_label n js \<noteq> Panic" for n js
    by (induction n js rule: skip_to_label.induct) auto
  with 1 show ?case
    by (cases raws) (auto simp: evaluate_bind_rules_step result_simps evaluate_step_no_panic
        simp del: evaluate_bind_rules.simps(2) split: if_splits RawOpV1.splits dest!: length_skip_to_label)
qed

lemma log_output_ready:
  assumes "log_ready d"
  shows "log_output d \<noteq> Panic"
    and "log_output d = Err e \<Longrightarrow> \<exists>k. e = DbInvalidDeprecatedKey k \<and> get_deprecated_key_identifiers k = None"
proof -
  have "list_all logged_condition xs \<Longrightarrow> collect_results (log_one d) xs \<noteq> Panic \<and>
    (\<forall>e. collect_results (log_one d) xs = Err e \<longrightarrow>
      (\<exists>k. e = DbInvalidDeprecatedKey k \<and> get_deprecated_key_identifiers k = None))" for xs
    by (induction xs) (auto simp: result_simps log_one_Err(1) [OF assms] dest: log_one_Err(2) [OF assms])
  moreover have "list_all logged_condition (dbg_output d)"
    using assms by (simp add: log_ready_def)
  ultimately have "collect_results (log_one d) (dbg_output d) \<noteq> Panic \<and>
    (\<forall>e. collect_results (log_one d) (dbg_output d) = Err e \<longrightarrow>
      (\<exists>k. e = DbInvalidDeprecatedKey k \<and> get_deprecated_key_identifiers k = None))"
    by blast
  then show "log_output d \<noteq> Panic"
    and "log_output d = Err e \<Longrightarrow> \<exists>k. e = DbInvalidDeprecatedKey k \<and> get_deprecated_key_identifiers k = None"
    by (auto simp: log_output_def result_simps)
qed

section \<open>The debugger on compiled rules\<close>

lemma decode_raw_of:
  assumes "encode_to_bytecode_v1 rules = Ok bytes"
  shows "decode_from_bytecode_v1 bytes = Ok (map raw_of (br_instructions rules))"
    and "i \<in> set (br_instructions rules) \<Longrightarrow> \<exists>raw. encode_instruction (to_instruction_info i) = Ok raw"
proof -
  from assms obtain raws where raws: "bytes = concat (map raw_bytes raws)"
    "list_all2 (\<lambda>inst raw. encode_instruction (to_instruction_info inst) = Ok raw) (br_instructions rules) raws"
    by (auto simp: encode_to_bytecode_v1_def result_simps collect_results_Ok)
  then have "raws = map raw_of (br_instructions rules)"
    by (auto simp: list_all2_conv_all_nth raw_of_def intro!: nth_equalityI)
  moreover have "length raw = 3" if "encode_instruction info = Ok raw" for info raw
    using encode_instruction_fields [OF that] by (simp add: fields_of_def)
  then have "list_all (\<lambda>raw. length raw = 3) raws"
    using raws(2) by (auto simp: list_all2_conv_all_nth list_all_length)
  ultimately show "decode_from_bytecode_v1 bytes = Ok (map raw_of (br_instructions rules))"
    using read_raws_bytes [of raws] by (simp add: raws(1) decode_from_bytecode_v1_def del: map_map)
  show "i \<in> set (br_instructions rules) \<Longrightarrow> \<exists>raw. encode_instruction (to_instruction_info i) = Ok raw"
    using raws(2) by (auto simp: list_all2_conv_all_nth in_set_conv_nth)
qed

lemma compiled_v1_run:
  assumes "compile_statements ss st False = Ok is"
    and "\<And>i. i \<in> set is \<Longrightarrow> \<exists>raw. encode_instruction (to_instruction_info i) = Ok raw"
    and "list_all (\<lambda>i. fields_fit (si_instruction i)) is" and "of_device m d"
  shows "decision (evaluate_bind_rules (map raw_of is) M d) = sem_block (debug_equal m) st ss"
proof -
  from assms(1) obtain c where c: "compile_block st ss new_compiler = Ok c" "is = instructions c @ [bind_inst]"
    by (auto simp: compile_statements_instructions bind_inst_def)
  with compile_block_sim [OF c(1), of "debug_equal m"] assms(2,3) have "v1_code (instructions c)"
    by (auto simp: v1_code_def block_code_def v1_inst_ok_def list_all_iff)
  from v1.run_correct [OF this, of m "(d, M)"] assms(4) have
    "v1_run d M (instructions c) = run_symbolic (debug_equal m) (sym_code (instructions c))"
    by simp
  also have "\<dots> = sem_block (debug_equal m) st ss"
    using compile_block_sim [OF c(1)] block_sim_run by blast
  finally show ?thesis
    by (simp add: v1_run_def c(2))
qed

text \<open>
  C11. The debugger of the old bytecode. Rules are compiled, encoded and decoded, and their labels
  and keys fit the fields of an instruction. Then the debugger decides what the rules mean on a
  device with the given properties, or stops on an error of that meaning. The only other error comes
  from printing a key that is no deprecated key. It never panics.
\<close>

theorem v1_debugger_correct:
  assumes "compile_statements ss st False = Ok is"
    and "encode_to_bytecode_v1 \<lparr>br_symbol_table = st, br_instructions = is, br_use_new_bytecode = False\<rparr> = Ok bytes"
    and "list_all (\<lambda>i. fields_fit (si_instruction i)) is"
    and "construct_property_map properties = Ok m"
  shows "\<exists>raws. decode_from_bytecode_v1 bytes = Ok raws \<and>
    (case debug raws properties of
       Ok (matched, _) \<Rightarrow> sem_block (debug_equal m) st ss = Ok (matched \<noteq> None)
     | Err e \<Rightarrow> sem_block (debug_equal m) st ss = Err e
                \<or> (\<exists>k. e = DbInvalidDeprecatedKey k \<and> get_deprecated_key_identifiers k = None)
     | Panic \<Rightarrow> False)"
proof (intro exI conjI)
  show "decode_from_bytecode_v1 bytes = Ok (map raw_of is)"
    using decode_raw_of(1) [OF assms(2)] by simp
  let ?d = "\<lparr>dbg_instructions = map raw_of is, dbg_properties = m, dbg_output = [],
    dbg_identifiers = get_deprecated_key_identifiers, dbg_printed = []\<rparr>"
  let ?r = "evaluate_bind_rules (map raw_of is) {} ?d"
  have dec: "decision ?r = sem_block (debug_equal m) st ss"
    using decode_raw_of(2) [OF assms(2)] assms(1,3) by (intro compiled_v1_run) (auto simp: of_device_def)
  have debug: "debug (map raw_of is) properties =
      and_then ?r (\<lambda>(matched, d). and_then (log_output d) (\<lambda>d. Ok (matched, dbg_printed d)))"
    by (simp add: debug_def new_debugger_def assms(4))
  have "log_ready d" if "?r = Ok (matched, d)" for matched d
    using that by (rule evaluate_bind_rules_ready) (simp add: log_ready_def)
  with log_output_ready dec evaluate_bind_rules_no_panic [of "map raw_of is" "{}" ?d]
  show "case debug (map raw_of is) properties of
       Ok (matched, _) \<Rightarrow> sem_block (debug_equal m) st ss = Ok (matched \<noteq> None)
     | Err e \<Rightarrow> sem_block (debug_equal m) st ss = Err e
                \<or> (\<exists>k. e = DbInvalidDeprecatedKey k \<and> get_deprecated_key_identifiers k = None)
     | Panic \<Rightarrow> False"
    unfolding debug by (cases ?r) (auto simp: decision_def result_simps split: result.split)
qed

text \<open>The example rule on the deprecated key \<open>BIND_PROTOCOL\<close>.\<close>

definition ex_table_v1 :: SymbolTable where
  "ex_table_v1 = [ex_key \<mapsto> DeprecatedKey BIND_PROTOCOL]"

definition ex_properties :: "DeviceProperty list" where
  "ex_properties = [\<lparr>dp_key = BIND_PROTOCOL, dp_value = 7\<rparr>]"

theorem v1_debugger_correct_witness:
  "\<exists>is bytes raws. compile_statements ex_block ex_table_v1 False = Ok is \<and>
     encode_to_bytecode_v1 \<lparr>br_symbol_table = ex_table_v1, br_instructions = is, br_use_new_bytecode = False\<rparr> = Ok bytes \<and>
     decode_from_bytecode_v1 bytes = Ok raws \<and>
     (case debug raws ex_properties of
        Ok (matched, _) \<Rightarrow> matched \<noteq> None
      | Err e \<Rightarrow> \<exists>k. e = DbInvalidDeprecatedKey k \<and> get_deprecated_key_identifiers k = None
      | Panic \<Rightarrow> False)"
proof -
  obtain "is" where "is": "compile_statements ex_block ex_table_v1 False = Ok is"
    and fit: "list_all (\<lambda>i. fields_fit (si_instruction i)) is"
    and enc: "\<exists>bytes. encode_to_bytecode_v1 \<lparr>br_symbol_table = ex_table_v1, br_instructions = is, br_use_new_bytecode = False\<rparr> = Ok bytes"
    by (simp add: ex_block_def ex_table_v1_def ex_span_def ex_condition_def ex_key_def compile_statements_def
        compile_statements_in_def compile_block_def new_compiler_def get_unique_label_def
        checked_inc_def lookup_identifier_def push_inst_def Let_def encode_to_bytecode_v1_def encode_instruction_def
        to_raw_instruction_def to_instruction_info_def try_from_u64_def BIND_PROTOCOL_def)
  from enc obtain bytes where
    bytes: "encode_to_bytecode_v1 \<lparr>br_symbol_table = ex_table_v1, br_instructions = is, br_use_new_bytecode = False\<rparr> = Ok bytes" ..
  have map: "construct_property_map ex_properties = Ok [BIND_PROTOCOL \<mapsto> 7]"
    by (simp add: construct_property_map_def ex_properties_def)
  have "sem_block (debug_equal [BIND_PROTOCOL \<mapsto> 7]) ex_table_v1 ex_block = Ok True"
    by (simp add: ex_block_def ex_table_v1_def ex_condition_def sem_condition_def sem_equal_def value_symbol_def
        ex_key_def debug_equal_def device_value_def try_from_u64_def BIND_PROTOCOL_def BIND_FLAGS_def)
  with v1_debugger_correct [OF "is" bytes fit map] "is" bytes show ?thesis
    by (auto cong: result.case_cong)
qed

end
