(* ===== verification/Spec2Isabelle.thy ===== *)
theory Spec2Isabelle
  imports Bindc_Props Compile_Safe Driver_Index_Safe Encoder_Complete V1_Debugger_Sim
begin

text \<open>
  A verification development for the driver binding system of Fuchsia. Drivers come with bind rules,
  small programs that say which devices a driver is for. The development models the bind language
  under \<open>src/src/devices/lib/bind/src\<close>, the command line compiler under \<open>src/tools/bindc/src\<close> and the
  driver index under \<open>src/src/devices/bin/driver-index/src\<close>, and proves what they do together.

  \<^bold>\<open>How the parts interact.\<close> \<open>bindc\<close> reads rules and libraries and calls the compiler. The parsers
  turn the sources into syntax trees. The libraries are ordered by a dependency graph and give the
  symbol table. The code generator emits symbolic instructions, which one of two encoders turns into
  bytecode. At run time the driver index decodes the bytecode of every driver and, for each new
  device, executes it on the properties of the device; C++ code does the same through \<open>ffi.rs\<close>. Two
  debuggers execute symbolic instructions and old bytecode and explain the result. The test runner
  uses the first of them.

  \<^bold>\<open>Conventions.\<close> A Rust function that can fail or panic returns \<open>Ok\<close>, \<open>Err\<close> or \<open>Panic\<close>, and \<open>and_then\<close> is
  the question mark operator. Machine integers are words, \<open>usize\<close> is a natural number, a string is
  the list of its UTF-8 bytes. A hash map that is only looked up is a partial map, one that is walked
  an association list; where the order of a hash set matters it is the parameter \<open>ord\<close>, and the
  theorems hold for every order. Mutable state is passed and returned.

  \<^bold>\<open>Theories.\<close>

  \<^item> Shared: \<open>Bind_Prelude\<close> (results, bytes of words, UTF-8, vectors), \<open>Rust_Format\<close> (number formats).
  \<^item> Syntax: \<open>Bind_Ast\<close> has the data of \<open>parser/*.rs\<close>. \<open>Nom\<close> models the combinators of the crates nom and
    nom_locate that the parsers use, \<open>Bind_Parser\<close> the parsers of \<open>parser/common.rs\<close>, and \<open>Bind_Grammar\<close>
    those of \<open>bind_rules.rs\<close>, \<open>bind_library.rs\<close> and \<open>bind_composite.rs\<close>. \<open>Parser_Contract\<close>, \<open>Nom_Rules\<close> and
    \<open>Grammar_Safe\<close> show that every parser returns, never panics, and keeps spans inside the source.
    \<open>Rules_Size\<close> bounds syntax trees by the source. \<open>Parser_Errors\<close> shows which errors can be reported.
  \<^item> Libraries: \<open>Dep_Graph\<close> is \<open>compiler/dependency_graph.rs\<close>, \<open>Symbol_Table\<close> is \<open>compiler/symbol_table.rs\<close>
    with \<open>linter.rs\<close>. \<open>Dep_Graph_Correct\<close> and \<open>Library_Order\<close> show what resolution returns and when it
    fails, the latter through the interface \<open>named_store\<close> of the graph.
  \<^item> Code generation: \<open>Bind_Instr\<close> and \<open>Bind_Compiler\<close> are \<open>compiler/instruction.rs\<close> and the code generator
    of \<open>compiler/compiler.rs\<close>, with a reference semantics of statements. \<open>Compiler_Sim\<close> shows that the
    code decides what the statements mean, \<open>Compiler_Total\<close> when there is code.
  \<^item> New bytecode: \<open>Bytecode\<close>, \<open>Symbol_Encoder\<close>, \<open>Instr_Encoder\<close> and \<open>Encode_V2\<close> are the constants and
    the encoder. \<open>Encoder_Layout\<close> and \<open>Encoder_Patch\<close> relate its two passes to a one-pass layout, and
    \<open>Encoder_Complete\<close> shows when it succeeds and how long its output is.
  \<^item> Interpreter: \<open>Interp_Common\<close> (readers of bytes, with the interfaces \<open>byte_reader\<close> and
    \<open>byte_codec\<close>), \<open>Bind_Decoder\<close> and \<open>Bind_Matcher\<close> are \<open>interpreter/*.rs\<close>. \<open>Decoder_Props\<close>,
    \<open>Matcher_Sim\<close> and \<open>Composite_Roundtrip\<close> show that decoding inverts encoding, that matching decides
    what the instructions say, and that nothing panics on arbitrary bytes.
  \<^item> Old bytecode and debuggers: \<open>Encode_V1\<close> with \<open>Encode_V1_Props\<close>, \<open>V1_Debugger\<close> with
    \<open>V1_Debugger_Sim\<close>, and \<open>Offline_Debugger\<close> with \<open>Offline_Debugger_Sim\<close>. \<open>Symbolic_Machine\<close> is the
    interface under which the three machines are proved correct once: \<open>located_machine\<close> and
    \<open>symbolic_machine\<close>, interpreted on the bytecode interpreter and on both debuggers.
  \<^item> Entry points: \<open>Compile_Rules\<close> has \<open>compile\<close> and its parts, with the theorems from source to match;
    \<open>Compile_Safe\<close> shows that the compiler does not panic. \<open>User_Errors\<close> is \<open>errors.rs\<close>, \<open>Bind_Test\<close> is
    \<open>test.rs\<close>, \<open>Match_Ffi\<close> is \<open>ffi.rs\<close>, with theorems on what a verdict of tests means and on the
    agreement of the C interface with the driver index.
  \<^item> Driver index: \<open>Driver_Index\<close> loads and matches drivers, \<open>Driver_Index_Server\<close> has the indexer and
    its three servers. \<open>Driver_Index_Props\<close> shows which driver is chosen, that waiting clients are
    answered exactly once, and that loading ends. \<open>Driver_Index_Safe\<close> shows what holds of the drivers in
    every reachable state, that no request of the framework protocol panics, and exactly when a
    request for driver information does.
  \<^item> Command line: \<open>Bindc\<close> models every command with the files and the output as state;
    \<open>Bindc_Props\<close> shows what is written, what is left alone, and what is printed.

  This theory composes them: from a source file through \<open>bindc\<close> to the answer of the driver index.

  \<^bold>\<open>Bounds and fuel.\<close> The loops of \<open>Nom\<close> and the nesting of statements run on fuel, one more than the
  bytes that are left. Running out is modelled as a panic, and \<open>Grammar_Safe\<close> proves that it does not
  happen: every round consumes a byte. All other loops are total functions. Sources are below 2 GiB, because nom_locate counts
  lines in 32 bits. Bytecode is below 4 GiB where its length fields are 32 bits wide, which
  \<open>Encoder_Complete\<close> derives from the number of instructions. Strings in bytecode are not empty,
  contain no zero byte and have at most 255 bytes: the decoder rejects others. The encoder of the new
  format cuts numbers to 32 bits, and the comparison \<open>device_equal\<close>, with which the theorems on
  matching state the meaning of rules, does so too: it is exact for numbers below \<open>2\<^sup>3\<^sup>2\<close>. The old format keeps
  labels in 8 bits and keys in 16, and its theorems assume that they fit.

  \<^bold>\<open>Parameters.\<close> The hash order \<open>ord\<close>, the JSON library and schemas (\<open>JsonOps\<close>), URLs, packages and the
  transport of the driver index, the \<open>Debug\<close> format of strings, and the system calls of \<open>bindc\<close> (\<open>Os\<close>)
  are code outside the sources. Upper case of generated names is that of ASCII letters, all that the
  parser accepts. Theorems state what they need of them as hypotheses, and the
  witnesses give instances.

  \<^bold>\<open>Not modelled.\<close> The start-up of the driver index and its package resolver, and the \<open>ffx\<close> command
  that debugs a driver on a device, are input and output around the modelled functions. The fuzzers are tests. The
  migration tool of \<open>bindc\<close> is a rewriting of C macros by regular expressions of an external library.
  The parser of command lines is the structopt crate. Tests in the sources are not modelled. Of nom only
  the combinators that the parsers use are modelled.
\<close>

section \<open>From a source to the driver index\<close>

lemma bytecode_of_encoded:
  assumes "composite_try_from rules_str = Err pe"
    and "compile_bind ord rules_str libraries lint disable_autobind True = Ok br"
    and "encode_to_bytecode (Bind br) = Ok bytes"
  shows "bytecode_of ord rules_str libraries lint disable_autobind True = Ok bytes"
  using assms by (simp add: bytecode_of_def compile_def)

lemma compiled_bytes:
  assumes "compile_bind ord rules_str libraries lint disable_autobind True = Ok br"
    and "length (br_instructions br) < 2 ^ 22"
    and "list_all inst_ok (sym_code (br_instructions br))"
    and "\<forall>s\<in>code_strings (sym_code (br_instructions br)). good_string s"
  obtains bytes where "encode_to_bytecode (Bind br) = Ok bytes" and "length bytes < 2 ^ 32"
proof -
  have "\<forall>s\<in>code_strings (sym_code (br_instructions br)). length s \<le> MAX_STRING_LENGTH"
    using assms(4) by (simp add: good_string_def)
  with compiled_encodes [OF assms(1)] assms(2,3) obtain bytes where bytes: "encode_to_bytecode (Bind br) = Ok bytes"
    by auto
  then have "encode_to_bytecode_v2 br = Ok bytes"
    using compile_bind_code(3) [OF assms(1)] by simp
  from encode_v2_length [OF this] assms(2) have "length bytes < 2 ^ 32" by simp
  with bytes show thesis by (rule that)
qed

text \<open>
  C1. From a source to the driver index. Let the rules of a source compile to fewer than four
  million instructions with comparisons of matching types and strings that are not empty, not too
  long and without zero bytes. Then \<open>bindc compile\<close> succeeds and writes a file, the driver index decodes this file, and a
  driver loaded from it is matched with a device exactly if the rules are true on the device
  according to the reference semantics, where numbers are compared as the bytecode holds them, cut to
  32 bits.
\<close>

theorem bindc_to_driver_index:
  assumes "os_can_create os output" and "accepts os (Some output)"
    and "file_text w input = Some rules_str"
    and "list_all2 (\<lambda>path s. file_text w path = Some s) includes libraries"
    and "output \<notin> set (input # includes)"
    and "composite_try_from rules_str = Err pe"
    and "compile_bind ord rules_str libraries lint disable_autobind True = Ok br"
    and "length (br_instructions br) < 2 ^ 22"
    and "list_all inst_ok (sym_code (br_instructions br))"
    and "\<forall>s\<in>code_strings (sym_code (br_instructions br)). good_string s"
  shows "\<exists>bytes decoded ast st.
    handle_command os ord json
      (CmdCompile \<lparr>so_include = includes, so_include_file = None, so_input = Some input, so_lint = lint\<rparr>
        (Some output) None disable_autobind True True) w = (Ok (), with_file w output bytes)
    \<and> new_DecodedRules bytes = Ok (Normal decoded)
    \<and> rules_try_from rules_str = Ok ast
    \<and> get_symbol_table_from_libraries ord (ast_using ast) libraries lint = Ok st
    \<and> (\<forall>d device. rd_bind_rules d = Normal decoded \<longrightarrow>
        (driver_matches ops d device = Ok (Some (create_matched_driver ops d)) \<longleftrightarrow>
         sem_rules (device_equal device) disable_autobind st (ast_statements ast) = Ok True))"
proof -
  obtain bytes where bytes: "encode_to_bytecode (Bind br) = Ok bytes" "length bytes < 2 ^ 32"
    by (rule compiled_bytes [OF assms(7-10)])
  have run: "handle_command os ord json
      (CmdCompile \<lparr>so_include = includes, so_include_file = None, so_input = Some input, so_lint = lint\<rparr>
        (Some output) None disable_autobind True True) w = (Ok (), with_file w output bytes)"
    by (simp add: handle_includes_def handle_compile_inputs [OF assms(1-5)]
        bytecode_of_encoded [OF assms(6,7) bytes(1)])
  have "encode_to_bytecode_v2 br = Ok bytes"
    using bytes(1) compile_bind_code(3) [OF assms(7)] by simp
  then obtain decoded where decoded: "new_DecodedRules bytes = Ok (Normal decoded)"
    by (rule from_bytecode_v2 [OF _ bytes(2) assms(10)])
  obtain ast st where ast: "rules_try_from rules_str = Ok ast"
    "get_symbol_table_from_libraries ord (ast_using ast) libraries lint = Ok st"
    using compile_bind_match [OF assms(7) bytes assms(10)] by blast
  have "match_bytecode bytes device = sem_rules (device_equal device) disable_autobind st (ast_statements ast)" for device
    using compile_bind_match [OF assms(7) bytes assms(10), of device] ast by auto
  then have "\<forall>d device. rd_bind_rules d = Normal decoded \<longrightarrow>
      (driver_matches ops d device = Ok (Some (create_matched_driver ops d)) \<longleftrightarrow>
       sem_rules (device_equal device) disable_autobind st (ast_statements ast) = Ok True)"
    by (simp add: driver_matches_bytecode [OF decoded])
  with run decoded ast show ?thesis
    by (intro exI [of _ bytes] exI [of _ decoded] exI [of _ ast] exI [of _ st]) (simp del: handle_command.simps)
qed

theorem bindc_to_driver_index_witness:
  "\<exists>bytes decoded.
    handle_command slow_os (\<lambda>_ xs. xs) ex_json
      (CmdCompile \<lparr>so_include = [], so_include_file = None, so_input = Some [0x69], so_lint = True\<rparr>
        (Some [0x6F]) None True True True) ex_world = (Ok (), with_file ex_world [0x6F] bytes)
    \<and> new_DecodedRules bytes = Ok (Normal decoded)
    \<and> (\<forall>d device. rd_bind_rules d = Normal decoded \<longrightarrow>
        (driver_matches ex_ops d device = Ok (Some (create_matched_driver ex_ops d)) \<longleftrightarrow>
         sem_rules (device_equal device) True get_deprecated_symbols (ast_statements ex_ast) = Ok True))"
proof -
  have "list_all inst_ok (sym_code (br_instructions ex_compiled))" "length (br_instructions ex_compiled) < 2 ^ 22"
    by (simp_all add: ex_compiled_def disable_autobind_inst_def comparison_ok_def)
  moreover have "[0x6F] \<notin> set ([0x69] # ([] :: Path list))" "list_all2 (\<lambda>path s. file_text ex_world path = Some s) [] []"
    by simp_all
  moreover have "ast = ex_ast \<and> st = get_deprecated_symbols"
    if "rules_try_from ex_source = Ok ast" "get_symbol_table_from_libraries (\<lambda>_ xs. xs) (ast_using ast) [] True = Ok st"
    for ast st
    using that by (auto simp: ex_source_parses ex_ast_def no_libraries)
  ultimately show ?thesis
    using bindc_to_driver_index [of slow_os "[0x6F]" ex_world "[0x69]" ex_source "[]" "[]" _ "\<lambda>_ xs. xs"
          True True ex_compiled ex_json ex_ops, OF slow_os_simps ex_world_text _ _ ex_not_composite ex_compiles _ _ ex_compiled_good]
    by blast
qed

end
